(* ===== verification/Prelude.thy ===== *)
theory Prelude
  imports Main "HOL-Library.Multiset" "HOL-Library.Monad_Syntax" "HOL-Library.State_Monad"
begin

text \<open>
  Shared vocabulary of the CATS development: the Python exceptions the code can raise,
  Python's list indexing, \<open>min\<close> and \<open>list.index\<close> with their errors, a sequencing
  combinator for loops that may raise, and \<open>str.split()\<close> (from \<open>utils.py\<close>, which is
  not part of the sources, so it is modelled from its documented behaviour). Lemmas
  about them are collected in \<open>py_simps\<close> for the component theories.
\<close>

named_theorems py_simps "characteristic equations of the Python built-ins"

datatype py_error = IndexError | ValueError | ZeroDivisionError | AssertionError | KeyError

type_synonym 'a py_result = "py_error + 'a"

text \<open>\<open>xs[i]\<close>: negative indices count from the end; out of range raises.\<close>

definition py_get :: "'a list \<Rightarrow> int \<Rightarrow> 'a py_result" where
  "py_get xs i =
     (if 0 \<le> i then
        (if nat i < length xs then Inr (xs ! nat i) else Inl IndexError)
      else if nat (- i) \<le> length xs then Inr (xs ! (length xs - nat (- i)))
      else Inl IndexError)"

text \<open>\<open>min(xs)\<close>: \<open>ValueError\<close> on an empty sequence, otherwise the running minimum.\<close>

fun py_min :: "'a::linorder list \<Rightarrow> 'a py_result" where
  "py_min [] = Inl ValueError"
| "py_min (x # xs) = Inr (fold min xs x)"

text \<open>\<open>xs.index(y)\<close>: the first position holding \<open>y\<close>, \<open>ValueError\<close> if there is none.\<close>

fun py_index :: "'a list \<Rightarrow> 'a \<Rightarrow> nat py_result" where
  "py_index [] y = Inl ValueError"
| "py_index (x # xs) y =
     (if x = y then Inr 0
      else (case py_index xs y of Inl e \<Rightarrow> Inl e | Inr i \<Rightarrow> Inr (Suc i)))"

text \<open>A \<open>for\<close> loop whose body may raise: the first exception ends the loop.\<close>

fun py_mapM :: "('a \<Rightarrow> 'b py_result) \<Rightarrow> 'a list \<Rightarrow> 'b list py_result" where
  "py_mapM f [] = Inr []"
| "py_mapM f (x # xs) =
     (case f x of Inl e \<Rightarrow> Inl e
      | Inr y \<Rightarrow> (case py_mapM f xs of Inl e \<Rightarrow> Inl e | Inr ys \<Rightarrow> Inr (y # ys)))"

text \<open>
  \<open>utils.split(s)\<close> is \<open>s.split()\<close>: the maximal runs of non-whitespace characters.
  \<open>split_on\<close> cuts at every whitespace character; the empty pieces are dropped.
\<close>

definition py_whitespace :: "char \<Rightarrow> bool" where
  "py_whitespace c \<longleftrightarrow> c \<in> {CHR '' '', CHR 0x09, CHR 0x0A, CHR 0x0B, CHR 0x0C, CHR 0x0D}"

primrec split_on :: "(char \<Rightarrow> bool) \<Rightarrow> string \<Rightarrow> string list" where
  "split_on p [] = [[]]"
| "split_on p (c # cs) =
     (let r = split_on p cs in if p c then [] # r else (c # hd r) # tl r)"

definition py_split :: "string \<Rightarrow> string list" where
  "py_split s = filter (\<lambda>w. w \<noteq> []) (split_on py_whitespace s)"

text \<open>\<open>str.lower()\<close> on the ASCII letters.\<close>

definition py_lower :: "string \<Rightarrow> string" where
  "py_lower s =
     map (\<lambda>c. let n = (of_char c :: nat)
               in if 65 \<le> n \<and> n \<le> 90 then ''abcdefghijklmnopqrstuvwxyz'' ! (n - 65) else c) s"

text \<open>\<open>str(n)\<close> of a non-negative int: its decimal digits.\<close>

fun py_str_nat :: "nat \<Rightarrow> string" where
  "py_str_nat n =
     (if n < 10 then [''0123456789'' ! n] else py_str_nat (n div 10) @ [''0123456789'' ! (n mod 10)])"

declare py_str_nat.simps [simp del]

text \<open>\<open>sep.join(ws)\<close>: the words with the separator between consecutive ones.\<close>

fun py_join :: "string \<Rightarrow> string list \<Rightarrow> string" where
  "py_join sep [] = []"
| "py_join sep [w] = w"
| "py_join sep (w # ws) = w @ sep @ py_join sep ws"

subsection \<open>Lists and integers\<close>

lemma length_ge_Suc_0 [simp]: "Suc 0 \<le> length xs \<longleftrightarrow> xs \<noteq> []"
  by (cases xs) auto

text \<open>One step of a capped three-way minimum, shared by the bounded recursions.\<close>

lemma min3_capped_step:
  fixes e1 e2 e3 m1 m2 m3 l :: int
  assumes "min e1 l \<le> m1" "min e2 l \<le> m2" "min e3 l \<le> m3"
  shows "min (1 + min (min e1 e2) e3) (l + 1) \<le> 1 + min (min m1 m2) m3"
  using assms unfolding min_def by (auto split: if_splits)

subsection \<open>Indexing\<close>

lemma py_get_nat [py_simps]:
  "py_get xs (int i) = (if i < length xs then Inr (xs ! i) else Inl IndexError)"
  by (simp add: py_get_def)

lemma py_get_Inr:
  "py_get xs i = Inr x \<Longrightarrow> x \<in> set xs"
  by (auto simp: py_get_def split: if_splits)

subsection \<open>\<open>min\<close>\<close>

lemma py_min_Min [py_simps]: "xs \<noteq> [] \<Longrightarrow> py_min xs = Inr (Min (set xs))"
proof (cases xs)
  case (Cons x ys)
  then show ?thesis using Min.set_eq_fold [of x ys] by simp
qed simp

lemma py_min_Inr:
  assumes "py_min xs = Inr m"
  shows "m \<in> set xs" and "\<forall>y\<in>set xs. m \<le> y"
proof -
  from assms have "xs \<noteq> []" by auto
  with assms have "m = Min (set xs)" by (simp add: py_min_Min)
  with \<open>xs \<noteq> []\<close> show "m \<in> set xs" and "\<forall>y\<in>set xs. m \<le> y" by auto
qed

lemma py_min_map_mono:
  assumes "mono f"
  shows "py_min (map f xs) = map_sum id f (py_min xs)"
proof (cases xs)
  case (Cons x ys)
  have "Min (f ` set xs) = f (Min (set xs))"
    using Cons by (simp add: mono_Min_commute [OF assms])
  with Cons show ?thesis by (simp add: py_min_Min del: py_min.simps)
qed simp

subsection \<open>\<open>list.index\<close>\<close>

lemma py_index_found:
  "y \<in> set xs \<Longrightarrow>
     \<exists>i. py_index xs y = Inr i \<and> i < length xs \<and> xs ! i = y \<and> (\<forall>j<i. xs ! j \<noteq> y)"
proof (induction xs)
  case (Cons x xs)
  show ?case
  proof (cases "x = y")
    case False
    with Cons obtain i where "py_index xs y = Inr i" "i < length xs" "xs ! i = y"
      "\<forall>j<i. xs ! j \<noteq> y" by auto
    with False show ?thesis by (auto simp: less_Suc_eq_0_disj)
  qed simp
qed simp

lemma py_index_not_found [py_simps]: "y \<notin> set xs \<Longrightarrow> py_index xs y = Inl ValueError"
  by (induction xs) auto

lemma py_index_map:
  assumes "\<forall>x\<in>set xs. f x = f y \<longleftrightarrow> x = y"
  shows "py_index (map f xs) (f y) = py_index xs y"
  using assms by (induction xs) auto

subsection \<open>Loops that may raise\<close>

lemma py_mapM_Inr [py_simps]:
  "(\<And>x. x \<in> set xs \<Longrightarrow> f x = Inr (g x)) \<Longrightarrow> py_mapM f xs = Inr (map g xs)"
  by (induction xs) auto

lemma py_mapM_length:
  "py_mapM f xs = Inr ys \<Longrightarrow> length ys = length xs"
  by (induction xs arbitrary: ys) (auto split: sum.splits)

lemma py_mapM_Inl:
  "\<exists>x\<in>set xs. isl (f x) \<Longrightarrow> \<forall>x\<in>set xs. \<forall>e. f x = Inl e \<longrightarrow> e = E \<Longrightarrow> py_mapM f xs = Inl E"
proof (induction xs)
  case (Cons x xs)
  show ?case
  proof (cases "f x")
    case (Inl e)
    with Cons.prems show ?thesis by simp
  next
    case (Inr y)
    with Cons.prems have "py_mapM f xs = Inl E" by (intro Cons.IH) auto
    with Inr show ?thesis by simp
  qed
qed simp


lemma py_mapM_InlD: "py_mapM f xs = Inl e \<Longrightarrow> \<exists>x\<in>set xs. f x = Inl e"
proof (induction xs)
  case (Cons x xs)
  show ?case
  proof (cases "f x")
    case (Inr y)
    with Cons.prems have "py_mapM f xs = Inl e" by (cases "py_mapM f xs") auto
    with Cons.IH show ?thesis by auto
  qed (use Cons.prems in auto)
qed simp

lemma py_get_mod:
  assumes "- int (length xs) \<le> i" and "i < int (length xs)"
  shows "py_get xs i = Inr (xs ! nat (i mod int (length xs)))"
proof (cases "0 \<le> i")
  case True
  with assms(2) show ?thesis by (simp add: py_get_def)
next
  case False
  with assms have "(i + int (length xs)) mod int (length xs) = i + int (length xs)"
    by (intro mod_pos_pos_trivial) simp_all
  then have "i mod int (length xs) = i + int (length xs)" by simp
  moreover have "nat (- i) \<le> length xs" "length xs - nat (- i) = nat (i + int (length xs))"
    using False assms(1) by arith+
  ultimately show ?thesis using False by (simp add: py_get_def)
qed

lemma py_get_out:
  "\<not> (- int (length xs) \<le> i \<and> i < int (length xs)) \<Longrightarrow> py_get xs i = Inl IndexError"
  by (auto simp: py_get_def)

lemma py_get_Inl: "py_get xs i = Inl e \<Longrightarrow> e = IndexError"
  by (simp add: py_get_def split: if_splits)

lemma foldl_append_concat: "foldl (\<lambda>r i. r @ f i) acc xs = acc @ concat (map f xs)"
  by (induction xs arbitrary: acc) auto

subsection \<open>\<open>str.split()\<close> and \<open>str.lower()\<close>\<close>

lemma split_on_not_Nil [simp]: "split_on p xs \<noteq> []"
  by (induction xs) (simp_all add: Let_def)

lemma split_on_append_sep:
  "p c \<Longrightarrow> split_on p (xs @ c # ys) = split_on p xs @ split_on p ys"
  by (induction xs) (simp_all add: Let_def)

lemma split_on_no_sep: "\<forall>c\<in>set w. \<not> p c \<Longrightarrow> split_on p w = [w]"
  by (induction w) (simp_all add: Let_def)

lemma py_split_append_sep:
  "py_whitespace c \<Longrightarrow> py_split (xs @ c # ys) = py_split xs @ py_split ys"
  by (simp add: py_split_def split_on_append_sep)

lemma py_split_blank: "\<forall>c\<in>set xs. py_whitespace c \<Longrightarrow> py_split xs = []"
proof (induction xs)
  case Nil show ?case by (simp add: py_split_def)
next
  case (Cons c xs)
  then show ?case using py_split_append_sep [of c "[]" xs] by (simp add: py_split_def)
qed

lemma py_split_blank_prefix: "\<forall>c\<in>set xs. py_whitespace c \<Longrightarrow> py_split (xs @ ys) = py_split ys"
  by (induction xs) (simp_all add: py_split_append_sep [of _ "[]", simplified] py_split_blank)

lemma py_split_blank_suffix: "\<forall>c\<in>set ys. py_whitespace c \<Longrightarrow> py_split (xs @ ys) = py_split xs"
proof (cases ys)
  case (Cons c ys')
  assume "\<forall>c\<in>set ys. py_whitespace c"
  with Cons show ?thesis by (simp add: py_split_append_sep py_split_blank)
qed simp

lemma py_split_word:
  assumes "py_whitespace c" "py_whitespace d" "w \<noteq> []" "\<forall>x\<in>set w. \<not> py_whitespace x"
  shows "w \<in> set (py_split (xs @ c # w @ d # ys))"
proof -
  have "py_split w = [w]" using assms(3,4) by (simp add: py_split_def split_on_no_sep)
  then show ?thesis using assms(1,2) by (simp add: py_split_append_sep)
qed

lemma alphabet_codes: "i < 26 \<Longrightarrow> of_char (''abcdefghijklmnopqrstuvwxyz'' ! i) = (97 + i :: nat)"
proof -
  have "list_all (\<lambda>i. of_char (''abcdefghijklmnopqrstuvwxyz'' ! i) = (97 + i :: nat)) [0..<26]"
    by code_simp
  moreover assume "i < 26"
  ultimately show ?thesis by (simp add: list_all_iff)
qed

lemma lower_letter_codes:
  "c \<in> set ''abcdefghijklmnopqrstuvwxyz'' \<Longrightarrow> 97 \<le> (of_char c :: nat) \<and> (of_char c :: nat) \<le> 122"
proof -
  assume "c \<in> set ''abcdefghijklmnopqrstuvwxyz''"
  then obtain i where "i < length ''abcdefghijklmnopqrstuvwxyz''" and c: "''abcdefghijklmnopqrstuvwxyz'' ! i = c"
    unfolding in_set_conv_nth by blast
  then have "i < 26" by simp
  with alphabet_codes [OF this] show ?thesis unfolding c by simp
qed

lemma lower_letter_fixed:
  "c \<in> set ''abcdefghijklmnopqrstuvwxyz'' \<Longrightarrow>
   (let n = (of_char c :: nat) in if 65 \<le> n \<and> n \<le> 90 then ''abcdefghijklmnopqrstuvwxyz'' ! (n - 65) else c) = c"
  using lower_letter_codes [of c] by (simp add: Let_def)

lemma py_lower_idem [simp]: "py_lower (py_lower s) = py_lower s"
proof -
  have "(let n = (of_char c' :: nat) in if 65 \<le> n \<and> n \<le> 90 then ''abcdefghijklmnopqrstuvwxyz'' ! (n - 65) else c') = c'"
    if c': "c' = (let n = (of_char c :: nat) in if 65 \<le> n \<and> n \<le> 90 then ''abcdefghijklmnopqrstuvwxyz'' ! (n - 65) else c)" for c c'
  proof (cases "65 \<le> (of_char c :: nat) \<and> (of_char c :: nat) \<le> 90")
    case True
    then have "of_char c - 65 < (26::nat)" by arith
    then have "of_char c' = (97 + (of_char c - 65) :: nat)"
      using c' True alphabet_codes [of "of_char c - 65"] by (simp add: Let_def)
    with True show ?thesis by (simp add: Let_def)
  next
    case False
    with c' show ?thesis by (auto simp: Let_def)
  qed
  then show ?thesis by (simp add: py_lower_def comp_def)
qed

lemma py_lower_lower_letters:
  assumes "\<forall>c\<in>set t. c \<in> set ''abcdefghijklmnopqrstuvwxyz''"
  shows "py_lower t = t"
  unfolding py_lower_def by (rule map_idI) (use assms lower_letter_fixed in blast)

end
