(* ===== verification/Diff.thy ===== *)
theory Diff
  imports Prelude
begin

text \<open>
  The diff functions of \<open>cats.py\<close> (Phase 1): \<open>shifty_shifts\<close> (substitutions plus
  length difference) and \<open>meowstake_matches\<close> (edit distance), both cut off by a
  \<open>limit\<close>, and the stubs \<open>final_diff\<close> and \<open>key_distance_diff\<close>. Strings are
  \<open>char list\<close>s, \<open>start[0]\<close> is \<open>hd\<close> and \<open>start[1:]\<close> is \<open>tl\<close>; limits and results
  are Python ints. Each bounded function is compared with an unbounded reference distance
  (\<open>subst_dist\<close>, \<open>edit_dist\<close>): below the limit they agree, above it the function
  reports some value greater than the limit.
\<close>

subsection \<open>The code\<close>

function shifty_shifts :: "string \<Rightarrow> string \<Rightarrow> int \<Rightarrow> int" where
  "shifty_shifts start goal limit =
     (if start = goal then 0
      else if limit = 0 then limit + 1
      else if start = [] \<or> goal = [] then \<bar>int (length start) - int (length goal)\<bar>
      else if hd start = hd goal then 0 + shifty_shifts (tl start) (tl goal) limit
      else 1 + shifty_shifts (tl start) (tl goal) (limit - 1))"
  by pat_completeness auto
termination
  by (relation "measure (\<lambda>(s, g, l). length s)") auto

function meowstake_matches :: "string \<Rightarrow> string \<Rightarrow> int \<Rightarrow> int" where
  "meowstake_matches start goal limit =
     (if start = goal then 0
      else if limit = 0 then limit + 1
      else if start = [] \<or> goal = [] then \<bar>int (length start) - int (length goal)\<bar>
      else if hd start = hd goal then 0 + meowstake_matches (tl start) (tl goal) limit
      else
        (let add_diff = meowstake_matches start (tl goal) (limit - 1);
             rem_diff = meowstake_matches (tl start) goal (limit - 1);
             sub_diff = meowstake_matches (tl start) (tl goal) (limit - 1)
         in 1 + min (min add_diff rem_diff) sub_diff))"
  by pat_completeness auto
termination
  by (relation "measure (\<lambda>(s, g, l). length s + length g)") (auto simp: neq_Nil_conv)

declare shifty_shifts.simps [simp del] meowstake_matches.simps [simp del]

text \<open>\<open>final_diff\<close> is the unimplemented stub: its body is \<open>assert False\<close>.\<close>

definition final_diff :: "string \<Rightarrow> string \<Rightarrow> int \<Rightarrow> int py_result" where
  "final_diff start goal limit = Inl AssertionError"

text \<open>
  \<open>key_distance_diff\<close> lower-cases both strings and then falls off the end of its
  (unwritten) body, so it returns Python's \<open>None\<close>.
\<close>

definition key_distance_diff :: "string \<Rightarrow> string \<Rightarrow> int \<Rightarrow> int option" where
  "key_distance_diff start goal limit =
     (let start = py_lower start;
          goal = py_lower goal
      in None)"

subsection \<open>Reference distances\<close>

text \<open>Mismatched positions plus the difference of the lengths.\<close>

definition subst_dist :: "'a list \<Rightarrow> 'a list \<Rightarrow> nat" where
  "subst_dist s g =
     length (filter (\<lambda>(a, b). a \<noteq> b) (zip s g))
     + (max (length s) (length g) - min (length s) (length g))"

text \<open>Levenshtein distance: the textbook recurrence with insertion, deletion, substitution.\<close>

fun edit_dist :: "'a list \<Rightarrow> 'a list \<Rightarrow> nat" where
  "edit_dist [] g = length g"
| "edit_dist s [] = length s"
| "edit_dist (a # s) (b # g) =
     min (min (Suc (edit_dist (a # s) g)) (Suc (edit_dist s (b # g))))
         ((if a = b then 0 else 1) + edit_dist s g)"

text \<open>
  Edit scripts: \<open>Keep\<close> copies the next character, \<open>Ins\<close> writes one, \<open>Del\<close> skips one,
  \<open>Sub\<close> replaces one. A script applies when it consumes the whole start word; every
  operation but \<open>Keep\<close> costs one edit.
\<close>

datatype 'a edit_op = Keep | Ins 'a | Del | Sub 'a

fun apply_edits :: "'a edit_op list \<Rightarrow> 'a list \<Rightarrow> 'a list option" where
  "apply_edits [] s = (if s = [] then Some [] else None)"
| "apply_edits (Ins b # es) s = map_option (Cons b) (apply_edits es s)"
| "apply_edits (Keep # es) (a # s) = map_option (Cons a) (apply_edits es s)"
| "apply_edits (Del # es) (a # s) = apply_edits es s"
| "apply_edits (Sub b # es) (a # s) = map_option (Cons b) (apply_edits es s)"
| "apply_edits (_ # es) [] = None"

definition edit_cost :: "'a edit_op list \<Rightarrow> nat" where
  "edit_cost es = length (filter (\<lambda>e. e \<noteq> Keep) es)"

subsection \<open>Unfolding the code on constructors\<close>

lemma shifty_shifts_Nil [simp]:
  "shifty_shifts [] g l = (if g = [] then 0 else if l = 0 then 1 else int (length g))"
  "shifty_shifts s [] l = (if s = [] then 0 else if l = 0 then 1 else int (length s))"
  by (simp_all add: shifty_shifts.simps)

lemma shifty_shifts_Cons [simp]:
  "shifty_shifts (a # s) (b # g) l =
     (if a # s = b # g then 0 else if l = 0 then 1
      else if a = b then shifty_shifts s g l else 1 + shifty_shifts s g (l - 1))"
  by (simp add: shifty_shifts.simps [of "a # s" "b # g" l])

lemma meowstake_matches_Nil [simp]:
  "meowstake_matches [] g l = (if g = [] then 0 else if l = 0 then 1 else int (length g))"
  "meowstake_matches s [] l = (if s = [] then 0 else if l = 0 then 1 else int (length s))"
  by (simp_all add: meowstake_matches.simps)

lemma meowstake_matches_Cons [simp]:
  "meowstake_matches (a # s) (b # g) l =
     (if a # s = b # g then 0 else if l = 0 then 1
      else if a = b then meowstake_matches s g l
      else 1 + min (min (meowstake_matches (a # s) g (l - 1)) (meowstake_matches s (b # g) (l - 1)))
                   (meowstake_matches s g (l - 1)))"
  by (simp add: meowstake_matches.simps [of "a # s" "b # g" l] Let_def)

subsection \<open>Properties of the reference distances\<close>

lemma subst_dist_simps [simp]:
  "subst_dist [] g = length g"
  "subst_dist s [] = length s"
  "subst_dist (a # s) (b # g) = (if a = b then 0 else 1) + subst_dist s g"
  by (auto simp: subst_dist_def)

lemma subst_dist_eq_0_iff [simp]: "subst_dist s g = 0 \<longleftrightarrow> s = g"
  by (induction s g rule: list_induct2') auto

lemma subst_dist_refl [simp]: "subst_dist s s = 0"
  by simp

lemma subst_dist_pos [simp]: "Suc 0 \<le> subst_dist s g \<longleftrightarrow> s \<noteq> g"
  using subst_dist_eq_0_iff [of s g] by linarith

lemma edit_dist_Nil2 [simp]: "edit_dist s [] = length s"
  by (cases s) simp_all

lemma edit_dist_eq_0_iff [simp]: "edit_dist s g = 0 \<longleftrightarrow> s = g"
  by (induction s g rule: edit_dist.induct) auto

lemma edit_dist_refl [simp]: "edit_dist s s = 0"
  by simp

lemma edit_dist_pos [simp]: "Suc 0 \<le> edit_dist s g \<longleftrightarrow> s \<noteq> g"
  using edit_dist_eq_0_iff [of s g] by linarith

lemma edit_dist_sym: "edit_dist s g = edit_dist g s"
  by (induction s g rule: edit_dist.induct) (auto simp: min.commute min.left_commute)

lemma edit_dist_insert_le: "edit_dist s (b # g) \<le> Suc (edit_dist s g)"
  by (cases s) auto

lemma edit_dist_delete_le: "edit_dist (a # s) g \<le> Suc (edit_dist s g)"
  by (cases g) auto

lemma edit_dist_drop_le: "edit_dist s g \<le> Suc (edit_dist (a # s) g)"
proof (induction g arbitrary: s)
  case Nil
  then show ?case by simp
next
  case (Cons b g)
  have "edit_dist s (b # g) \<le> Suc (edit_dist s g)" by (rule edit_dist_insert_le)
  moreover have "edit_dist s g \<le> Suc (edit_dist (a # s) g)" by (rule Cons.IH)
  ultimately show ?case by auto
qed

lemma edit_dist_drop_le2: "edit_dist s g \<le> Suc (edit_dist s (b # g))"
  using edit_dist_drop_le [of g s b] by (simp add: edit_dist_sym)

lemma edit_dist_same_hd: "edit_dist (a # s) (a # g) = edit_dist s g"
  using edit_dist_drop_le [of s "a # g" a] edit_dist_drop_le2 [of "a # s" g a]
    edit_dist_drop_le [of s g a] edit_dist_drop_le2 [of s g a]
  by simp

lemma edit_dist_Cons_Cons [simp]:
  "edit_dist (a # s) (b # g) =
     (if a = b then edit_dist s g
      else Suc (min (min (edit_dist (a # s) g) (edit_dist s (b # g))) (edit_dist s g)))"
  by (simp add: edit_dist_same_hd del: edit_dist.simps) (simp add: min_def)

declare edit_dist.simps(3) [simp del]

lemma edit_dist_le_subst_dist: "edit_dist s g \<le> subst_dist s g"
  by (induction s g rule: list_induct2') auto

lemma subst_dist_le_max: "subst_dist s g \<le> max (length s) (length g)"
  by (induction s g rule: list_induct2') auto

text \<open>\<open>edit_dist\<close> is the least cost of an edit script.\<close>

lemma edit_dist_le_cost:
  "apply_edits es s = Some g \<Longrightarrow> edit_dist s g \<le> edit_cost es"
proof (induction es s arbitrary: g rule: apply_edits.induct)
  case (2 b es s)
  then obtain g' where g: "g = b # g'" and r: "apply_edits es s = Some g'" by auto
  have "edit_dist s (b # g') \<le> Suc (edit_dist s g')" by (rule edit_dist_insert_le)
  with "2.IH" [OF r] show ?case by (simp add: g edit_cost_def)
next
  case (3 es a s)
  then obtain g' where g: "g = a # g'" and r: "apply_edits es s = Some g'" by auto
  with "3.IH" [OF r] show ?case by (simp add: edit_cost_def)
next
  case (4 es a s)
  have "edit_dist (a # s) g \<le> Suc (edit_dist s g)" by (rule edit_dist_delete_le)
  with "4.IH" "4.prems" show ?case by (simp add: edit_cost_def)
next
  case (5 b es a s)
  then obtain g' where g: "g = b # g'" and r: "apply_edits es s = Some g'" by auto
  have "edit_dist (a # s) (b # g') \<le> Suc (edit_dist s g')" by (auto simp: min_def)
  with "5.IH" [OF r] show ?case by (simp add: g edit_cost_def)
qed (auto simp: edit_cost_def split: if_splits)

lemma edit_dist_script:
  "\<exists>es. apply_edits es s = Some g \<and> edit_cost es = edit_dist s g"
proof (induction s g rule: edit_dist.induct)
  case (1 g)
  have "apply_edits (map Ins g) [] = Some g" by (induction g) auto
  then show ?case by (intro exI [of _ "map Ins g"]) (simp add: edit_cost_def comp_def)
next
  case (2 a s)
  have "apply_edits (replicate (length xs) Del) xs = Some []" for xs :: "'a list"
    by (induction xs) auto
  from this [of "a # s"] show ?case
    by (intro exI [of _ "replicate (length (a # s)) Del"]) (simp add: edit_cost_def del: replicate.simps)
next
  case (3 a s b g)
  obtain e1 where e1: "apply_edits e1 (a # s) = Some g" "edit_cost e1 = edit_dist (a # s) g"
    using "3.IH"(1) by blast
  obtain e2 where e2: "apply_edits e2 s = Some (b # g)" "edit_cost e2 = edit_dist s (b # g)"
    using "3.IH"(2) by blast
  obtain e3 where e3: "apply_edits e3 s = Some g" "edit_cost e3 = edit_dist s g"
    using "3.IH"(3) by blast
  show ?case
  proof (cases "a = b")
    case True
    with e3 show ?thesis by (intro exI [of _ "Keep # e3"]) (simp add: edit_cost_def)
  next
    case False
    let ?m = "min (min (edit_dist (a # s) g) (edit_dist s (b # g))) (edit_dist s g)"
    have ed: "edit_dist (a # s) (b # g) = Suc ?m" using False by simp
    consider "?m = edit_dist (a # s) g" | "?m = edit_dist s (b # g)" | "?m = edit_dist s g"
      by (simp add: min_def) arith
    then show ?thesis
    proof cases
      case 1
      with e1 show ?thesis by (intro exI [of _ "Ins b # e1"]) (simp add: ed edit_cost_def del: edit_dist_Cons_Cons)
    next
      case 2
      with e2 show ?thesis by (intro exI [of _ "Del # e2"]) (simp add: ed edit_cost_def del: edit_dist_Cons_Cons)
    next
      case 3
      with e3 show ?thesis by (intro exI [of _ "Sub b # e3"]) (simp add: ed edit_cost_def del: edit_dist_Cons_Cons)
    qed
  qed
qed

lemma edit_dist_least:
  "edit_dist s g = (LEAST c. \<exists>es. apply_edits es s = Some g \<and> edit_cost es = c)"
proof (rule Least_equality [symmetric])
  show "\<exists>es. apply_edits es s = Some g \<and> edit_cost es = edit_dist s g" by (rule edit_dist_script)
next
  fix c assume "\<exists>es. apply_edits es s = Some g \<and> edit_cost es = c"
  then show "edit_dist s g \<le> c" using edit_dist_le_cost by blast
qed

subsection \<open>The bounded functions against the references\<close>

lemma shifty_shifts_le_subst_dist: "shifty_shifts s g l \<le> int (subst_dist s g)"
  by (induction s g arbitrary: l rule: list_induct2') auto

lemma shifty_shifts_ge_capped:
  "0 \<le> l \<Longrightarrow> min (int (subst_dist s g)) (l + 1) \<le> shifty_shifts s g l"
proof (induction s g arbitrary: l rule: list_induct2')
  case (4 a s b g)
  have "min (int (subst_dist s g)) l \<le> shifty_shifts s g (l - 1)" if "l \<noteq> 0"
    using "4.IH" [of "l - 1"] "4.prems" that by simp
  with "4.prems" "4.IH" [of l] show ?case by auto
qed auto

lemma shifty_shifts_negative_limit: "l < 0 \<Longrightarrow> shifty_shifts s g l = int (subst_dist s g)"
  by (induction s g arbitrary: l rule: list_induct2') auto

lemma meowstake_matches_le_edit_dist: "meowstake_matches s g l \<le> int (edit_dist s g)"
proof (induction s g arbitrary: l rule: edit_dist.induct)
  case (3 a s b g)
  let ?m = "\<lambda>x y. meowstake_matches x y (l - 1)" and ?e = "\<lambda>x y. int (edit_dist x y)"
  show ?case
  proof (cases "a = b")
    case True
    with "3.IH"(3) [of l] show ?thesis by simp
  next
    case False
    have "min (min (?m (a # s) g) (?m s (b # g))) (?m s g)
          \<le> min (min (?e (a # s) g) (?e s (b # g))) (?e s g)"
      using "3.IH" [of "l - 1"] by (intro min.mono) auto
    with False show ?thesis by (simp add: of_nat_min)
  qed
qed auto

lemma meowstake_matches_ge_capped:
  "0 \<le> l \<Longrightarrow> min (int (edit_dist s g)) (l + 1) \<le> meowstake_matches s g l"
proof (induction s g arbitrary: l rule: edit_dist.induct)
  case (3 a s b g)
  show ?case
  proof (cases "a = b \<or> l = 0")
    case True
    with "3.IH"(3) [of l] "3.prems" show ?thesis by auto
  next
    case False
    with "3.prems" have "0 \<le> l - 1" by simp
    with "3.IH" [of "l - 1"] have
      "min (int (edit_dist (a # s) g)) l \<le> meowstake_matches (a # s) g (l - 1)"
      "min (int (edit_dist s (b # g))) l \<le> meowstake_matches s (b # g) (l - 1)"
      "min (int (edit_dist s g)) l \<le> meowstake_matches s g (l - 1)"
      by simp_all
    then have "min (1 + min (min (int (edit_dist (a # s) g)) (int (edit_dist s (b # g))))
                   (int (edit_dist s g))) (l + 1)
               \<le> 1 + min (min (meowstake_matches (a # s) g (l - 1))
                   (meowstake_matches s (b # g) (l - 1))) (meowstake_matches s g (l - 1))"
      by (rule min3_capped_step)
    with False show ?thesis by (simp add: of_nat_min)
  qed
qed auto

lemma meowstake_matches_negative_limit:
  "l < 0 \<Longrightarrow> meowstake_matches s g l = int (edit_dist s g)"
proof (induction s g arbitrary: l rule: edit_dist.induct)
  case (3 a s b g)
  then show ?case by (simp add: of_nat_min)
qed auto

subsection \<open>Correctness of the diff functions\<close>

text \<open>
  C1: \<open>meowstake_matches\<close> computes the Levenshtein distance whenever that distance is
  within the limit, and otherwise returns a value greater than the limit, so that
  \<open>autocorrect\<close>'s test \<open>d > limit\<close> rejects exactly the words too far away.
\<close>

theorem meowstake_matches_correct:
  assumes "0 \<le> l"
  shows "(int (edit_dist s g) \<le> l \<longrightarrow> meowstake_matches s g l = int (edit_dist s g))
       \<and> (l < int (edit_dist s g) \<longrightarrow> l < meowstake_matches s g l)"
  using meowstake_matches_le_edit_dist [of s g l] meowstake_matches_ge_capped [OF assms, of s g]
  by auto

theorem meowstake_matches_correct_witness:
  "meowstake_matches ''wrod'' ''word'' 2 = 2 \<and> 1 < meowstake_matches ''wrod'' ''word'' 1"
proof -
  have ed: "edit_dist ''wrod'' ''word'' = 2" by simp
  show ?thesis
    using meowstake_matches_correct [of 2 "''wrod''" "''word''"]
      meowstake_matches_correct [of 1 "''wrod''" "''word''"]
    by (simp only: ed) simp
qed

text \<open>
  C2: \<open>shifty_shifts\<close> counts the mismatched positions plus the length difference
  whenever that count is within the limit, and otherwise returns a value greater than
  the limit.
\<close>

theorem shifty_shifts_correct:
  assumes "0 \<le> l"
  shows "(int (subst_dist s g) \<le> l \<longrightarrow> shifty_shifts s g l = int (subst_dist s g))
       \<and> (l < int (subst_dist s g) \<longrightarrow> l < shifty_shifts s g l)"
  using shifty_shifts_le_subst_dist [of s g l] shifty_shifts_ge_capped [OF assms, of s g]
  by auto

theorem shifty_shifts_correct_witness:
  "shifty_shifts ''cats'' ''cuts'' 1 = 1 \<and> 1 < shifty_shifts ''cats'' ''dogs'' 1"
proof -
  have "subst_dist ''cats'' ''cuts'' = 1" "subst_dist ''cats'' ''dogs'' = 3" by simp_all
  then show ?thesis
    using shifty_shifts_correct [of 1 "''cats''" "''cuts''"]
      shifty_shifts_correct [of 1 "''cats''" "''dogs''"]
    by simp
qed

text \<open>
  C5: with the same inputs and limit, the substitution-only diff is never smaller than
  the edit-distance diff.
\<close>

theorem meowstake_matches_le_shifty_shifts:
  "meowstake_matches s g l \<le> shifty_shifts s g l"
proof (induction s g arbitrary: l rule: list_induct2')
  case (4 a s b g)
  have "meowstake_matches s g (l - 1) \<le> shifty_shifts s g (l - 1)" by (rule "4.IH")
  with "4.IH" [of l] show ?case by auto
qed auto

text \<open>
  C9: whatever the limit, \<open>meowstake_matches\<close> returns a value between 0 and the
  length of the longer string: the sentinel \<open>limit + 1\<close> never pushes it beyond.
\<close>

theorem meowstake_matches_bounds:
  "0 \<le> meowstake_matches s g l \<and> meowstake_matches s g l \<le> int (max (length s) (length g))"
proof
  show "0 \<le> meowstake_matches s g l"
  proof (cases "0 \<le> l")
    case True
    then show ?thesis using meowstake_matches_ge_capped [OF True, of s g] by linarith
  qed (simp add: meowstake_matches_negative_limit)
  have "edit_dist s g \<le> max (length s) (length g)"
    using edit_dist_le_subst_dist [of s g] subst_dist_le_max [of s g] by linarith
  then show "meowstake_matches s g l \<le> int (max (length s) (length g))"
    using meowstake_matches_le_edit_dist [of s g l] by linarith
qed

text \<open>
  C35: for a non-negative limit, \<open>meowstake_matches\<close> capped at \<open>limit + 1\<close> is the least
  number of insertions, deletions and substitutions that turn the start word into the
  goal, capped the same way.
\<close>

theorem meowstake_matches_edit_script:
  assumes "0 \<le> l"
  shows "min (meowstake_matches s g l) (l + 1)
         = min (int (LEAST c. \<exists>es. apply_edits es s = Some g \<and> edit_cost es = c)) (l + 1)"
  using meowstake_matches_le_edit_dist [of s g l] meowstake_matches_ge_capped [OF assms, of s g]
  unfolding edit_dist_least [symmetric] by auto

theorem meowstake_matches_edit_script_witness:
  "apply_edits [Keep, Sub CHR ''o'', Sub CHR ''r'', Keep] ''wrod'' = Some ''word''
   \<and> min (meowstake_matches ''wrod'' ''word'' 2) 3
       = min (int (LEAST c. \<exists>es. apply_edits es ''wrod'' = Some ''word'' \<and> edit_cost es = c)) 3"
  using meowstake_matches_edit_script [of 2 "''wrod''" "''word''"] by simp

subsection \<open>Negative limits and symmetry\<close>

lemma shifty_shifts_sym: "shifty_shifts s g l = shifty_shifts g s l"
  by (induction s g arbitrary: l rule: list_induct2') auto

lemma meowstake_matches_sym: "meowstake_matches s g l = meowstake_matches g s l"
proof (induction s g arbitrary: l rule: edit_dist.induct)
  case (3 a s b g)
  then show ?case by (simp add: min.commute min.left_commute)
qed auto

text \<open>
  C11: a negative limit is never exhausted, since the test \<open>limit == 0\<close> only stops a
  count that reaches 0 and the recursion only lowers the limit: with a negative limit
  neither diff prunes, and both return their exact, unbounded distances (the
  Levenshtein distance and the substitution count plus length difference).
\<close>

theorem diff_negative_limit_exact:
  assumes "l < 0"
  shows "meowstake_matches s g l = int (edit_dist s g) \<and> shifty_shifts s g l = int (subst_dist s g)"
  using meowstake_matches_negative_limit [OF assms] shifty_shifts_negative_limit [OF assms] by simp

theorem diff_negative_limit_exact_witness:
  "meowstake_matches ''kitten'' ''sitting'' (-1) = 3 \<and> shifty_shifts ''kitten'' ''sitting'' (-1) = 3"
proof -
  have "edit_dist ''kitten'' ''sitting'' = 3" "subst_dist ''kitten'' ''sitting'' = 3"
    by (simp_all add: subst_dist_def)
  with diff_negative_limit_exact [of "-1" "''kitten''" "''sitting''"] show ?thesis by simp
qed

text \<open>
  C14: both diff functions are symmetric for every limit: the difference from the
  typed word to a vocabulary word is the difference back, since the insertion and
  deletion branches of \<open>meowstake_matches\<close> swap roles when the arguments do.
\<close>

theorem diff_symmetric:
  "meowstake_matches s g l = meowstake_matches g s l \<and> shifty_shifts s g l = shifty_shifts g s l"
  using meowstake_matches_sym shifty_shifts_sym by blast

end
