(* ===== verification/DiffMemo.thy ===== *)
theory DiffMemo
  imports Diff
begin

text \<open>
  The spec's production design for the edit diff (section 6): the state of the recursion
  is a pair of offsets into the original strings and the remaining budget,
  \<open>(start_offset, goal_offset, remaining_budget)\<close>, instead of fresh suffix strings, and
  a memo table keyed on that triple. \<open>meow_ix\<close> is \<open>meowstake_matches\<close> on offsets
  (\<open>start[0]\<close> of the suffix is \<open>s ! i\<close>); \<open>meow_memo\<close> threads the table through the
  calls (explicit state passing: a lookup, and on a miss \<open>meow_step\<close> computes the
  entry from the memoised sub-results and the entry is stored). The theory shows that
  this design computes exactly what \<open>meowstake_matches\<close> computes, with any table
  whose entries are correct, so one table can serve many calls.
\<close>

subsection \<open>The offset recursion and its memoised form\<close>

type_synonym meow_key = "nat \<times> nat \<times> int"
type_synonym meow_table = "meow_key \<rightharpoonup> int"

function meow_ix :: "string \<Rightarrow> string \<Rightarrow> meow_key \<Rightarrow> int" where
  "meow_ix s g (i, j, l) =
     (if drop i s = drop j g then 0
      else if l = 0 then l + 1
      else if length s \<le> i \<or> length g \<le> j then \<bar>int (length s - i) - int (length g - j)\<bar>
      else if s ! i = g ! j then 0 + meow_ix s g (i + 1, j + 1, l)
      else 1 + min (min (meow_ix s g (i, j + 1, l - 1)) (meow_ix s g (i + 1, j, l - 1)))
                   (meow_ix s g (i + 1, j + 1, l - 1)))"
  by pat_completeness auto
termination
  by (relation "measure (\<lambda>(s, g, i, j, l). (length s - i) + (length g - j))") auto

function meow_memo :: "string \<Rightarrow> string \<Rightarrow> meow_key \<Rightarrow> meow_table \<Rightarrow> int \<times> meow_table"
  and meow_step :: "string \<Rightarrow> string \<Rightarrow> meow_key \<Rightarrow> meow_table \<Rightarrow> int \<times> meow_table" where
  "meow_memo s g k c =
     (case c k of
        Some v \<Rightarrow> (v, c)
      | None \<Rightarrow> (let r = meow_step s g k c in (fst r, (snd r)(k \<mapsto> fst r))))"
| "meow_step s g (i, j, l) c =
     (if drop i s = drop j g then (0, c)
      else if l = 0 then (l + 1, c)
      else if length s \<le> i \<or> length g \<le> j then (\<bar>int (length s - i) - int (length g - j)\<bar>, c)
      else if s ! i = g ! j then (0 + fst (meow_memo s g (i + 1, j + 1, l) c), snd (meow_memo s g (i + 1, j + 1, l) c))
      else
        (let a = meow_memo s g (i, j + 1, l - 1) c;
             b = meow_memo s g (i + 1, j, l - 1) (snd a);
             d = meow_memo s g (i + 1, j + 1, l - 1) (snd b)
         in (1 + min (min (fst a) (fst b)) (fst d), snd d)))"
  by pat_completeness auto
termination
  by (relation "measure (\<lambda>x. case x of
        Inl (s, g, k, c) \<Rightarrow> 2 * ((length s - fst k) + (length g - fst (snd k))) + 1
      | Inr (s, g, k, c) \<Rightarrow> 2 * ((length s - fst k) + (length g - fst (snd k))))") auto

definition meow_table_ok :: "string \<Rightarrow> string \<Rightarrow> meow_table \<Rightarrow> bool" where
  "meow_table_ok s g c \<longleftrightarrow> (\<forall>k v. c k = Some v \<longrightarrow> v = meow_ix s g k)"

declare meow_ix.simps [simp del] meow_step.simps [simp del]

subsection \<open>Equivalence with the code\<close>

lemma meow_ix_meowstake_matches:
  "meow_ix s g (i, j, l) = meowstake_matches (drop i s) (drop j g) l"
proof (induction s g "(i, j, l)" arbitrary: i j l rule: meow_ix.induct)
  case (1 s g i j l)
  show ?case
  proof (cases "drop i s = drop j g \<or> l = 0 \<or> length s \<le> i \<or> length g \<le> j")
    case True
    then show ?thesis by (subst meow_ix.simps, subst meowstake_matches.simps) auto
  next
    case False
    then have ds: "drop i s = s ! i # drop (Suc i) s" and dg: "drop j g = g ! j # drop (Suc j) g"
      by (simp_all add: Cons_nth_drop_Suc)
    show ?thesis
      using False 1
      by (subst meow_ix.simps, subst meowstake_matches.simps [of "drop i s"]) (simp add: ds dg)
  qed
qed

lemma meow_table_ok_upd:
  "meow_table_ok s g c \<Longrightarrow> meow_table_ok s g (c(k \<mapsto> meow_ix s g k))"
  by (simp add: meow_table_ok_def)

lemma meow_memo_correct:
  "meow_table_ok s g c \<Longrightarrow>
   fst (meow_memo s g k c) = meow_ix s g k \<and> meow_table_ok s g (snd (meow_memo s g k c))"
  and meow_step_correct:
  "meow_table_ok s g c \<Longrightarrow>
   fst (meow_step s g k c) = meow_ix s g k \<and> meow_table_ok s g (snd (meow_step s g k c))"
proof (induction s g k c and s g k c rule: meow_memo_meow_step.induct)
  case (1 s g k c)
  show ?case
  proof (cases "c k")
    case (Some v)
    with "1.prems" have "v = meow_ix s g k" unfolding meow_table_ok_def by blast
    with Some "1.prems" show ?thesis by simp
  next
    case None
    with "1.IH" [OF None "1.prems"] show ?thesis by (auto simp: meow_table_ok_def Let_def)
  qed
next
  case (2 s g i j l c)
  show ?case
  proof (cases "drop i s = drop j g \<or> l = 0 \<or> length s \<le> i \<or> length g \<le> j")
    case True
    with "2.prems" show ?thesis by (auto simp: meow_ix.simps [of s g i j l] meow_step.simps [of s g i j l c])
  next
    case nb: False
    show ?thesis
    proof (cases "s ! i = g ! j")
      case True
      with nb "2.IH"(1) [OF _ _ _ True "2.prems"] show ?thesis
        by (simp add: meow_ix.simps [of s g i j l] meow_step.simps [of s g i j l c])
    next
      case False
      let ?a = "meow_memo s g (i, j + 1, l - 1) c"
      let ?b = "meow_memo s g (i + 1, j, l - 1) (snd ?a)"
      let ?d = "meow_memo s g (i + 1, j + 1, l - 1) (snd ?b)"
      have a: "fst ?a = meow_ix s g (i, j + 1, l - 1) \<and> meow_table_ok s g (snd ?a)"
        using "2.IH"(3) [OF _ _ _ False] nb "2.prems" by auto
      have b: "fst ?b = meow_ix s g (i + 1, j, l - 1) \<and> meow_table_ok s g (snd ?b)"
        using "2.IH"(4) [OF _ _ _ False refl] nb a by auto
      have d: "fst ?d = meow_ix s g (i + 1, j + 1, l - 1) \<and> meow_table_ok s g (snd ?d)"
        using "2.IH"(5) [OF _ _ _ False refl refl] nb b by auto
      from nb False a b d show ?thesis by (simp add: meow_ix.simps [of s g i j l] meow_step.simps [of s g i j l c] Let_def)
    qed
  qed
qed

text \<open>
  C18: the spec's memoised design on offsets and budget is equivalent to the code: from
  any table whose entries are correct, the memoised evaluation at \<open>(i, j, l)\<close> returns
  \<open>meowstake_matches\<close> of the two suffixes with limit \<open>l\<close>, and leaves every entry of the
  table correct.
\<close>

theorem meow_memo_meowstake_matches:
  assumes "meow_table_ok s g c"
  shows "fst (meow_memo s g (i, j, l) c) = meowstake_matches (drop i s) (drop j g) l
         \<and> meow_table_ok s g (snd (meow_memo s g (i, j, l) c))"
  using meow_memo_correct [OF assms, of "(i, j, l)"] by (simp add: meow_ix_meowstake_matches)

theorem meow_memo_meowstake_matches_witness:
  "meow_table_ok ''wrod'' ''word'' Map.empty
   \<and> fst (meow_memo ''wrod'' ''word'' (0, 0, 2) Map.empty) = 2"
proof -
  have ok: "meow_table_ok ''wrod'' ''word'' Map.empty" by (simp add: meow_table_ok_def)
  from meow_memo_meowstake_matches [OF ok, of 0 0 2] ok show ?thesis by simp
qed

end
