(* ===== verification/Autocorrect.thy ===== *)
theory Autocorrect
  imports Diff
begin

text \<open>
  \<open>autocorrect\<close>, \<open>memo\<close> and \<open>faster_autocorrect\<close> of \<open>cats.py\<close>. The diff function
  is a parameter of type \<open>string \<Rightarrow> string \<Rightarrow> int \<Rightarrow> int\<close>, as in the code, so
  every lemma holds for \<open>shifty_shifts\<close>, \<open>meowstake_matches\<close> and any other policy.
  The two calls of Python's \<open>min\<close> and \<open>list.index\<close> are the Prelude's \<open>py_min\<close> and
  \<open>py_index\<close>, so the \<open>ValueError\<close> that \<open>min([])\<close> raises is part of the model.
  \<open>memo\<close> keeps a dictionary from argument tuples to results; it is the state of a
  state monad (\<open>HOL-Library.State_Monad\<close>), and an exception raised by the wrapped
  function propagates without touching the cache.
\<close>

subsection \<open>The code\<close>

definition autocorrect ::
  "string \<Rightarrow> string list \<Rightarrow> (string \<Rightarrow> string \<Rightarrow> int \<Rightarrow> int) \<Rightarrow> int \<Rightarrow> string py_result" where
  "autocorrect user_word valid_words diff_function limit =
     (if user_word \<in> set valid_words then Inr user_word
      else
        (let diffs = map (\<lambda>x. diff_function user_word x limit) valid_words in
         case py_min diffs of
           Inl e \<Rightarrow> Inl e
         | Inr m \<Rightarrow>
             if m > limit then Inr user_word
             else
               (case py_index diffs m of
                  Inl e \<Rightarrow> Inl e
                | Inr closest_index \<Rightarrow> Inr (valid_words ! closest_index))))"

type_synonym ('a, 'b) cache = "'a \<rightharpoonup> 'b"

text \<open>
  One call of the closure returned by \<open>memo(f)\<close>: on a miss, \<open>f\<close> is called and its
  result stored; then the stored result is returned (\<open>cache[args]\<close>, a lookup that would
  raise \<open>KeyError\<close> if the key were missing).
\<close>

definition memoized :: "('a \<Rightarrow> 'b py_result) \<Rightarrow> 'a \<Rightarrow> (('a, 'b) cache, 'b py_result) state" where
  "memoized f args = do {
     cache \<leftarrow> State_Monad.get;
     if args \<notin> dom cache then
       (case f args of
          Inl e \<Rightarrow> State_Monad.return (Inl e)
        | Inr v \<Rightarrow> do {
            State_Monad.set (cache(args \<mapsto> v));
            cache' \<leftarrow> State_Monad.get;
            State_Monad.return (case cache' args of None \<Rightarrow> Inl KeyError | Some r \<Rightarrow> Inr r)
          })
     else State_Monad.return (case cache args of None \<Rightarrow> Inl KeyError | Some r \<Rightarrow> Inr r)
   }"

text \<open>\<open>memo(f)\<close> starts with an empty dictionary; a session is a sequence of calls.\<close>

definition memo_session :: "('a \<Rightarrow> 'b py_result) \<Rightarrow> 'a list \<Rightarrow> 'b py_result list \<times> ('a, 'b) cache" where
  "memo_session f calls = run_state (traverse_list (memoized f) calls) Map.empty"

text \<open>\<open>faster_autocorrect\<close> has an empty body (a docstring only): it returns \<open>None\<close>.\<close>

definition faster_autocorrect ::
  "string \<Rightarrow> string list \<Rightarrow> (string \<Rightarrow> string \<Rightarrow> int \<Rightarrow> int) \<Rightarrow> int \<Rightarrow> string option" where
  "faster_autocorrect user_word valid_words diff_function limit = None"

definition cache_consistent :: "('a \<Rightarrow> 'b py_result) \<Rightarrow> ('a, 'b) cache \<Rightarrow> bool" where
  "cache_consistent f cache \<longleftrightarrow> (\<forall>k v. cache k = Some v \<longrightarrow> f k = Inr v)"

text \<open>What a cache holds for a key after a successful call: \<open>f\<close>'s value, none after an exception.\<close>

definition stored :: "('a \<Rightarrow> 'b py_result) \<Rightarrow> 'a \<Rightarrow> 'b option" where
  "stored f k = (case f k of Inl _ \<Rightarrow> None | Inr v \<Rightarrow> Some v)"

subsection \<open>Unfolding \<open>autocorrect\<close>\<close>

lemma autocorrect_unfold:
  "user_word \<notin> set vw \<Longrightarrow> py_min (map (\<lambda>x. d user_word x l) vw) = Inr m \<Longrightarrow>
   autocorrect user_word vw d l =
     (if l < m then Inr user_word
      else case py_index (map (\<lambda>x. d user_word x l) vw) m of
             Inl e \<Rightarrow> Inl e | Inr i \<Rightarrow> Inr (vw ! i))"
  by (simp add: autocorrect_def)

lemma py_min_nonempty: "xs \<noteq> [] \<Longrightarrow> \<exists>m. py_min xs = Inr m"
  by (cases xs) auto

lemma autocorrect_cong:
  "(\<And>v. v \<in> set vw \<Longrightarrow> d w v l = d' w v l) \<Longrightarrow> autocorrect w vw d l = autocorrect w vw d' l"
  by (simp add: autocorrect_def cong: map_cong)

lemma autocorrect_capped:
  "autocorrect w vw d l = autocorrect w vw (\<lambda>s g l. min (d s g l) (l + 1)) l"
proof (cases "w \<in> set vw \<or> vw = []")
  case True
  then show ?thesis by (auto simp: autocorrect_def)
next
  case False
  let ?ds = "map (\<lambda>x. d w x l) vw" and ?cap = "\<lambda>x::int. min x (l + 1)"
  let ?ds' = "map (\<lambda>x. min (d w x l) (l + 1)) vw"
  have nw: "w \<notin> set vw" using False by simp
  obtain m where hm: "py_min ?ds = Inr m" using False py_min_nonempty [of ?ds] by auto
  have mono: "mono ?cap" by (rule monoI) (simp add: min.mono)
  have caps: "?ds' = map ?cap ?ds" by simp
  have hm': "py_min ?ds' = Inr (?cap m)"
    by (simp only: caps py_min_map_mono [OF mono] hm) simp
  note A = autocorrect_unfold [of w vw d l, OF nw hm]
  note B = autocorrect_unfold [of w vw "\<lambda>s g l. min (d s g l) (l + 1)" l, OF nw hm']
  show ?thesis
  proof (cases "l < m")
    case True
    then show ?thesis using A B by simp
  next
    case le: False
    have "\<forall>x\<in>set ?ds. ?cap x = ?cap m \<longleftrightarrow> x = m"
      using le by (auto simp: min_def)
    then have "py_index ?ds' (?cap m) = py_index ?ds m"
      by (simp only: caps) (rule py_index_map)
    moreover have "?cap m = m" using le by simp
    ultimately show ?thesis using A B le by simp
  qed
qed

lemma autocorrect_capped_eq:
  assumes "\<And>v. v \<in> set vw \<Longrightarrow> min (d w v l) (l + 1) = min (d' w v l) (l + 1)"
  shows "autocorrect w vw d l = autocorrect w vw d' l"
proof -
  have "autocorrect w vw d l = autocorrect w vw (\<lambda>s g l. min (d s g l) (l + 1)) l"
    by (rule autocorrect_capped)
  also have "\<dots> = autocorrect w vw (\<lambda>s g l. min (d' s g l) (l + 1)) l"
    using assms by (rule autocorrect_cong)
  also have "\<dots> = autocorrect w vw d' l"
    by (rule autocorrect_capped [symmetric])
  finally show ?thesis .
qed

text \<open>With a diff that ignores the limit, a vocabulary word chosen at one limit is
  chosen at every larger limit: the differences and their first minimum do not move.\<close>

lemma autocorrect_exact_mono:
  assumes "autocorrect w vw (\<lambda>s g _. D s g) l = Inr r" and "r \<in> set vw" and "l \<le> l'"
  shows "autocorrect w vw (\<lambda>s g _. D s g) l' = Inr r"
proof (cases "w \<in> set vw")
  case True
  with assms(1) show ?thesis by (simp add: autocorrect_def)
next
  case False
  let ?ds = "map (\<lambda>x. D w x) vw"
  have "vw \<noteq> []" using assms(2) by auto
  then obtain m where hm: "py_min ?ds = Inr m" using py_min_nonempty [of ?ds] by auto
  have A: "autocorrect w vw (\<lambda>s g _. D s g) k =
      (if k < m then Inr w else case py_index ?ds m of Inl e \<Rightarrow> Inl e | Inr i \<Rightarrow> Inr (vw ! i))" for k
    using autocorrect_unfold [of w vw "\<lambda>s g _. D s g" k m] False hm by simp
  have "\<not> l < m" using assms(1,2) False A [of l] by auto
  with assms(3) have "\<not> l' < m" by simp
  with assms(1) \<open>\<not> l < m\<close> show ?thesis using A [of l] A [of l'] by simp
qed

subsection \<open>Correctness of \<open>autocorrect\<close>\<close>

text \<open>
  C3: for a word not in a non-empty vocabulary, \<open>autocorrect\<close> returns a word: the
  word itself when every vocabulary entry is further than the limit, and otherwise the
  first vocabulary entry (in list order) among those at minimal difference, which is
  within the limit.
\<close>

theorem autocorrect_correct:
  assumes "user_word \<notin> set vw" "vw \<noteq> []"
  shows "\<exists>r. autocorrect user_word vw d l = Inr r
    \<and> ((\<forall>v\<in>set vw. l < d user_word v l) \<longrightarrow> r = user_word)
    \<and> ((\<exists>v\<in>set vw. d user_word v l \<le> l) \<longrightarrow>
         (\<exists>i<length vw. r = vw ! i \<and> d user_word r l \<le> l
            \<and> (\<forall>v\<in>set vw. d user_word r l \<le> d user_word v l)
            \<and> (\<forall>j<i. d user_word r l < d user_word (vw ! j) l)))"
proof -
  let ?ds = "map (\<lambda>x. d user_word x l) vw"
  obtain m where hm: "py_min ?ds = Inr m" using assms(2) py_min_nonempty [of ?ds] by auto
  have m_in: "m \<in> set ?ds" and m_min: "\<forall>v\<in>set vw. m \<le> d user_word v l"
    using py_min_Inr [OF hm] by auto
  note A = autocorrect_unfold [of user_word vw d l, OF assms(1) hm]
  show ?thesis
  proof (cases "l < m")
    case True
    with m_min have "\<forall>v\<in>set vw. l < d user_word v l" by fastforce
    with True A show ?thesis by auto
  next
    case False
    from py_index_found [OF m_in] obtain i where
      i: "py_index ?ds m = Inr i" "i < length vw" "d user_word (vw ! i) l = m"
         "\<forall>j<i. ?ds ! j \<noteq> m"
      by auto
    have first: "\<forall>j<i. m < d user_word (vw ! j) l"
    proof (intro allI impI)
      fix j assume "j < i"
      with i have "d user_word (vw ! j) l \<noteq> m" "j < length vw" by auto
      moreover have "m \<le> d user_word (vw ! j) l" using \<open>j < length vw\<close> m_min by simp
      ultimately show "m < d user_word (vw ! j) l" by simp
    qed
    show ?thesis
      using A False i first m_min by (auto intro!: exI [of _ i])
  qed
qed

theorem autocorrect_correct_witness:
  "\<exists>r. autocorrect ''wrod'' [''word'', ''world''] meowstake_matches 2 = Inr r"
  using autocorrect_correct [of "''wrod''" "[''word'', ''world'']" meowstake_matches 2] by auto



text \<open>
  With an empty vocabulary the code does not return the word unchanged: \<open>min\<close> of
  the empty list of differences raises \<open>ValueError\<close>.
\<close>

lemma autocorrect_empty_vocabulary: "autocorrect user_word [] d limit = Inl ValueError"
  by (simp add: autocorrect_def)

subsection \<open>Memoisation\<close>

lemma memoized_run:
  assumes "cache_consistent f c"
  shows "run_state (memoized f a) c = (f a, if a \<in> dom c then c else c(a := stored f a))"
proof (cases "a \<in> dom c")
  case True
  then obtain v where "c a = Some v" by auto
  with assms have "f a = Inr v" by (simp add: cache_consistent_def)
  with True \<open>c a = Some v\<close> show ?thesis by (simp add: memoized_def)
next
  case False
  then show ?thesis
    by (cases "f a") (auto simp: memoized_def stored_def fun_upd_idem)
qed

lemma cache_consistent_upd:
  "cache_consistent f c \<Longrightarrow> cache_consistent f (c(a := stored f a))"
  by (auto simp: cache_consistent_def stored_def split: sum.splits)

lemma memoized_consistent:
  "cache_consistent f c \<Longrightarrow> cache_consistent f (snd (run_state (memoized f a) c))"
  by (simp add: memoized_run cache_consistent_upd)

lemma traverse_memoized:
  assumes "cache_consistent f c"
  shows "run_state (traverse_list (memoized f) calls) c =
           (map f calls, \<lambda>k. if k \<in> set calls then stored f k else c k)"
  using assms
proof (induction calls arbitrary: c)
  case Nil
  then show ?case by simp
next
  case (Cons a calls)
  let ?c' = "if a \<in> dom c then c else c(a := stored f a)"
  have step: "run_state (memoized f a) c = (f a, ?c')" by (rule memoized_run [OF Cons.prems])
  have "cache_consistent f ?c'" using Cons.prems by (simp add: cache_consistent_upd)
  note IH = Cons.IH [OF this]
  have "(\<lambda>k. if k \<in> set calls then stored f k else ?c' k)
        = (\<lambda>k. if k \<in> set (a # calls) then stored f k else c k)"
  proof
    fix k
    show "(if k \<in> set calls then stored f k else ?c' k)
          = (if k \<in> set (a # calls) then stored f k else c k)"
      using Cons.prems by (auto simp: cache_consistent_def stored_def domIff)
  qed
  then show ?case using step IH by simp
qed

text \<open>
  C7: one call of a memoised function whose cache is consistent with the function
  (every stored entry is the function's value) returns exactly what the function
  returns, exceptions included, keeps the cache consistent and forgets no entry.
\<close>

theorem memoized_correct:
  assumes "cache_consistent f c" and "run_state (memoized f a) c = (r, c')"
  shows "r = f a \<and> cache_consistent f c' \<and> dom c \<subseteq> dom c'"
  using assms memoized_run [OF assms(1), of a] cache_consistent_upd [OF assms(1), of a]
  by (auto split: if_splits)

theorem memoized_correct_witness:
  "fst (run_state (memoized (\<lambda>(s, g, l). Inr (meowstake_matches s g l)) (''ab'', ''ac'', 2)) Map.empty)
   = Inr 1"
proof -
  let ?f = "\<lambda>(s, g, l). Inr (meowstake_matches s g l) :: int py_result"
  let ?run = "run_state (memoized ?f (''ab'', ''ac'', 2)) Map.empty"
  have "cache_consistent ?f Map.empty" by (simp add: cache_consistent_def)
  moreover have "?run = (fst ?run, snd ?run)" by simp
  ultimately have "fst ?run = ?f (''ab'', ''ac'', 2)"
    using memoized_correct [of ?f Map.empty "(''ab'', ''ac'', 2)" "fst ?run" "snd ?run"] by blast
  then show ?thesis by simp
qed

text \<open>
  C8: a session of calls to \<open>memo(f)\<close> returns, call by call, exactly what \<open>f\<close>
  returns, and afterwards the cache holds \<open>f\<close>'s value for exactly the argument tuples
  called without an exception.
\<close>

theorem memo_session_results:
  "memo_session f calls = (map f calls, \<lambda>k. if k \<in> set calls then stored f k else None)"
proof -
  have "cache_consistent f Map.empty" by (simp add: cache_consistent_def)
  then show ?thesis by (simp add: memo_session_def traverse_memoized)
qed

end
