(* ===== verification/MemoRace.thy ===== *)
theory MemoRace
  imports Autocorrect
begin

text \<open>
  Concurrent callers of one \<open>memo\<close> wrapper. The body of \<open>memoized\<close> (\<open>memo\<close> in
  \<open>src/cats.py\<close>) is three separate accesses to the shared \<open>cache\<close>: the test
  \<open>args not in cache\<close>, the store \<open>cache[args] = f(*args)\<close> (the call first, then the
  store) and the reload \<open>return cache[args]\<close>. Each caller is a thread whose program
  counter is a \<open>memo_pc\<close>; \<open>memo_thread_step\<close> executes one access, and the inductive
  relation \<open>memo_race\<close> lets any unfinished or finished thread take the next step, so
  its paths are all interleavings of the callers. \<open>run_schedule\<close> executes one given
  interleaving. The theory shows the spec's claim about an unguarded cache: every
  interleaving returns each caller \<open>f(args)\<close> and keeps the cache consistent, the only
  effect of a race being duplicate computation, and a caller that tests after its
  arguments are cached never calls \<open>f\<close>, so only callers that test before the first
  store of a value can compute it twice.
\<close>

subsection \<open>The model\<close>

text \<open>Program counter of one call: before the test, before the call of \<open>f\<close>, before
  the store of its value, before the reload, and returned.\<close>

datatype ('a, 'b) memo_pc =
  Check 'a | Compute 'a | Store 'a 'b | Load 'a | Finished 'a "'b py_result"

fun memo_thread_step ::
  "('a \<Rightarrow> 'b py_result) \<Rightarrow> ('a, 'b) cache \<Rightarrow> ('a, 'b) memo_pc \<Rightarrow> ('a, 'b) cache \<times> ('a, 'b) memo_pc" where
  "memo_thread_step f c (Check a) = (c, if a \<notin> dom c then Compute a else Load a)"
| "memo_thread_step f c (Compute a) =
     (case f a of Inl e \<Rightarrow> (c, Finished a (Inl e)) | Inr v \<Rightarrow> (c, Store a v))"
| "memo_thread_step f c (Store a v) = (c(a \<mapsto> v), Load a)"
| "memo_thread_step f c (Load a) =
     (c, Finished a (case c a of None \<Rightarrow> Inl KeyError | Some v \<Rightarrow> Inr v))"
| "memo_thread_step f c (Finished a r) = (c, Finished a r)"

inductive memo_race ::
  "('a \<Rightarrow> 'b py_result) \<Rightarrow> ('a, 'b) cache \<times> ('a, 'b) memo_pc list
   \<Rightarrow> ('a, 'b) cache \<times> ('a, 'b) memo_pc list \<Rightarrow> bool" for f where
  step: "i < length ts \<Longrightarrow> memo_thread_step f c (ts ! i) = (c', t)
         \<Longrightarrow> memo_race f (c, ts) (c', ts[i := t])"

fun pc_args :: "('a, 'b) memo_pc \<Rightarrow> 'a" where
  "pc_args (Check a) = a" | "pc_args (Compute a) = a" | "pc_args (Store a v) = a"
| "pc_args (Load a) = a" | "pc_args (Finished a r) = a"

fun pc_ok :: "('a \<Rightarrow> 'b py_result) \<Rightarrow> ('a, 'b) cache \<Rightarrow> ('a, 'b) memo_pc \<Rightarrow> bool" where
  "pc_ok f c (Check a) = True"
| "pc_ok f c (Compute a) = True"
| "pc_ok f c (Store a v) = (f a = Inr v)"
| "pc_ok f c (Load a) = (a \<in> dom c)"
| "pc_ok f c (Finished a r) = (r = f a)"

definition race_ok :: "('a \<Rightarrow> 'b py_result) \<Rightarrow> 'a list \<Rightarrow> ('a, 'b) cache \<times> ('a, 'b) memo_pc list \<Rightarrow> bool" where
  "race_ok f as st \<longleftrightarrow> cache_consistent f (fst st) \<and> map pc_args (snd st) = as
     \<and> list_all (pc_ok f (fst st)) (snd st)"

fun pc_rank :: "('a, 'b) memo_pc \<Rightarrow> nat" where
  "pc_rank (Check a) = 4" | "pc_rank (Compute a) = 3" | "pc_rank (Store a v) = 2"
| "pc_rank (Load a) = 1" | "pc_rank (Finished a r) = 0"

definition race_rank :: "('a, 'b) cache \<times> ('a, 'b) memo_pc list \<Rightarrow> nat" where
  "race_rank st = sum_list (map pc_rank (snd st))"

text \<open>A caller of \<open>a\<close> at the test, the reload or returned with a value, while \<open>a\<close> is cached.\<close>

definition cached_caller :: "'a \<Rightarrow> ('a, 'b) cache \<Rightarrow> ('a, 'b) memo_pc \<Rightarrow> bool" where
  "cached_caller a c t \<longleftrightarrow> a \<in> dom c \<and> (t = Check a \<or> t = Load a \<or> (\<exists>v. t = Finished a (Inr v)))"

text \<open>An explicit schedule: the list of the threads that take the next steps, in order.\<close>

fun run_schedule ::
  "('a \<Rightarrow> 'b py_result) \<Rightarrow> ('a, 'b) cache \<times> ('a, 'b) memo_pc list \<Rightarrow> nat list
   \<Rightarrow> ('a, 'b) cache \<times> ('a, 'b) memo_pc list" where
  "run_schedule f st [] = st"
| "run_schedule f (c, ts) (i # is) =
     (if i < length ts
      then (case memo_thread_step f c (ts ! i) of (c', t) \<Rightarrow> run_schedule f (c', ts[i := t]) is)
      else run_schedule f (c, ts) is)"

subsection \<open>Invariant\<close>

lemma pc_ok_mono: "pc_ok f c t \<Longrightarrow> dom c \<subseteq> dom c' \<Longrightarrow> pc_ok f c' t"
  by (cases t) auto

lemma memo_thread_step_ok:
  assumes "cache_consistent f c" and "pc_ok f c t" and "memo_thread_step f c t = (c', t')"
  shows "cache_consistent f c' \<and> dom c \<subseteq> dom c' \<and> pc_ok f c' t' \<and> pc_args t' = pc_args t"
  using assms
proof (cases t)
  case (Compute a)
  with assms show ?thesis by (auto split: sum.splits)
next
  case (Store a v)
  with assms show ?thesis by (auto simp: cache_consistent_def split: if_splits)
next
  case (Load a)
  with assms show ?thesis by (auto simp: cache_consistent_def)
qed auto

lemma memo_race_ok: "memo_race f st st' \<Longrightarrow> race_ok f as st \<Longrightarrow> race_ok f as st'"
proof (induction rule: memo_race.induct)
  case (step i ts c c' t)
  then have ok: "cache_consistent f c" "pc_ok f c (ts ! i)" by (auto simp: race_ok_def list_all_length)
  from memo_thread_step_ok [OF ok step(2)]
  have *: "cache_consistent f c'" "dom c \<subseteq> dom c'" "pc_ok f c' t" "pc_args t = pc_args (ts ! i)"
    by auto
  have "map pc_args (ts[i := t]) = map pc_args ts" using * step(1) by (simp add: map_update) (metis list_update_id nth_map)
  moreover have "list_all (pc_ok f c') (ts[i := t])"
    unfolding list_all_iff
  proof
    fix x assume "x \<in> set (ts[i := t])"
    then have "x = t \<or> x \<in> set ts" using set_update_subset_insert by fastforce
    then show "pc_ok f c' x"
      using step.prems *(3) pc_ok_mono [OF _ *(2)] by (auto simp: race_ok_def list_all_iff)
  qed
  ultimately show ?case using step.prems *(1) by (simp add: race_ok_def)
qed

lemma memo_race_star_ok: "(memo_race f)\<^sup>*\<^sup>* st st' \<Longrightarrow> race_ok f as st \<Longrightarrow> race_ok f as st'"
  by (induction rule: rtranclp_induct) (auto intro: memo_race_ok)

lemma memo_thread_step_rank:
  "memo_thread_step f c t = (c', t') \<Longrightarrow> pc_rank t' < pc_rank t \<or> (t' = t \<and> c' = c \<and> pc_rank t = 0)"
  by (cases t) (auto split: if_splits sum.splits)

lemma sum_list_map_update:
  fixes g :: "'x \<Rightarrow> nat"
  shows "i < length ts \<Longrightarrow> sum_list (map g (ts[i := t])) + g (ts ! i) = sum_list (map g ts) + g t"
proof (induction ts arbitrary: i)
  case (Cons x ts)
  show ?case
  proof (cases i)
    case (Suc j)
    with Cons.IH [of j] Cons.prems show ?thesis by (simp add: add.assoc)
  qed (simp add: add_ac)
qed simp

lemma memo_race_rank_decreases:
  assumes "memo_race f st st'" and "st' \<noteq> st"
  shows "race_rank st' < race_rank st"
  using assms
proof (induction rule: memo_race.induct)
  case (step i ts c c' t)
  from memo_thread_step_rank [OF step(2)] step(3) step(1)
  have "pc_rank t < pc_rank (ts ! i)" by auto
  with sum_list_map_update [OF step(1), of pc_rank t] show ?case by (simp add: race_rank_def)
qed

lemma memo_race_schedule: "(memo_race f)\<^sup>*\<^sup>* st (run_schedule f st is)"
proof (induction f st "is" rule: run_schedule.induct)
  case (2 f c ts i "is")
  show ?case
  proof (cases "i < length ts")
    case True
    obtain c' t where tstep: "memo_thread_step f c (ts ! i) = (c', t)"
      by (cases "memo_thread_step f c (ts ! i)")
    have "memo_race f (c, ts) (c', ts[i := t])" using True tstep by (rule memo_race.step)
    with "2.IH"(1) [OF True tstep [symmetric]] True tstep show ?thesis
      by (simp add: converse_rtranclp_into_rtranclp)
  next
    case False
    with "2.IH"(2) show ?thesis by simp
  qed
qed simp

lemma memo_thread_step_dom: "memo_thread_step f c t = (c', t') \<Longrightarrow> dom c \<subseteq> dom c'"
  by (cases t) (auto split: if_splits sum.splits)

lemma cached_caller_step:
  "cached_caller a c t \<Longrightarrow> memo_thread_step f c t = (c', t') \<Longrightarrow> cached_caller a c' t'"
  by (auto simp: cached_caller_def split: option.splits)

lemma memo_race_cached:
  "memo_race f st st' \<Longrightarrow> i < length (snd st) \<Longrightarrow> cached_caller a (fst st) (snd st ! i)
   \<Longrightarrow> i < length (snd st') \<and> cached_caller a (fst st') (snd st' ! i)"
proof (induction rule: memo_race.induct)
  case (step k ts c c' t)
  show ?case
  proof (cases "k = i")
    case True
    with step show ?thesis by (auto intro: cached_caller_step)
  next
    case False
    with step memo_thread_step_dom [OF step(2)] show ?thesis by (auto simp: cached_caller_def)
  qed
qed

lemma memo_race_star_cached:
  "(memo_race f)\<^sup>*\<^sup>* st st' \<Longrightarrow> i < length (snd st) \<Longrightarrow> cached_caller a (fst st) (snd st ! i)
   \<Longrightarrow> i < length (snd st') \<and> cached_caller a (fst st') (snd st' ! i)"
  by (induction rule: rtranclp_induct) (auto dest: memo_race_cached)

subsection \<open>Races on the cache\<close>

text \<open>
  C36: however the calls of concurrent callers interleave, starting from a consistent
  cache, the cache stays consistent and every caller that has returned got exactly
  \<open>f(args)\<close> for its own arguments: no \<open>KeyError\<close> and no value of another call.
\<close>

theorem memo_race_results:
  assumes "cache_consistent f c" and "(memo_race f)\<^sup>*\<^sup>* (c, map Check as) (c', ts)"
  shows "cache_consistent f c' \<and> length ts = length as
         \<and> (\<forall>i < length ts. \<forall>a r. ts ! i = Finished a r \<longrightarrow> a = as ! i \<and> r = f (as ! i))"
proof -
  have "race_ok f as (c, map Check as)" using assms(1) by (simp add: race_ok_def list_all_iff comp_def)
  from memo_race_star_ok [OF assms(2) this] have ok: "race_ok f as (c', ts)" .
  then have args: "map pc_args ts = as" and all: "list_all (pc_ok f c') ts" by (simp_all add: race_ok_def)
  have "ts ! i = Finished a r \<Longrightarrow> i < length ts \<Longrightarrow> a = as ! i \<and> r = f (as ! i)" for i a r
    using args all by (auto simp: list_all_length dest: arg_cong [where f = "\<lambda>xs. xs ! i"])
  then show ?thesis using ok args by (auto simp: race_ok_def dest: arg_cong [where f = length])
qed

theorem memo_race_results_witness:
  "run_schedule (\<lambda>n::nat. if n = 0 then Inl ValueError else Inr (2 * n)) (Map.empty, map Check [1, 1]) [0, 1, 0, 1, 0, 1, 0, 1]
     = ([1 \<mapsto> 2], [Finished 1 (Inr 2), Finished 1 (Inr 2)])
   \<and> cache_consistent (\<lambda>n::nat. if n = 0 then Inl ValueError else Inr (2 * n)) [1 \<mapsto> 2]"
proof -
  let ?f = "(\<lambda>n::nat. if n = 0 then Inl ValueError else Inr (2 * n))"
  have run: "run_schedule ?f (Map.empty, map Check [1, 1]) [0, 1, 0, 1, 0, 1, 0, 1]
     = ([1 \<mapsto> 2], [Finished 1 (Inr 2), Finished 1 (Inr 2)])" by simp
  have "cache_consistent ?f Map.empty" by (simp add: cache_consistent_def)
  from memo_race_results [OF this memo_race_schedule [of ?f "(Map.empty, map Check [1, 1])"
        "[0, 1, 0, 1, 0, 1, 0, 1]", unfolded run]]
  show ?thesis using run by simp
qed

text \<open>
  The race the spec names does happen: two callers with the same arguments can both
  pass the test \<open>args not in cache\<close> before either stores, so both call \<open>f\<close>.
\<close>

lemma memo_race_duplicate_compute:
  "(memo_race f)\<^sup>*\<^sup>* (Map.empty, [Check a, Check a]) (Map.empty, [Compute a, Compute a])"
proof -
  have "memo_race f (Map.empty, [Check a, Check a]) (Map.empty, [Compute a, Check a])"
    using memo_race.step [of 0 "[Check a, Check a]" f Map.empty Map.empty "Compute a"] by simp
  moreover have "memo_race f (Map.empty, [Compute a, Check a]) (Map.empty, [Compute a, Compute a])"
    using memo_race.step [of 1 "[Compute a, Check a]" f Map.empty Map.empty "Compute a"] by simp
  ultimately show ?thesis by auto
qed

text \<open>
  C37: the cache bounds the race: a caller whose test runs when its arguments are
  already cached never calls \<open>f\<close>, in every interleaving. It only ever waits at the
  test, reloads, and returns the cached value, so only callers that test before the
  first store of a value can compute it twice.
\<close>

theorem memo_race_cached_no_compute:
  assumes "(memo_race f)\<^sup>*\<^sup>* (c, ts) (c', ts')" and "i < length ts" and "ts ! i = Check a"
    and "a \<in> dom c"
  shows "ts' ! i = Check a \<or> ts' ! i = Load a \<or> (\<exists>v. ts' ! i = Finished a (Inr v))"
  using memo_race_star_cached [OF assms(1), of i a] assms(2-4) by (auto simp: cached_caller_def)

theorem memo_race_cached_no_compute_witness:
  "snd (run_schedule (\<lambda>n::nat. Inr (2 * n)) ([1 \<mapsto> 2], [Check 1, Check 3]) [1, 0, 1, 0, 1, 1])
     = [Finished 1 (Inr 2), Finished 3 (Inr 6)]
   \<and> (\<exists>v. [Finished 1 (Inr 2), Finished (3::nat) (Inr (6::nat))] ! 0 = Finished 1 (Inr v))"
proof -
  let ?f = "\<lambda>n::nat. Inr (2 * n) :: nat py_result"
  let ?st = "([1 \<mapsto> 2], [Check 1, Check 3]) :: (nat, nat) cache \<times> (nat, nat) memo_pc list"
  have run: "run_schedule ?f ?st [1, 0, 1, 0, 1, 1] = ([1 \<mapsto> 2, 3 \<mapsto> 6], [Finished 1 (Inr 2), Finished 3 (Inr 6)])"
    by simp
  from memo_race_cached_no_compute [OF memo_race_schedule [of ?f ?st "[1, 0, 1, 0, 1, 1]", unfolded run], of 0 1]
  show ?thesis using run by simp
qed

end
