(* ===== verification/Game.thy ===== *)
theory Game
  imports Prelude Complex_Main
begin

text \<open>
  The multiplayer game abstraction of \<open>cats.py\<close> (Phase 3): the constructor \<open>game\<close>
  with its assertions, the selectors \<open>word_at\<close>, \<open>all_words\<close>, \<open>all_times\<close>,
  \<open>time\<close>, and the two functions built on them, \<open>time_per_word\<close> (timestamps to
  per-word durations) and \<open>fastest_words\<close> (words grouped by the player who typed each
  fastest). The Python value \<open>[words, times]\<close> is a record; timestamps are \<open>real\<close>.
  The type assertions of \<open>game\<close> hold by typing, so only its length assertion is a
  branch of the model. Indices are Python ints, read with \<open>py_get\<close> where the code
  indexes without a bounds check, so negative indices behave as in Python.
\<close>

subsection \<open>The code\<close>

record game =
  g_words :: "string list"
  g_times :: "real list list"

definition game :: "string list \<Rightarrow> real list list \<Rightarrow> game py_result" where
  "game words tms =
     (if \<not> list_all (\<lambda>t. length t = length words) tms then Inl AssertionError
      else Inr \<lparr>g_words = words, g_times = tms\<rparr>)"

definition word_at :: "game \<Rightarrow> int \<Rightarrow> string py_result" where
  "word_at g word_index =
     (if \<not> (0 \<le> word_index \<and> word_index < int (length (g_words g))) then Inl AssertionError
      else Inr (g_words g ! nat word_index))"

definition all_words :: "game \<Rightarrow> string list" where
  "all_words g = g_words g"

definition all_times :: "game \<Rightarrow> real list list" where
  "all_times g = g_times g"

definition time :: "game \<Rightarrow> int \<Rightarrow> int \<Rightarrow> real py_result" where
  "time g player_num word_index =
     (if \<not> word_index < int (length (g_words g)) then Inl AssertionError
      else if \<not> player_num < int (length (g_times g)) then Inl AssertionError
      else (case py_get (g_times g) player_num of
              Inl e \<Rightarrow> Inl e
            | Inr t \<Rightarrow> py_get t word_index))"

text \<open>
  \<open>times_per_player[i][j] - times_per_player[i][j - 1]\<close> for \<open>j\<close> in
  \<open>range(1, len(times_per_player[0]))\<close>: the bound is taken from the first player.
\<close>

definition time_per_word :: "real list list \<Rightarrow> string list \<Rightarrow> game py_result" where
  "time_per_word times_per_player words =
     (case py_mapM
             (\<lambda>i. py_mapM
                    (\<lambda>j. case py_get (times_per_player ! i) (int j) of
                           Inl e \<Rightarrow> Inl e
                         | Inr a \<Rightarrow>
                             (case py_get (times_per_player ! i) (int j - 1) of
                                Inl e \<Rightarrow> Inl e
                              | Inr b \<Rightarrow> Inr (a - b)))
                    [1..<length (times_per_player ! 0)])
             [0..<length times_per_player] of
        Inl e \<Rightarrow> Inl e
      | Inr time_diffs_per_player \<Rightarrow> game words time_diffs_per_player)"

definition fastest_words :: "game \<Rightarrow> string list list py_result" where
  "fastest_words g =
     (let players_indexes = [0..<length (all_times g)];
          words_indexes = [0..<length (all_words g)];
          tms = all_times g
      in case py_mapM (\<lambda>w_i. py_mapM (\<lambda>p_i. py_get (tms ! p_i) (int w_i)) players_indexes)
                words_indexes of
           Inl e \<Rightarrow> Inl e
         | Inr words_to_players \<Rightarrow>
             (case py_mapM (\<lambda>ws. case py_min ws of Inl e \<Rightarrow> Inl e | Inr m \<Rightarrow> py_index ws m)
                     words_to_players of
                Inl e \<Rightarrow> Inl e
              | Inr fastest_players \<Rightarrow>
                  (let words = all_words g
                   in Inr (map (\<lambda>p_i. map (\<lambda>w_i. words ! w_i)
                                       (filter (\<lambda>w_i. fastest_players ! w_i = p_i) words_indexes))
                             players_indexes))))"

text \<open>
  \<open>fastest_words_report\<close> chains \<open>time_per_word\<close> and \<open>fastest_words\<close> (either may
  raise) and formats one line per player; \<open>'\n'\<close> is the character 0x0A.
\<close>

definition fastest_words_report :: "real list list \<Rightarrow> string list \<Rightarrow> string py_result" where
  "fastest_words_report times_per_player words =
     (case time_per_word times_per_player words of
        Inl e \<Rightarrow> Inl e
      | Inr g \<Rightarrow>
          (case fastest_words g of
             Inl e \<Rightarrow> Inl e
           | Inr fastest \<Rightarrow>
               Inr (foldl (\<lambda>report i.
                            report @ ''Player '' @ py_str_nat (i + 1) @ '' typed these fastest: ''
                            @ py_join '','' (fastest ! i) @ [CHR 0x0A])
                      [] [0..<length fastest])))"

subsection \<open>Specification\<close>

text \<open>The invariant the constructor asserts: one duration per word for every player.\<close>

definition game_ok :: "game \<Rightarrow> bool" where
  "game_ok g \<longleftrightarrow> list_all (\<lambda>t. length t = length (g_words g)) (g_times g)"

text \<open>Per-word durations of one timestamp trace: consecutive differences.\<close>

definition durations :: "real list \<Rightarrow> real list" where
  "durations ts = map (\<lambda>(b, a). b - a) (zip (tl ts) ts)"

text \<open>Player \<open>p\<close> typed word \<open>w\<close> fastest: no one was faster, every lower index slower.\<close>

definition is_fastest :: "game \<Rightarrow> nat \<Rightarrow> nat \<Rightarrow> bool" where
  "is_fastest g p w \<longleftrightarrow>
     p < length (g_times g)
     \<and> list_all (\<lambda>q. g_times g ! p ! w \<le> g_times g ! q ! w) [0..<length (g_times g)]
     \<and> list_all (\<lambda>q. g_times g ! p ! w < g_times g ! q ! w) [0..<p]"

subsection \<open>Lemmas\<close>

lemma durations_take:
  assumes "n \<le> length t"
  shows "map (\<lambda>j. t ! j - t ! (j - 1)) [1..<n] = durations (take n t)"
proof (rule nth_equalityI)
  show "length (map (\<lambda>j. t ! j - t ! (j - 1)) [1..<n]) = length (durations (take n t))"
    using assms by (simp add: durations_def)
next
  fix k assume "k < length (map (\<lambda>j. t ! j - t ! (j - 1)) [1..<n])"
  then have "Suc k < n" by simp
  then have "[1..<n] ! k = Suc k" by (subst nth_upt) auto
  with assms \<open>Suc k < n\<close> show "map (\<lambda>j. t ! j - t ! (j - 1)) [1..<n] ! k = durations (take n t) ! k"
    by (simp add: durations_def nth_tl)
qed

lemma time_per_word_row:
  assumes "n \<le> length t"
  shows "py_mapM (\<lambda>j. case py_get t (int j) of Inl e \<Rightarrow> Inl e
                   | Inr a \<Rightarrow> (case py_get t (int j - 1) of Inl e \<Rightarrow> Inl e | Inr b \<Rightarrow> Inr (a - b)))
           [1..<n] = Inr (durations (take n t))"
proof -
  have "py_mapM (\<lambda>j. case py_get t (int j) of Inl e \<Rightarrow> Inl e
                   | Inr a \<Rightarrow> (case py_get t (int j - 1) of Inl e \<Rightarrow> Inl e | Inr b \<Rightarrow> Inr (a - b)))
           [1..<n] = Inr (map (\<lambda>j. t ! j - t ! (j - 1)) [1..<n])"
  proof (rule py_mapM_Inr)
    fix j assume "j \<in> set [1..<n]"
    then have "1 \<le> j" "j < length t" using assms by auto
    then have "py_get t (int j) = Inr (t ! j)" "py_get t (int j - 1) = Inr (t ! (j - 1))"
      by (auto simp: py_get_def nat_diff_distrib)
    then show "(case py_get t (int j) of Inl e \<Rightarrow> Inl e
                   | Inr a \<Rightarrow> (case py_get t (int j - 1) of Inl e \<Rightarrow> Inl e | Inr b \<Rightarrow> Inr (a - b)))
                = Inr (t ! j - t ! (j - 1))"
      by simp
  qed
  with durations_take [OF assms] show ?thesis by simp
qed

lemma time_per_word_rows:
  assumes "tpp \<noteq> []" and "\<forall>t\<in>set tpp. length (hd tpp) \<le> length t"
  shows "time_per_word tpp words = game words (map (\<lambda>t. durations (take (length (hd tpp)) t)) tpp)"
proof -
  have hd0: "tpp ! 0 = hd tpp" using assms(1) by (simp add: hd_conv_nth)
  have "py_mapM (\<lambda>i. py_mapM (\<lambda>j. case py_get (tpp ! i) (int j) of Inl e \<Rightarrow> Inl e
             | Inr a \<Rightarrow> (case py_get (tpp ! i) (int j - 1) of Inl e \<Rightarrow> Inl e | Inr b \<Rightarrow> Inr (a - b)))
           [1..<length (tpp ! 0)]) [0..<length tpp]
        = Inr (map (\<lambda>i. durations (take (length (hd tpp)) (tpp ! i))) [0..<length tpp])"
  proof (rule py_mapM_Inr)
    fix i assume "i \<in> set [0..<length tpp]"
    then have "tpp ! i \<in> set tpp" by simp
    with assms(2) have "length (hd tpp) \<le> length (tpp ! i)" by blast
    then show "py_mapM (\<lambda>j. case py_get (tpp ! i) (int j) of Inl e \<Rightarrow> Inl e
             | Inr a \<Rightarrow> (case py_get (tpp ! i) (int j - 1) of Inl e \<Rightarrow> Inl e | Inr b \<Rightarrow> Inr (a - b)))
           [1..<length (tpp ! 0)] = Inr (durations (take (length (hd tpp)) (tpp ! i)))"
      unfolding hd0 by (rule time_per_word_row)
  qed
  moreover have "map (\<lambda>i. durations (take (length (hd tpp)) (tpp ! i))) [0..<length tpp]
        = map (\<lambda>t. durations (take (length (hd tpp)) t)) tpp"
    by (rule nth_equalityI) auto
  ultimately show ?thesis by (simp add: time_per_word_def)
qed

lemma is_fastest_unique:
  assumes p: "is_fastest g p w" and q: "is_fastest g q w"
  shows "p = q"
proof (rule linorder_cases [of p q])
  assume "p < q"
  with p q have "g_times g ! p ! w \<le> g_times g ! q ! w" "g_times g ! q ! w < g_times g ! p ! w"
    by (auto simp: is_fastest_def list_all_iff)
  then show ?thesis by simp
next
  assume "q < p"
  with p q have "g_times g ! q ! w \<le> g_times g ! p ! w" "g_times g ! p ! w < g_times g ! q ! w"
    by (auto simp: is_fastest_def list_all_iff)
  then show ?thesis by simp
qed

lemma column_index_fastest:
  fixes w :: nat
  assumes "g_times g \<noteq> []"
  defines "col \<equiv> map (\<lambda>p. g_times g ! p ! w) [0..<length (g_times g)]"
  shows "\<exists>i. (case py_min col of Inl e \<Rightarrow> Inl e | Inr m \<Rightarrow> py_index col m) = Inr i \<and> is_fastest g i w"
proof -
  have ne: "col \<noteq> []" using assms(1) by (simp add: col_def)
  then obtain m where hm: "py_min col = Inr m" by (cases col) auto
  from py_min_Inr [OF hm] have m_in: "m \<in> set col" and m_le: "\<forall>y\<in>set col. m \<le> y" by auto
  from py_index_found [OF m_in] obtain i where
    i: "py_index col m = Inr i" "i < length col" "col ! i = m" "\<forall>j<i. col ! j \<noteq> m" by blast
  have "is_fastest g i w"
    unfolding is_fastest_def list_all_iff
  proof (intro conjI ballI)
    show "i < length (g_times g)" using i(2) by (simp add: col_def)
  next
    fix q assume "q \<in> set [0..<length (g_times g)]"
    then have "q < length col" by (simp add: col_def)
    then have "col ! q \<in> set col" by simp
    with m_le have "m \<le> col ! q" by blast
    with i(2,3) \<open>q < length col\<close> show "g_times g ! i ! w \<le> g_times g ! q ! w"
      by (simp add: col_def)
  next
    fix q assume q: "q \<in> set [0..<i]"
    then have "q < length col" using i(2) by simp
    then have "col ! q \<in> set col" by simp
    with m_le have "m \<le> col ! q" by blast
    moreover have "col ! q \<noteq> m" using q i(4) by simp
    ultimately show "g_times g ! i ! w < g_times g ! q ! w"
      using i(2,3) \<open>q < length col\<close> by (simp add: col_def)
  qed
  with hm i(1) show ?thesis by auto
qed

lemma mset_filter_disjoint:
  "(\<And>x. x \<in> set xs \<Longrightarrow> \<not> (A x \<and> B x)) \<Longrightarrow>
   mset (filter A xs) + mset (filter B xs) = mset (filter (\<lambda>x. A x \<or> B x) xs)"
  by (induction xs) auto

lemma mset_concat_filters:
  assumes "\<And>x p q. x \<in> set xs \<Longrightarrow> P p x \<Longrightarrow> P q x \<Longrightarrow> p = q"
  shows "mset (concat (map (\<lambda>p. filter (P p) xs) [0..<n])) = mset (filter (\<lambda>x. \<exists>p<n. P p x) xs)"
proof (induction n)
  case (Suc n)
  have "mset (filter (\<lambda>x. \<exists>p<n. P p x) xs) + mset (filter (P n) xs)
        = mset (filter (\<lambda>x. (\<exists>p<n. P p x) \<or> P n x) xs)"
    using assms by (intro mset_filter_disjoint) blast
  moreover have "(\<lambda>x. (\<exists>p<n. P p x) \<or> P n x) = (\<lambda>x. \<exists>p<Suc n. P p x)"
    by (auto simp: less_Suc_eq)
  ultimately show ?case using Suc.IH by simp
qed simp

lemma mset_concat_partition:
  assumes "\<And>x p q. x \<in> set xs \<Longrightarrow> P p x \<Longrightarrow> P q x \<Longrightarrow> p = q"
    and "\<And>x. x \<in> set xs \<Longrightarrow> \<exists>p<n. P p x"
  shows "mset (concat (map (\<lambda>p. map h (filter (P p) xs)) [0..<n])) = mset (map h xs)"
proof -
  have "concat (map (\<lambda>p. map h (filter (P p) xs)) [0..<n])
        = map h (concat (map (\<lambda>p. filter (P p) xs) [0..<n]))"
    by (simp add: map_concat comp_def)
  moreover have "filter (\<lambda>x. \<exists>p<n. P p x) xs = xs" using assms(2) by simp
  ultimately show ?thesis using mset_concat_filters [of xs P n] assms(1) by simp
qed

subsection \<open>\<open>time_per_word\<close>\<close>

lemma time_per_word_durations:
  assumes "\<forall>t\<in>set tpp. length t = length words + 1"
  shows "time_per_word tpp words = Inr \<lparr>g_words = words, g_times = map durations tpp\<rparr>"
proof (cases "tpp = []")
  case True
  then show ?thesis by (simp add: time_per_word_def game_def)
next
  case False
  then have "hd tpp \<in> set tpp" by simp
  with assms have hd: "length (hd tpp) = length words + 1" by blast
  with assms have "\<forall>t\<in>set tpp. length (hd tpp) \<le> length t" by simp
  from time_per_word_rows [OF False this] hd
  have "time_per_word tpp words = game words (map (\<lambda>t. durations (take (length words + 1) t)) tpp)"
    by simp
  also have "map (\<lambda>t. durations (take (length words + 1) t)) tpp = map durations tpp"
    using assms by simp
  also have "game words (map durations tpp) = Inr \<lparr>g_words = words, g_times = map durations tpp\<rparr>"
    using assms by (simp add: game_def list_all_iff durations_def)
  finally show ?thesis .
qed

text \<open>
  C19: from well-formed traces (one start timestamp and one timestamp per word, for
  every player) \<open>time_per_word\<close> builds the game of per-word durations.
\<close>

theorem time_per_word_correct:
  assumes "\<forall>t\<in>set tpp. length t = length words + 1"
  shows "time_per_word tpp words = Inr \<lparr>g_words = words, g_times = map durations tpp\<rparr>"
  using assms by (rule time_per_word_durations)

theorem time_per_word_correct_witness:
  "time_per_word [[0, 1, 6], [0, 3, 5]] [''a'', ''b'']
     = Inr \<lparr>g_words = [''a'', ''b''], g_times = [[1, 5], [3, 2]]\<rparr>"
  using time_per_word_correct [of "[[0, 1, 6], [0, 3, 5]]" "[''a'', ''b'']"]
  by (simp add: durations_def)

text \<open>
  C20: the trace lengths are only checked against the first player's trace: a longer
  trace of another player is cut to that length without an error, so a malformed
  timing record still yields a game.
\<close>

theorem time_per_word_truncates_longer_traces:
  assumes "tpp \<noteq> []" and "length (hd tpp) = length words + 1"
    and "\<forall>t\<in>set tpp. length (hd tpp) \<le> length t"
  shows "time_per_word tpp words =
           Inr \<lparr>g_words = words, g_times = map (\<lambda>t. durations (take (length words + 1) t)) tpp\<rparr>"
proof -
  have "\<forall>t\<in>set tpp. length (durations (take (length words + 1) t)) = length words"
    using assms(2,3) by (auto simp: durations_def min_def)
  then show ?thesis
    using time_per_word_rows [OF assms(1,3), of words] assms(2)
    by (simp add: game_def list_all_iff)
qed

theorem time_per_word_truncates_longer_traces_witness:
  "time_per_word [[0, 1, 3], [0, 2, 3, 9]] [''a'', ''b'']
     = Inr \<lparr>g_words = [''a'', ''b''], g_times = [[1, 2], [2, 1]]\<rparr>"
  using time_per_word_truncates_longer_traces [of "[[0, 1, 3], [0, 2, 3, 9]]" "[''a'', ''b'']"]
  by (simp add: durations_def)

text \<open>
  C21: a trace shorter than the first player's (beyond the start timestamp) makes
  \<open>time_per_word\<close> raise \<open>IndexError\<close>.
\<close>

theorem time_per_word_short_trace:
  assumes "t \<in> set tpp" and "max 1 (length t) < length (hd tpp)"
  shows "time_per_word tpp words = Inl IndexError"
proof -
  from assms(1) obtain i where i: "i < length tpp" "tpp ! i = t" by (auto simp: in_set_conv_nth)
  have hd0: "tpp ! 0 = hd tpp" using assms(1) by (cases tpp) auto
  let ?row = "\<lambda>i. py_mapM (\<lambda>j. case py_get (tpp ! i) (int j) of Inl e \<Rightarrow> Inl e
             | Inr a \<Rightarrow> (case py_get (tpp ! i) (int j - 1) of Inl e \<Rightarrow> Inl e | Inr b \<Rightarrow> Inr (a - b)))
           [1..<length (tpp ! 0)]"
  have "?row i = Inl IndexError"
  proof (rule py_mapM_Inl)
    let ?j = "max 1 (length t)"
    have "?j \<in> set [1..<length (tpp ! 0)]" using assms(2) hd0 by simp
    moreover have "py_get t (int ?j) = Inl IndexError" by (simp add: py_get_nat)
    ultimately show "\<exists>j\<in>set [1..<length (tpp ! 0)]. isl (case py_get (tpp ! i) (int j) of Inl e \<Rightarrow> Inl e
             | Inr a \<Rightarrow> (case py_get (tpp ! i) (int j - 1) of Inl e \<Rightarrow> Inl e | Inr b \<Rightarrow> Inr (a - b)))"
      using i(2) by (intro bexI [where x = ?j]) auto
  next
    show "\<forall>j\<in>set [1..<length (tpp ! 0)]. \<forall>e. (case py_get (tpp ! i) (int j) of Inl e \<Rightarrow> Inl e
             | Inr a \<Rightarrow> (case py_get (tpp ! i) (int j - 1) of Inl e \<Rightarrow> Inl e | Inr b \<Rightarrow> Inr (a - b)))
             = Inl e \<longrightarrow> e = IndexError"
      by (auto dest: py_get_Inl split: sum.splits)
  qed
  moreover have "\<forall>k\<in>set [0..<length tpp]. \<forall>e. ?row k = Inl e \<longrightarrow> e = IndexError"
    by (auto dest!: py_mapM_InlD dest: py_get_Inl split: sum.splits)
  ultimately have "py_mapM ?row [0..<length tpp] = Inl IndexError"
    using i(1) by (intro py_mapM_Inl) force+
  then show ?thesis by (simp add: time_per_word_def)
qed

theorem time_per_word_short_trace_witness:
  "time_per_word [[0, 1, 3], [0, 2]] [''a'', ''b''] = Inl IndexError"
  using time_per_word_short_trace [of "[0, 2]" "[[0, 1, 3], [0, 2]]" "[''a'', ''b'']"] by simp

text \<open>
  C22: when no trace is shorter than the first player's, the first player's trace
  decides the number of durations: if it does not hold one timestamp more than there
  are words, every player gets the wrong number of durations and \<open>game\<close>'s assertion
  fails. With C20 and C21 this classifies every outcome of \<open>time_per_word\<close>.
\<close>

theorem time_per_word_word_count_mismatch:
  assumes "tpp \<noteq> []" and "hd tpp \<noteq> []" and "\<forall>t\<in>set tpp. length (hd tpp) \<le> length t"
    and "length (hd tpp) \<noteq> length words + 1"
  shows "time_per_word tpp words = Inl AssertionError"
proof -
  have "length (durations (hd tpp)) \<noteq> length words"
    using assms(2,4) by (cases "hd tpp") (simp_all add: durations_def)
  then have "\<not> list_all (\<lambda>t. length t = length words) (map (\<lambda>t. durations (take (length (hd tpp)) t)) tpp)"
    using assms(1) by (auto simp: list_all_iff intro!: bexI [of _ "hd tpp"])
  then show ?thesis using time_per_word_rows [OF assms(1,3), of words] by (simp add: game_def)
qed

theorem time_per_word_word_count_mismatch_witness:
  "time_per_word [[0, 1, 3], [0, 2, 3]] [''a''] = Inl AssertionError"
  using time_per_word_word_count_mismatch [of "[[0, 1, 3], [0, 2, 3]]" "[''a'']"] by simp

subsection \<open>\<open>fastest_words\<close>\<close>

lemma fastest_words_groups:
  assumes ok: "game_ok g" and ne: "g_times g \<noteq> []"
  shows "fastest_words g =
    Inr (map (\<lambda>p. map (\<lambda>w. g_words g ! w) (filter (is_fastest g p) [0..<length (g_words g)]))
           [0..<length (g_times g)])"
proof -
  let ?np = "length (g_times g)" and ?nw = "length (g_words g)"
  let ?col = "\<lambda>w. map (\<lambda>p. g_times g ! p ! w) [0..<?np]"
  let ?step = "\<lambda>ws. case py_min ws of Inl e \<Rightarrow> Inl e | Inr m \<Rightarrow> py_index ws m"
  have cols: "py_mapM (\<lambda>w_i. py_mapM (\<lambda>p_i. py_get (g_times g ! p_i) (int w_i)) [0..<?np]) [0..<?nw]
              = Inr (map ?col [0..<?nw])"
  proof (rule py_mapM_Inr)
    fix w assume "w \<in> set [0..<?nw]"
    then have "\<forall>p<?np. w < length (g_times g ! p)" using ok by (auto simp: game_ok_def list_all_iff)
    then show "py_mapM (\<lambda>p_i. py_get (g_times g ! p_i) (int w)) [0..<?np] = Inr (?col w)"
      by (intro py_mapM_Inr) (simp add: py_get_nat)
  qed
  define fp where "fp ws = (case ?step ws of Inl e \<Rightarrow> 0 | Inr i \<Rightarrow> i)" for ws :: "real list"
  have fp: "?step (?col w) = Inr (fp (?col w)) \<and> is_fastest g (fp (?col w)) w" for w
    using column_index_fastest [OF ne, of w] by (auto simp: fp_def)
  have steps: "py_mapM ?step (map ?col [0..<?nw]) = Inr (map fp (map ?col [0..<?nw]))"
    using fp by (intro py_mapM_Inr) auto
  have sel: "filter (\<lambda>w_i. map fp (map ?col [0..<?nw]) ! w_i = p) [0..<?nw]
             = filter (is_fastest g p) [0..<?nw]" for p
  proof (rule filter_cong [OF refl])
    fix w assume "w \<in> set [0..<?nw]"
    then have "map fp (map ?col [0..<?nw]) ! w = fp (?col w)" by simp
    with fp [of w] show "(map fp (map ?col [0..<?nw]) ! w = p) = is_fastest g p w"
      using is_fastest_unique by metis
  qed
  show ?thesis
    unfolding fastest_words_def all_times_def all_words_def Let_def
    by (simp only: cols steps sum.case sel)
qed

text \<open>
  C23: on a game satisfying the invariant, with at least one player, \<open>fastest_words\<close>
  returns one list per player holding, in the original order, the words that player
  typed fastest, ties going to the lowest player index.
\<close>

theorem fastest_words_correct:
  assumes ok: "game_ok g" and ne: "g_times g \<noteq> []"
  shows "fastest_words g =
    Inr (map (\<lambda>p. map (\<lambda>w. g_words g ! w) (filter (is_fastest g p) [0..<length (g_words g)]))
           [0..<length (g_times g)])"
  using assms by (rule fastest_words_groups)

theorem fastest_words_correct_witness:
  "fastest_words \<lparr>g_words = [''a'', ''b''], g_times = [[1, 5], [3, 2]]\<rparr> = Inr [[''a''], [''b'']]"
proof -
  have "game_ok \<lparr>g_words = [''a'', ''b''], g_times = [[1, 5], [3, 2]]\<rparr>"
    by (simp add: game_ok_def)
  from fastest_words_correct [OF this] show ?thesis
    by (simp add: is_fastest_def upt_conv_Cons)
qed

text \<open>
  C24: the groups returned by \<open>fastest_words\<close> partition the words: one group per
  player, and every word occurs in exactly one group (as a multiset, the concatenated
  groups are the word list).
\<close>

theorem fastest_words_partition:
  assumes "game_ok g" and "g_times g \<noteq> []" and "fastest_words g = Inr groups"
  shows "length groups = length (g_times g) \<and> mset (concat groups) = mset (g_words g)"
proof -
  let ?nw = "length (g_words g)" and ?np = "length (g_times g)"
  have groups: "groups = map (\<lambda>p. map (\<lambda>w. g_words g ! w) (filter (is_fastest g p) [0..<?nw])) [0..<?np]"
    using assms fastest_words_groups by simp
  have exists: "\<exists>p<?np. is_fastest g p w" for w
    using column_index_fastest [OF assms(2), of w] by (auto simp: is_fastest_def)
  have "mset (concat groups) = mset (map (\<lambda>w. g_words g ! w) [0..<?nw])"
    unfolding groups using is_fastest_unique exists by (intro mset_concat_partition) blast+
  also have "map (\<lambda>w. g_words g ! w) [0..<?nw] = g_words g" by (rule map_nth)
  finally show ?thesis using groups by simp
qed

theorem fastest_words_partition_witness:
  "length [[''a''], [''b'']] = 2 \<and> mset (concat [[''a''], [''b'']]) = mset [''a'', ''b'']"
proof -
  have ok: "game_ok \<lparr>g_words = [''a'', ''b''], g_times = [[1, 5], [3, 2]]\<rparr>"
    by (simp add: game_ok_def)
  have "fastest_words \<lparr>g_words = [''a'', ''b''], g_times = [[1, 5], [3, 2]]\<rparr> = Inr [[''a''], [''b'']]"
    by (simp add: fastest_words_def all_times_def all_words_def py_get_def)
  from fastest_words_partition [OF ok _ this] show ?thesis by simp
qed

text \<open>
  C25: with no players and at least one word, \<open>fastest_words\<close> takes \<open>min\<close> of an
  empty list of times and raises \<open>ValueError\<close>.
\<close>

theorem fastest_words_no_players:
  assumes "g_times g = []" and "g_words g \<noteq> []"
  shows "fastest_words g = Inl ValueError"
proof -
  have cols: "py_mapM (\<lambda>w_i. py_mapM (\<lambda>p_i. py_get (g_times g ! p_i) (int w_i)) [])
                [0..<length (g_words g)] = Inr (map (\<lambda>_. []) [0..<length (g_words g)])"
    by (rule py_mapM_Inr) simp
  have "[0..<length (g_words g)] = 0 # [1..<length (g_words g)]"
    using assms(2) by (simp add: upt_conv_Cons)
  with assms(1) cols show ?thesis
    by (simp add: fastest_words_def all_times_def all_words_def)
qed

theorem fastest_words_no_players_witness:
  "fastest_words \<lparr>g_words = [''a''], g_times = []\<rparr> = Inl ValueError"
  using fastest_words_no_players [of "\<lparr>g_words = [''a''], g_times = []\<rparr>"] by simp

subsection \<open>Selectors\<close>

text \<open>
  C34: on a well-formed game, \<open>time\<close> fails its assertion when an index is at or past
  its upper bound, raises \<open>IndexError\<close> when an index is below minus the length, and
  otherwise reads the entry at the Python-normalised indices (a negative index counts
  from the end).
\<close>

theorem time_correct:
  assumes "game_ok g"
  shows "time g p w =
    (if \<not> (w < int (length (g_words g)) \<and> p < int (length (g_times g))) then Inl AssertionError
     else if - int (length (g_times g)) \<le> p \<and> - int (length (g_words g)) \<le> w
     then Inr (g_times g ! nat (p mod int (length (g_times g))) ! nat (w mod int (length (g_words g))))
     else Inl IndexError)"
proof -
  have row: "length (g_times g ! nat (p mod int (length (g_times g)))) = length (g_words g)"
    if "p < int (length (g_times g))" "- int (length (g_times g)) \<le> p"
  proof -
    from that have "0 < int (length (g_times g))" by arith
    then have "nat (p mod int (length (g_times g))) < length (g_times g)"
      by (simp add: nat_less_iff)
    with assms show ?thesis by (simp add: game_ok_def list_all_iff)
  qed
  show ?thesis
  proof (cases "w < int (length (g_words g)) \<and> p < int (length (g_times g))")
    case False
    then show ?thesis by (auto simp: time_def)
  next
    case True
    show ?thesis
    proof (cases "- int (length (g_times g)) \<le> p")
      case False
      with True show ?thesis by (simp add: time_def py_get_out)
    next
      case p: True
      with True have t: "py_get (g_times g) p = Inr (g_times g ! nat (p mod int (length (g_times g))))"
        by (simp add: py_get_mod)
      from True p row show ?thesis
        by (cases "- int (length (g_words g)) \<le> w") (simp_all add: time_def t py_get_mod py_get_out)
    qed
  qed
qed

theorem time_correct_witness:
  "time \<lparr>g_words = [''a'', ''b''], g_times = [[1, 5], [3, 2]]\<rparr> (-1) (-2) = Inr 3
   \<and> time \<lparr>g_words = [''a'', ''b''], g_times = [[1, 5], [3, 2]]\<rparr> 0 (-3) = Inl IndexError
   \<and> time \<lparr>g_words = [''a'', ''b''], g_times = [[1, 5], [3, 2]]\<rparr> 2 0 = Inl AssertionError"
proof -
  have "game_ok \<lparr>g_words = [''a'', ''b''], g_times = [[1, 5], [3, 2]]\<rparr>"
    by (simp add: game_ok_def)
  from time_correct [OF this] show ?thesis by simp
qed

end
