(* ===== verification/GameString.thy ===== *)
theory GameString
  imports Game
begin

text \<open>
  \<open>game_string\<close> of \<open>cats.py\<close> prints a game as \<open>"game(%s, %s)" % (game[0], game[1])\<close>.
  Formatting a list with \<open>%s\<close> prints \<open>[\<close>, the \<open>repr\<close> of the elements separated by
  \<open>, \<close>, and \<open>]\<close>. The \<open>repr\<close> of a Python string is modelled exactly on the
  characters of HOL's \<open>char\<close> type (the code points 0 to 255): the quote is \<open>"\<close> when
  the string contains \<open>'\<close> and no \<open>"\<close>, and \<open>'\<close> otherwise; the quote and the
  backslash are escaped; tab, newline and carriage return become \<open>\t\<close>, \<open>\n\<close>,
  \<open>\r\<close>; the other control characters, DEL and the non-printable Latin-1 characters
  (\<open>0x80\<close> to \<open>0xa0\<close>, \<open>0xad\<close>) become \<open>\xhh\<close>. The \<open>repr\<close> of the times,
  Python floats or ints, depends on the floating-point format, which the model does not
  have: it is a parameter \<open>num_repr\<close>. \<open>unrepr\<close> and \<open>unrepr_list\<close> read such
  literals back (a remaining-returning decoder), and the theory proves that the words of
  every game can be read back from the printed string.
\<close>

subsection \<open>Python's \<open>repr\<close> of strings and lists\<close>

definition hex_digit :: "nat \<Rightarrow> char" where
  "hex_digit n = ''0123456789abcdef'' ! n"

definition py_repr_char :: "char \<Rightarrow> char \<Rightarrow> string" where
  "py_repr_char q c =
     (let n = (of_char c :: nat) in
      if c = q \<or> c = CHR 0x5C then [CHR 0x5C, c]
      else if n = 9 then [CHR 0x5C, CHR ''t'']
      else if n = 10 then [CHR 0x5C, CHR ''n'']
      else if n = 13 then [CHR 0x5C, CHR ''r'']
      else if n < 32 \<or> (127 \<le> n \<and> n \<le> 160) \<or> n = 173
      then [CHR 0x5C, CHR ''x'', hex_digit (n div 16), hex_digit (n mod 16)]
      else [c])"

definition py_repr_str :: "string \<Rightarrow> string" where
  "py_repr_str s =
     (let q = (if CHR 0x27 \<in> set s \<and> CHR 0x22 \<notin> set s then CHR 0x22 else CHR 0x27)
      in q # concat (map (py_repr_char q) s) @ [q])"

definition py_list_str :: "('a \<Rightarrow> string) \<Rightarrow> 'a list \<Rightarrow> string" where
  "py_list_str rep xs = ''['' @ py_join '', '' (map rep xs) @ '']''"

text \<open>A game, printed.\<close>

definition game_string :: "(real \<Rightarrow> string) \<Rightarrow> game \<Rightarrow> string" where
  "game_string num_repr g =
     ''game('' @ py_list_str py_repr_str (g_words g) @ '', ''
       @ py_list_str (py_list_str num_repr) (g_times g) @ '')''"

subsection \<open>Reading the literals back\<close>

definition hex_value :: "char \<Rightarrow> nat option" where
  "hex_value c = (let n = (of_char c :: nat) in
     if 48 \<le> n \<and> n \<le> 57 then Some (n - 48) else if 97 \<le> n \<and> n \<le> 102 then Some (n - 87) else None)"

fun unrepr_body :: "char \<Rightarrow> string \<Rightarrow> (string \<times> string) option" where
  "unrepr_body q [] = None"
| "unrepr_body q (c # cs) =
     (if c = q then Some ([], cs)
      else if c \<noteq> CHR 0x5C then map_option (\<lambda>(s, r). (c # s, r)) (unrepr_body q cs)
      else (case cs of
              [] \<Rightarrow> None
            | d # ds \<Rightarrow>
                if d = CHR ''t'' then map_option (\<lambda>(s, r). (CHR 0x09 # s, r)) (unrepr_body q ds)
                else if d = CHR ''n'' then map_option (\<lambda>(s, r). (CHR 0x0A # s, r)) (unrepr_body q ds)
                else if d = CHR ''r'' then map_option (\<lambda>(s, r). (CHR 0x0D # s, r)) (unrepr_body q ds)
                else if d = CHR ''x'' then
                  (case ds of
                     h1 # h2 # es \<Rightarrow>
                       (case (hex_value h1, hex_value h2) of
                          (Some a, Some b) \<Rightarrow> map_option (\<lambda>(s, r). (char_of (16 * a + b) # s, r)) (unrepr_body q es)
                        | _ \<Rightarrow> None)
                   | _ \<Rightarrow> None)
                else map_option (\<lambda>(s, r). (d # s, r)) (unrepr_body q ds)))"

definition unrepr :: "string \<Rightarrow> (string \<times> string) option" where
  "unrepr s = (case s of [] \<Rightarrow> None
     | q # cs \<Rightarrow> if q = CHR 0x27 \<or> q = CHR 0x22 then unrepr_body q cs else None)"

fun unrepr_items :: "nat \<Rightarrow> string \<Rightarrow> (string list \<times> string) option" where
  "unrepr_items 0 s = None"
| "unrepr_items (Suc n) s =
     (case unrepr s of
        None \<Rightarrow> None
      | Some (w, r) \<Rightarrow>
          if take 2 r = '', '' then map_option (\<lambda>(ws, r'). (w # ws, r')) (unrepr_items n (drop 2 r))
          else if take 1 r = '']'' then Some ([w], drop 1 r)
          else None)"

definition unrepr_list :: "string \<Rightarrow> (string list \<times> string) option" where
  "unrepr_list s =
     (if take 1 s \<noteq> ''['' then None
      else if take 1 (drop 1 s) = '']'' then Some ([], drop 2 s)
      else unrepr_items (length s) (drop 1 s))"

subsection \<open>Roundtrip\<close>

lemma hex_value_digit: "n < 16 \<Longrightarrow> hex_value (hex_digit n) = Some n"
proof -
  have "list_all (\<lambda>n. hex_value (hex_digit n) = Some n) [0..<16]"
    by (simp add: hex_value_def hex_digit_def upt_conv_Cons)
  moreover assume "n < 16"
  ultimately show ?thesis by (simp add: list_all_iff)
qed

lemma char_of_controls: "char_of (9::nat) = CHR 0x09" "char_of (10::nat) = CHR 0x0A" "char_of (13::nat) = CHR 0x0D"
  by code_simp+

lemma unrepr_body_repr_char:
  assumes q: "q = CHR 0x27 \<or> q = CHR 0x22"
  shows "unrepr_body q (py_repr_char q c @ r) = map_option (\<lambda>(s, r'). (c # s, r')) (unrepr_body q r)"
proof -
  define n where "n = (of_char c :: nat)"
  have c: "c = char_of n" by (simp add: n_def)
  have n256: "n < 256" by (simp add: n_def)
  have qbs: "q \<noteq> CHR 0x5C" using q by auto
  consider (esc) "c = q \<or> c = CHR 0x5C"
    | (tab) "\<not> (c = q \<or> c = CHR 0x5C)" "n = 9"
    | (nl) "\<not> (c = q \<or> c = CHR 0x5C)" "n = 10"
    | (cr) "\<not> (c = q \<or> c = CHR 0x5C)" "n = 13"
    | (hex) "\<not> (c = q \<or> c = CHR 0x5C)" "n \<noteq> 9" "n \<noteq> 10" "n \<noteq> 13"
        "n < 32 \<or> (127 \<le> n \<and> n \<le> 160) \<or> n = 173"
    | (plain) "\<not> (c = q \<or> c = CHR 0x5C)" "\<not> (n < 32 \<or> (127 \<le> n \<and> n \<le> 160) \<or> n = 173)"
    by blast
  then show ?thesis
  proof cases
    case esc
    then have "c \<noteq> CHR ''t'' \<and> c \<noteq> CHR ''n'' \<and> c \<noteq> CHR ''r'' \<and> c \<noteq> CHR ''x''" using q by auto
    with esc qbs show ?thesis by (auto simp: py_repr_char_def)
  next
    case tab
    then have "c = CHR 0x09" by (simp add: c char_of_controls)
    with tab qbs show ?thesis by (simp add: py_repr_char_def n_def)
  next
    case nl
    then have "c = CHR 0x0A" by (simp add: c char_of_controls)
    with nl qbs show ?thesis by (simp add: py_repr_char_def n_def)
  next
    case cr
    then have "c = CHR 0x0D" by (simp add: c char_of_controls)
    with cr qbs show ?thesis by (simp add: py_repr_char_def n_def)
  next
    case hex
    have "n div 16 < 16" "n mod 16 < 16" using n256 by simp_all
    then have hv: "hex_value (hex_digit (n div 16)) = Some (n div 16)" "hex_value (hex_digit (n mod 16)) = Some (n mod 16)"
      by (simp_all add: hex_value_digit)
    have "char_of (16 * (n div 16) + n mod 16) = c" by (simp add: c)
    with hex qbs hv show ?thesis by (simp add: py_repr_char_def n_def [symmetric] Let_def)
  next
    case plain
    then show ?thesis by (auto simp: py_repr_char_def n_def [symmetric] Let_def)
  qed
qed

lemma unrepr_body_repr_chars:
  "q = CHR 0x27 \<or> q = CHR 0x22 \<Longrightarrow>
   unrepr_body q (concat (map (py_repr_char q) s) @ q # rest) = Some (s, rest)"
  by (induction s) (simp_all add: unrepr_body_repr_char)

lemma unrepr_repr: "unrepr (py_repr_str s @ rest) = Some (s, rest)"
  by (simp add: unrepr_def py_repr_str_def Let_def unrepr_body_repr_chars)

lemma length_py_repr_str: "2 \<le> length (py_repr_str s)"
  by (simp add: py_repr_str_def Let_def)

lemma repr_hd: "\<exists>q r. py_repr_str s = q # r \<and> (q = CHR 0x27 \<or> q = CHR 0x22)"
  by (simp add: py_repr_str_def Let_def)

lemma py_join_Cons_prefix: "\<exists>t. py_join sep (x # xs) = x @ t"
  by (cases xs) auto

lemma unrepr_items_repr:
  "ws \<noteq> [] \<Longrightarrow> length ws \<le> n \<Longrightarrow>
   unrepr_items n (py_join '', '' (map py_repr_str ws) @ CHR '']'' # rest) = Some (ws, rest)"
proof (induction ws arbitrary: n rule: induct_list012)
  case (2 w)
  then obtain m where "n = Suc m" by (cases n) auto
  then show ?case using unrepr_repr [of w "CHR '']'' # rest"] by simp
next
  case (3 w v ws)
  then obtain m where n: "n = Suc m" by (cases n) auto
  have "unrepr (py_repr_str w @ '', '' @ py_join '', '' (map py_repr_str (v # ws)) @ CHR '']'' # rest)
        = Some (w, '', '' @ py_join '', '' (map py_repr_str (v # ws)) @ CHR '']'' # rest)"
    by (rule unrepr_repr)
  with "3.IH"(2) [of m] "3.prems" n show ?case by simp
qed simp

lemma length_py_join_repr: "length ws \<le> length (py_join '', '' (map py_repr_str ws))"
proof (induction ws rule: induct_list012)
  case (2 w)
  then show ?case using repr_hd [of w] by auto
next
  case (3 w v ws)
  then show ?case using length_py_repr_str [of w] by simp
qed simp

lemma unrepr_list_repr: "unrepr_list (py_list_str py_repr_str ws @ rest) = Some (ws, rest)"
proof (cases ws)
  case Nil
  then show ?thesis by (simp add: unrepr_list_def py_list_str_def)
next
  case (Cons w ws')
  obtain q r where qr: "py_repr_str w = q # r" and q: "q = CHR 0x27 \<or> q = CHR 0x22"
    using repr_hd by blast
  obtain t where t: "py_join '', '' (map py_repr_str ws) = q # r @ t"
    using py_join_Cons_prefix [of "'', ''" "py_repr_str w" "map py_repr_str ws'"] Cons qr by auto
  have "length ws \<le> length (py_list_str py_repr_str ws @ rest)"
    using length_py_join_repr [of ws] by (simp add: py_list_str_def)
  then have "unrepr_items (length (py_list_str py_repr_str ws @ rest))
               (py_join '', '' (map py_repr_str ws) @ CHR '']'' # rest) = Some (ws, rest)"
    using Cons by (intro unrepr_items_repr) simp_all
  with t q show ?thesis by (auto simp: unrepr_list_def py_list_str_def)
qed

text \<open>
  C33: \<open>game_string\<close> prints the words unambiguously: whatever quotes, backslashes or
  control characters the words contain, the word list is read back exactly from the
  printed game, up to the separator before the times.
\<close>

theorem game_string_words_roundtrip:
  "\<exists>x. game_string num_repr g = ''game('' @ x
       \<and> unrepr_list x = Some (g_words g, '', '' @ py_list_str (py_list_str num_repr) (g_times g) @ '')'')"
  using unrepr_list_repr [of "g_words g" "'', '' @ py_list_str (py_list_str num_repr) (g_times g) @ '')''"]
  by (simp add: game_string_def)

lemma game_string_example:
  "game_string (\<lambda>x. if x = 1 then ''1'' else ''2.5'')
     \<lparr>g_words = [''it'' @ [CHR 0x27] @ ''s'', [CHR 0x5C]], g_times = [[1, 5 / 2]]\<rparr>
   = ''game(['' @ [CHR 0x22] @ ''it'' @ [CHR 0x27] @ ''s'' @ [CHR 0x22] @ '', ''
       @ [CHR 0x27, CHR 0x5C, CHR 0x5C, CHR 0x27] @ ''], [[1, 2.5]])''"
  by (simp add: game_string_def py_list_str_def py_repr_str_def py_repr_char_def Let_def)

end
