(* ===== verification/FastestPrints.thy ===== *)
theory FastestPrints
  imports GameString
begin

text \<open>
  \<open>fastest_words\<close> of \<open>cats.py\<close> with its standard output. The function prints
  \<open>Debug: fastest_players = [...]\<close> once, then for every player one
  \<open>Debug:  i\<close> line per word (\<open>print("Debug: ", x)\<close> puts a space between its
  arguments, hence two spaces) and one \<open>Debug: words_for_player = [...]\<close> line.
  \<open>fastest_words_io\<close> is the same function as \<open>Game.fastest_words\<close>, with the text
  written by these \<open>print\<close> calls returned beside the result; \<open>str\<close> of a list is
  \<open>py_list_str\<close> of \<open>GameString\<close>, with \<open>repr\<close> for the words. The lemmas show
  that its result is that of \<open>fastest_words\<close> and count the lines it prints: no
  \<open>repr\<close> of a word and no decimal numeral contains a newline.
\<close>

definition fastest_words_io :: "game \<Rightarrow> (string list list \<times> string) py_result" where
  "fastest_words_io g =
     (let players_indexes = [0..<length (all_times g)];
          words_indexes = [0..<length (all_words g)];
          tms = all_times g
      in case py_mapM (\<lambda>w_i. py_mapM (\<lambda>p_i. py_get (tms ! p_i) (int w_i)) players_indexes)
                words_indexes of
           Inl e \<Rightarrow> Inl e
         | Inr words_to_players \<Rightarrow>
             (case py_mapM (\<lambda>ws. case py_min ws of Inl e \<Rightarrow> Inl e | Inr m \<Rightarrow> py_index ws m)
                     words_to_players of
                Inl e \<Rightarrow> Inl e
              | Inr fastest_players \<Rightarrow>
                  (let out = ''Debug: fastest_players = '' @ py_list_str py_str_nat fastest_players @ [CHR 0x0A];
                       words = all_words g;
                       words_for_player = (\<lambda>p_i. map (\<lambda>w_i. words ! w_i)
                                           (filter (\<lambda>w_i. fastest_players ! w_i = p_i) words_indexes));
                       out = out @ concat (map (\<lambda>p_i.
                               concat (map (\<lambda>w_i. ''Debug:  '' @ py_str_nat (fastest_players ! w_i) @ [CHR 0x0A])
                                        words_indexes)
                               @ ''Debug: words_for_player = '' @ py_list_str py_repr_str (words_for_player p_i)
                               @ [CHR 0x0A]) players_indexes)
                   in Inr (map words_for_player players_indexes, out))))"

lemma fastest_words_io_result: "fastest_words g = map_sum id fst (fastest_words_io g)"
  by (simp add: fastest_words_def fastest_words_io_def Let_def split: sum.split)

lemma decimal_digit_no_newline: "d < 10 \<Longrightarrow> CHR 0x0A \<noteq> ''0123456789'' ! d"
proof -
  have "list_all (\<lambda>d. CHR 0x0A \<noteq> ''0123456789'' ! d) [0..<10]" by (simp add: upt_conv_Cons)
  moreover assume "d < 10"
  ultimately show ?thesis by (simp add: list_all_iff)
qed

lemma digits_no_newline: "CHR 0x0A \<notin> set (py_str_nat n)"
  by (induction n rule: py_str_nat.induct) (subst py_str_nat.simps, simp add: decimal_digit_no_newline)

lemma hex_digit_no_newline: "n < 16 \<Longrightarrow> CHR 0x0A \<noteq> hex_digit n"
proof -
  have "list_all (\<lambda>n. CHR 0x0A \<noteq> hex_digit n) [0..<16]" by (simp add: hex_digit_def upt_conv_Cons)
  moreover assume "n < 16"
  ultimately show ?thesis by (simp add: list_all_iff)
qed

lemma repr_char_no_newline:
  assumes "q = CHR 0x27 \<or> q = CHR 0x22"
  shows "CHR 0x0A \<notin> set (py_repr_char q c)"
proof -
  have "of_char c < (256::nat)" by simp
  then have "(of_char c :: nat) div 16 < 16" "(of_char c :: nat) mod 16 < 16"
    using less_mult_imp_div_less [of "of_char c" 16 16] by simp_all
  moreover have "c \<noteq> CHR 0x0A" if "(of_char c :: nat) \<noteq> 10"
    using that by auto
  ultimately show ?thesis using assms
    by (auto simp: py_repr_char_def Let_def hex_digit_no_newline)
qed

lemma repr_no_newline: "CHR 0x0A \<notin> set (py_repr_str s)"
  using repr_char_no_newline by (auto simp: py_repr_str_def Let_def)

lemma py_join_no_newline:
  "\<forall>x\<in>set xs. CHR 0x0A \<notin> set x \<Longrightarrow> CHR 0x0A \<notin> set sep \<Longrightarrow> CHR 0x0A \<notin> set (py_join sep xs)"
  by (induction sep xs rule: py_join.induct) auto

lemma list_str_no_newline:
  "(\<And>x. CHR 0x0A \<notin> set (rep x)) \<Longrightarrow> CHR 0x0A \<notin> set (py_list_str rep xs)"
  using py_join_no_newline [of "map rep xs" "'', ''"] unfolding py_list_str_def by auto

lemma concat_lines:
  "concat (map (\<lambda>l. l @ [c]) (h # concat (map (\<lambda>p. map (f p) ws @ [g p]) ps)))
     = (h @ [c]) @ concat (map (\<lambda>p. concat (map (\<lambda>w. f p w @ [c]) ws) @ g p @ [c]) ps)"
  by (induction ps) (simp_all add: comp_def)

lemma count_list_lines:
  "\<forall>l\<in>set lines. c \<notin> set l \<Longrightarrow> count_list (concat (map (\<lambda>l. l @ [c]) lines)) c = length lines"
  by (induction lines) (simp_all add: count_list_append count_list_0_iff)

lemma debug_out_lines:
  "\<exists>lines. (''Debug: fastest_players = '' @ py_list_str py_str_nat fp @ [CHR 0x0A])
             @ concat (map (\<lambda>p.
                 concat (map (\<lambda>w. ''Debug:  '' @ py_str_nat (fp ! w) @ [CHR 0x0A]) ws)
                 @ ''Debug: words_for_player = '' @ py_list_str py_repr_str (wfor p) @ [CHR 0x0A]) ps)
           = concat (map (\<lambda>l. l @ [CHR 0x0A]) lines)
         \<and> length lines = 1 + length ps * (length ws + 1)
         \<and> (\<forall>l\<in>set lines. take 6 l = ''Debug:'' \<and> CHR 0x0A \<notin> set l)"
proof (intro exI conjI)
  let ?lines = "(''Debug: fastest_players = '' @ py_list_str py_str_nat fp)
    # concat (map (\<lambda>p. map (\<lambda>w. ''Debug:  '' @ py_str_nat (fp ! w)) ws
                       @ [''Debug: words_for_player = '' @ py_list_str py_repr_str (wfor p)]) ps)"
  show "(''Debug: fastest_players = '' @ py_list_str py_str_nat fp @ [CHR 0x0A])
          @ concat (map (\<lambda>p.
              concat (map (\<lambda>w. ''Debug:  '' @ py_str_nat (fp ! w) @ [CHR 0x0A]) ws)
              @ ''Debug: words_for_player = '' @ py_list_str py_repr_str (wfor p) @ [CHR 0x0A]) ps)
        = concat (map (\<lambda>l. l @ [CHR 0x0A]) ?lines)"
    by (subst concat_lines) (simp only: append_assoc)
  show "length ?lines = 1 + length ps * (length ws + 1)"
    by (simp add: length_concat comp_def sum_list_triv)
  show "\<forall>l\<in>set ?lines. take 6 l = ''Debug:'' \<and> CHR 0x0A \<notin> set l"
    using list_str_no_newline [of py_str_nat, OF digits_no_newline]
      list_str_no_newline [of py_repr_str, OF repr_no_newline]
    by (auto simp: digits_no_newline)
qed

lemma fastest_words_io_out:
  assumes "fastest_words_io g = Inr (r, out)"
  shows "\<exists>lines. out = concat (map (\<lambda>l. l @ [CHR 0x0A]) lines)
           \<and> length lines = 1 + length (g_times g) * (length (g_words g) + 1)
           \<and> (\<forall>l\<in>set lines. take 6 l = ''Debug:'' \<and> CHR 0x0A \<notin> set l)"
proof -
  let ?ps = "[0..<length (g_times g)]" and ?ws = "[0..<length (g_words g)]"
  obtain fp where out: "out = (''Debug: fastest_players = '' @ py_list_str py_str_nat fp @ [CHR 0x0A])
             @ concat (map (\<lambda>p.
                 concat (map (\<lambda>w. ''Debug:  '' @ py_str_nat (fp ! w) @ [CHR 0x0A]) ?ws)
                 @ ''Debug: words_for_player = ''
                 @ py_list_str py_repr_str (map (\<lambda>w. g_words g ! w) (filter (\<lambda>w. fp ! w = p) ?ws))
                 @ [CHR 0x0A]) ?ps)"
    using assms by (auto simp: fastest_words_io_def Let_def all_times_def all_words_def split: sum.splits)
  have "\<exists>lines. out = concat (map (\<lambda>l. l @ [CHR 0x0A]) lines)
           \<and> length lines = 1 + length ?ps * (length ?ws + 1)
           \<and> (\<forall>l\<in>set lines. take 6 l = ''Debug:'' \<and> CHR 0x0A \<notin> set l)"
    unfolding out by (rule debug_out_lines)
  then show ?thesis by simp
qed

text \<open>
  C17: for a well-formed game with at least one player, \<open>fastest_words\<close> returns the
  groups it is specified to return and writes on standard output exactly
  \<open>1 + P * (W + 1)\<close> lines for \<open>P\<close> players and \<open>W\<close> words, each a \<open>Debug:\<close> line:
  the debug prints are not optional output but part of every successful call.
\<close>

theorem fastest_words_debug_lines:
  assumes "game_ok g" and "g_times g \<noteq> []"
  shows "\<exists>r out lines. fastest_words g = Inr r \<and> fastest_words_io g = Inr (r, out)
           \<and> out = concat (map (\<lambda>l. l @ [CHR 0x0A]) lines)
           \<and> length lines = 1 + length (g_times g) * (length (g_words g) + 1)
           \<and> (\<forall>l\<in>set lines. take 6 l = ''Debug:'' \<and> CHR 0x0A \<notin> set l)"
proof -
  obtain r where r: "fastest_words g = Inr r" using fastest_words_groups [OF assms] by blast
  then obtain out where out: "fastest_words_io g = Inr (r, out)"
    unfolding fastest_words_io_result by (cases "fastest_words_io g") auto
  show ?thesis using r out fastest_words_io_out [OF out] by blast
qed

theorem fastest_words_debug_lines_witness:
  "\<exists>out. fastest_words_io \<lparr>g_words = [''a'', ''b''], g_times = [[1, 5], [3, 2]]\<rparr> = Inr ([[''a''], [''b'']], out)
     \<and> count_list out (CHR 0x0A) = 7"
proof -
  let ?g = "\<lparr>g_words = [''a'', ''b''], g_times = [[1::real, 5], [3, 2]]\<rparr>"
  have ok: "game_ok ?g" by (simp add: game_ok_def)
  have fw: "fastest_words ?g = Inr [[''a''], [''b'']]"
    by (simp add: fastest_words_def all_times_def all_words_def py_get_def)
  obtain r out lines where "fastest_words ?g = Inr r" "fastest_words_io ?g = Inr (r, out)"
    "out = concat (map (\<lambda>l. l @ [CHR 0x0A]) lines)" "length lines = 1 + 2 * (2 + 1)"
    "\<forall>l\<in>set lines. take 6 l = ''Debug:'' \<and> CHR 0x0A \<notin> set l"
    using fastest_words_debug_lines [OF ok] by auto
  with fw show ?thesis using count_list_lines [of lines "CHR 0x0A"] by auto
qed

lemma fastest_words_io_example:
  "fastest_words_io \<lparr>g_words = [''a'', ''b''], g_times = [[1, 5], [3, 2]]\<rparr>
     = Inr ([[''a''], [''b'']],
            ''Debug: fastest_players = [0, 1]'' @ [CHR 0x0A]
            @ ''Debug:  0'' @ [CHR 0x0A] @ ''Debug:  1'' @ [CHR 0x0A]
            @ ''Debug: words_for_player = ['' @ [CHR 0x27, CHR ''a'', CHR 0x27] @ '']'' @ [CHR 0x0A]
            @ ''Debug:  0'' @ [CHR 0x0A] @ ''Debug:  1'' @ [CHR 0x0A]
            @ ''Debug: words_for_player = ['' @ [CHR 0x27, CHR ''b'', CHR 0x27] @ '']'' @ [CHR 0x0A])"
  by (simp add: fastest_words_io_def all_times_def all_words_def py_get_def py_list_str_def
                py_repr_str_def py_repr_char_def py_str_nat.simps Let_def)

end
