(* ===== verification/Scoring.thy ===== *)
theory Scoring
  imports Prelude Complex_Main
begin

text \<open>
  The scoring functions of \<open>cats.py\<close>: \<open>accuracy\<close> and \<open>wpm\<close> (Phase 1) and
  \<open>report_progress\<close> (Phase 3). Python floats are modelled as \<open>real\<close> (rounding is not
  modelled; every value the docstrings show is exact). \<open>report_progress\<close> calls a
  \<open>send\<close> callback; the model keeps the messages sent so far as a list and returns it
  with the message appended, so that "sent exactly once, and only on success" is a
  statement about the result. Its \<open>while\<close> loop is \<open>progress_loop\<close>, a function on the
  loop variables \<open>i\<close>, \<open>correct_words\<close>, \<open>correct\<close>.
\<close>

subsection \<open>The code\<close>

definition accuracy :: "string \<Rightarrow> string \<Rightarrow> real" where
  "accuracy typed reference =
     (let typed = py_split typed; reference = py_split reference;
          total_words = length typed;
          correct_words =
            foldl (\<lambda>c i. case py_get typed (int i) of
                           Inl _ \<Rightarrow> c
                         | Inr w \<Rightarrow> if w = reference ! i then c + 1 else c)
              (0::nat) [0..<length reference]
      in if total_words \<noteq> 0 then (real correct_words / real total_words) * 100 else 0)"

definition wpm :: "string \<Rightarrow> real \<Rightarrow> real py_result" where
  "wpm typed elapsed =
     (if \<not> elapsed > 0 then Inl AssertionError
      else
        (let typical_word_length = 5;
             num_words_typed = real (length typed) / typical_word_length;
             min_as_sec = 60;
             elapsed_as_mins = elapsed / min_as_sec
         in Inr (num_words_typed / elapsed_as_mins)))"

text \<open>The dictionary \<open>{'id': id, 'progress': ratio}\<close> passed to \<open>send\<close>.\<close>

record 'id progress_message =
  msg_id :: 'id
  msg_progress :: real

function progress_loop :: "string list \<Rightarrow> string list \<Rightarrow> nat \<Rightarrow> nat \<Rightarrow> bool \<Rightarrow> nat py_result" where
  "progress_loop typed prompt i correct_words correct =
     (if i < length typed \<and> correct then
        (case py_get prompt (int i) of
           Inl e \<Rightarrow> Inl e
         | Inr p \<Rightarrow>
             if typed ! i = p then progress_loop typed prompt (i + 1) (correct_words + 1) correct
             else progress_loop typed prompt (i + 1) correct_words False)
      else Inr correct_words)"
  by pat_completeness auto
termination
  by (relation "measure (\<lambda>(typed, prompt, i, c, b). length typed - i)") auto

declare progress_loop.simps [simp del]

definition report_progress ::
  "string list \<Rightarrow> string list \<Rightarrow> 'id \<Rightarrow> 'id progress_message list
   \<Rightarrow> (real \<times> 'id progress_message list) py_result" where
  "report_progress typed prompt player_id sent =
     (let total_words = length prompt in
      case progress_loop typed prompt 0 0 True of
        Inl e \<Rightarrow> Inl e
      | Inr correct_words \<Rightarrow>
          if total_words = 0 then Inl ZeroDivisionError
          else
            (let ratio = real correct_words / real total_words
             in Inr (ratio, sent @ [\<lparr>msg_id = player_id, msg_progress = ratio\<rparr>])))"

subsection \<open>Reference functions\<close>

text \<open>The number of leading positions at which two lists agree.\<close>

fun common_prefix_len :: "'a list \<Rightarrow> 'a list \<Rightarrow> nat" where
  "common_prefix_len (x # xs) (y # ys) = (if x = y then Suc (common_prefix_len xs ys) else 0)"
| "common_prefix_len _ _ = 0"

text \<open>The number of positions at which two word lists agree.\<close>

definition matches :: "'a list \<Rightarrow> 'a list \<Rightarrow> nat" where
  "matches xs ys = length (filter (\<lambda>(a, b). a = b) (zip xs ys))"

subsection \<open>Properties\<close>

lemma matches_le_length: "matches xs ys \<le> length xs"
proof -
  have "matches xs ys \<le> length (zip xs ys)" unfolding matches_def by (rule length_filter_le)
  then show ?thesis by simp
qed

lemma accuracy_loop:
  assumes "n \<le> length r"
  shows "foldl (\<lambda>c i. case py_get t (int i) of Inl _ \<Rightarrow> c | Inr w \<Rightarrow> if w = r ! i then c + 1 else c)
           c0 [0..<n]
         = c0 + length (filter (\<lambda>(a, b). a = b) (take n (zip t r)))"
  using assms
proof (induction n)
  case (Suc n)
  then have IH: "foldl (\<lambda>c i. case py_get t (int i) of Inl _ \<Rightarrow> c | Inr w \<Rightarrow> if w = r ! i then c + 1 else c)
           c0 [0..<n] = c0 + length (filter (\<lambda>(a, b). a = b) (take n (zip t r)))" by simp
  show ?case
  proof (cases "n < length t")
    case True
    with Suc.prems have "take (Suc n) (zip t r) = take n (zip t r) @ [(t ! n, r ! n)]"
      by (simp add: take_Suc_conv_app_nth)
    with True IH show ?thesis by (simp add: py_get_nat)
  next
    case False
    then have "take (Suc n) (zip t r) = take n (zip t r)" by simp
    with False IH show ?thesis by (simp add: py_get_nat)
  qed
qed simp

lemma accuracy_matches:
  "accuracy typed reference =
     (let t = py_split typed; r = py_split reference
      in if t = [] then 0 else real (matches t r) / real (length t) * 100)"
proof -
  let ?t = "py_split typed" and ?r = "py_split reference"
  have "take (length ?r) (zip ?t ?r) = zip ?t ?r" by simp
  then show ?thesis
    using accuracy_loop [of "length ?r" ?r ?t 0]
    by (simp add: accuracy_def matches_def Let_def)
qed

text \<open>
  C12: the \<open>for\<close> loop over the reference indices, whose \<open>IndexError\<close> on
  \<open>typed[i]\<close> is caught, counts the positions where the typed and reference words
  agree; accuracy is that count over the number of typed words, times 100, and 0 when
  nothing was typed.
\<close>

theorem accuracy_correct:
  "accuracy typed reference =
     (let t = py_split typed; r = py_split reference
      in if t = [] then 0 else real (matches t r) / real (length t) * 100)"
  by (rule accuracy_matches)

text \<open>C13: accuracy is a percentage between 0 and 100.\<close>

theorem accuracy_bounds:
  "0 \<le> accuracy typed reference \<and> accuracy typed reference \<le> 100"
proof -
  let ?t = "py_split typed" and ?r = "py_split reference"
  have "real (matches ?t ?r) \<le> real (length ?t)" using matches_le_length by simp
  then have "?t \<noteq> [] \<Longrightarrow> real (matches ?t ?r) / real (length ?t) \<le> 1" by simp
  then show ?thesis by (auto simp: accuracy_matches Let_def pos_divide_le_eq)
qed

lemma matches_eq_length: "matches t r = length t \<longleftrightarrow> take (length t) r = t"
proof (induction t arbitrary: r)
  case Nil
  then show ?case by (simp add: matches_def)
next
  case (Cons a t)
  show ?case
  proof (cases r)
    case Nil
    then show ?thesis by (simp add: matches_def)
  next
    case (Cons b r')
    have "matches t r' \<le> length t" by (rule matches_le_length)
    with Cons.IH [of r'] Cons show ?thesis by (auto simp: matches_def)
  qed
qed

text \<open>
  C15: a typed line scores exactly 100 when it has at least one word and its words
  are, in order, the first words of the reference; a mismatch anywhere, or a word
  typed past the end of the reference, lowers the score.
\<close>

theorem accuracy_perfect_iff_prefix:
  "accuracy typed reference = 100 \<longleftrightarrow>
     py_split typed \<noteq> [] \<and> take (length (py_split typed)) (py_split reference) = py_split typed"
proof (cases "py_split typed = []")
  case False
  then have "real (matches (py_split typed) (py_split reference)) / real (length (py_split typed)) * 100 = 100
             \<longleftrightarrow> matches (py_split typed) (py_split reference) = length (py_split typed)"
    by (simp add: field_simps)
  with False show ?thesis by (simp add: accuracy_matches matches_eq_length Let_def)
qed (simp add: accuracy_matches)

theorem accuracy_perfect_iff_prefix_witness:
  "accuracy ''Cute'' ''Cute Dog.'' = 100 \<and> accuracy ''Cute Dog. I say!'' ''Cute Dog.'' \<noteq> 100"
proof -
  have "py_split ''Cute'' = [''Cute'']" "py_split ''Cute Dog.'' = [''Cute'', ''Dog.'']"
    "py_split ''Cute Dog. I say!'' = [''Cute'', ''Dog.'', ''I'', ''say!'']"
    by (simp_all add: py_split_def py_whitespace_def)
  with accuracy_perfect_iff_prefix [of "''Cute''" "''Cute Dog.''"]
    accuracy_perfect_iff_prefix [of "''Cute Dog. I say!''" "''Cute Dog.''"]
  show ?thesis by simp
qed

lemma progress_loop_stopped: "progress_loop typed prompt i c False = Inr c"
  by (simp add: progress_loop.simps)

lemma progress_loop_spec:
  "correct \<Longrightarrow> i \<le> length prompt \<Longrightarrow>
   progress_loop typed prompt i c correct =
     (let k = common_prefix_len (drop i typed) (drop i prompt)
      in if k = length prompt - i \<and> length prompt < length typed then Inl IndexError
         else Inr (c + k))"
proof (induction typed prompt i c correct rule: progress_loop.induct)
  case (1 typed prompt i c correct)
  show ?case
  proof (cases "i < length typed")
    case False
    with "1.prems" show ?thesis by (simp add: progress_loop.simps [of typed prompt i])
  next
    case it: True
    show ?thesis
    proof (cases "i < length prompt")
      case False
      with it "1.prems" show ?thesis by (subst progress_loop.simps) (simp add: py_get_nat)
    next
      case ip: True
      have dt: "drop i typed = typed ! i # drop (Suc i) typed" using it by (rule Cons_nth_drop_Suc [symmetric])
      have dp: "drop i prompt = prompt ! i # drop (Suc i) prompt" using ip by (rule Cons_nth_drop_Suc [symmetric])
      show ?thesis
      proof (cases "typed ! i = prompt ! i")
        case True
        with "1.IH"(1) [of "prompt ! i"] "1.prems" it ip
        have "progress_loop typed prompt (i + 1) (c + 1) correct =
           (let k = common_prefix_len (drop (Suc i) typed) (drop (Suc i) prompt)
            in if k = length prompt - Suc i \<and> length prompt < length typed then Inl IndexError
               else Inr (c + 1 + k))" by (simp add: py_get_nat)
        with True it ip "1.prems" show ?thesis
          by (simp add: progress_loop.simps [of typed prompt i] py_get_nat dt dp Let_def) arith
      next
        case False
        with it ip "1.prems" show ?thesis
          by (simp add: progress_loop.simps [of typed prompt i] py_get_nat dt dp progress_loop_stopped)
      qed
    qed
  qed
qed

lemma report_progress_prefix:
  "report_progress typed prompt player_id sent =
     (let k = common_prefix_len typed prompt in
      if k = length prompt \<and> length prompt < length typed then Inl IndexError
      else if prompt = [] then Inl ZeroDivisionError
      else Inr (real k / real (length prompt),
                sent @ [\<lparr>msg_id = player_id, msg_progress = real k / real (length prompt)\<rparr>]))"
  using progress_loop_spec [of True 0 prompt typed 0]
  by (auto simp: report_progress_def Let_def)

text \<open>
  C16: \<open>report_progress\<close> sends and returns the fraction of the prompt's words matched
  by the typed words before the first mismatch. It raises \<open>IndexError\<close> when the typed
  words continue past a fully matched prompt, and \<open>ZeroDivisionError\<close> when both are
  empty; on an exception nothing is sent.
\<close>

theorem report_progress_correct:
  "report_progress typed prompt player_id sent =
     (let k = common_prefix_len typed prompt in
      if k = length prompt \<and> length prompt < length typed then Inl IndexError
      else if prompt = [] then Inl ZeroDivisionError
      else Inr (real k / real (length prompt),
                sent @ [\<lparr>msg_id = player_id, msg_progress = real k / real (length prompt)\<rparr>]))"
  by (rule report_progress_prefix)

end
