(* ===== verification/Select.thy ===== *)
theory Select
  imports Prelude
begin

text \<open>
  Paragraph selection of \<open>cats.py\<close> (Phase 1): \<open>choose\<close> (here \<open>choose_paragraph\<close>, since \<open>choose\<close> is HOL's binomial coefficient) returns the \<open>k\<close>-th paragraph
  accepted by a predicate, \<open>''''\<close> when there is none; \<open>about\<close> builds such a predicate
  from a list of lower-case topic words (or fails its assertion). The predicate
  lower-cases the paragraph, removes punctuation and splits it into words, using
  \<open>utils.lower\<close>, \<open>utils.remove_punctuation\<close> and \<open>utils.split\<close>; \<open>utils.py\<close> is not
  among the sources, so \<open>remove_punctuation\<close> follows its documented behaviour:
  \<open>s.strip()\<close> and then deletion of the characters of \<open>string.punctuation\<close> (the
  printable ASCII characters that are neither letters, digits nor space).
\<close>

subsection \<open>Helpers from \<open>utils.py\<close>\<close>

definition py_punctuation :: "char \<Rightarrow> bool" where
  "py_punctuation c \<longleftrightarrow>
     (let n = (of_char c :: nat)
      in (33 \<le> n \<and> n \<le> 47) \<or> (58 \<le> n \<and> n \<le> 64) \<or> (91 \<le> n \<and> n \<le> 96) \<or> (123 \<le> n \<and> n \<le> 126))"

definition py_strip :: "string \<Rightarrow> string" where
  "py_strip s = rev (dropWhile py_whitespace (rev (dropWhile py_whitespace s)))"

definition remove_punctuation :: "string \<Rightarrow> string" where
  "remove_punctuation s = filter (\<lambda>c. \<not> py_punctuation c) (py_strip s)"

subsection \<open>The code\<close>

text \<open>\<open>selected\<close> is built by a loop of \<open>append\<close>s; \<open>selected[k]\<close> may raise \<open>IndexError\<close>, which is caught.\<close>

definition choose_paragraph :: "string list \<Rightarrow> (string \<Rightarrow> bool) \<Rightarrow> int \<Rightarrow> string" where
  "choose_paragraph paragraphs sel k =
     (let selected = foldl (\<lambda>acc p. if sel p then acc @ [p] else acc) [] paragraphs
      in case py_get selected k of Inl _ \<Rightarrow> '''' | Inr p \<Rightarrow> p)"

text \<open>The closure \<open>predicate\<close>: the nested loops return \<open>True\<close> at the first topic word found.\<close>

definition about_predicate :: "string list \<Rightarrow> string \<Rightarrow> bool" where
  "about_predicate topic paragraph =
     (let paragraph = remove_punctuation (py_lower paragraph)
      in list_ex (\<lambda>t. list_ex (\<lambda>w. t = w) (py_split paragraph)) topic)"

definition about :: "string list \<Rightarrow> (string \<Rightarrow> bool) py_result" where
  "about topic =
     (if \<not> list_all (\<lambda>x. py_lower x = x) topic then Inl AssertionError
      else Inr (about_predicate topic))"

subsection \<open>Properties\<close>

lemma py_strip_decomp:
  "\<exists>A T. s = A @ py_strip s @ T \<and> (\<forall>c\<in>set A. py_whitespace c) \<and> (\<forall>c\<in>set T. py_whitespace c)"
proof -
  let ?M = "dropWhile py_whitespace s"
  have 1: "s = takeWhile py_whitespace s @ ?M" by simp
  have "rev ?M = takeWhile py_whitespace (rev ?M) @ dropWhile py_whitespace (rev ?M)" by simp
  then have 2: "?M = py_strip s @ rev (takeWhile py_whitespace (rev ?M))"
    unfolding py_strip_def by (metis rev_append rev_rev_ident)
  show ?thesis
    by (rule exI [of _ "takeWhile py_whitespace s"], rule exI [of _ "rev (takeWhile py_whitespace (rev ?M))"])
       (use 1 2 in \<open>auto dest: set_takeWhileD\<close>)
qed

lemma whitespace_not_punctuation: "py_whitespace c \<Longrightarrow> \<not> py_punctuation c"
  by (auto simp: py_whitespace_def py_punctuation_def)

text \<open>Stripping before the split changes nothing: \<open>split()\<close> ignores blanks at the ends.\<close>

lemma py_split_remove_punctuation:
  "py_split (remove_punctuation s) = py_split (filter (\<lambda>c. \<not> py_punctuation c) s)"
proof -
  obtain A T where s: "s = A @ py_strip s @ T" and A: "\<forall>c\<in>set A. py_whitespace c"
    and T: "\<forall>c\<in>set T. py_whitespace c" using py_strip_decomp by blast
  have "filter (\<lambda>c. \<not> py_punctuation c) A = A" "filter (\<lambda>c. \<not> py_punctuation c) T = T"
    using A T whitespace_not_punctuation by (simp_all add: filter_id_conv)
  then have "filter (\<lambda>c. \<not> py_punctuation c) s = A @ remove_punctuation s @ T"
    unfolding remove_punctuation_def by (subst s) simp
  then show ?thesis using A T by (simp add: py_split_blank_prefix py_split_blank_suffix)
qed

lemma lower_letter_plain:
  assumes "c \<in> set ''abcdefghijklmnopqrstuvwxyz''"
  shows "\<not> py_punctuation c" and "\<not> py_whitespace c"
  using lower_letter_codes [OF assms] by (auto simp: py_punctuation_def py_whitespace_def)

lemma choose_selected:
  "foldl (\<lambda>acc p. if sel p then acc @ [p] else acc) acc ps = acc @ filter sel ps"
  by (induction ps arbitrary: acc) auto

lemma choose_paragraph_nat:
  "choose_paragraph ps sel (int i) = (if i < length (filter sel ps) then filter sel ps ! i else '''')"
  by (simp add: choose_paragraph_def choose_selected py_get_def)

lemma about_Inr: "about topic = Inr pred \<Longrightarrow> pred = about_predicate topic"
  by (simp add: about_def split: if_splits)

text \<open>
  C29: for a non-negative \<open>k\<close>, \<open>choose\<close> returns the \<open>k\<close>-th paragraph (from 0) among
  those the predicate accepts, in their order, and the empty string when fewer than
  \<open>k + 1\<close> are accepted.
\<close>

theorem choose_paragraph_correct:
  assumes "0 \<le> k"
  shows "choose_paragraph ps sel k =
           (if nat k < length (filter sel ps) then filter sel ps ! nat k else '''')"
  using assms by (simp add: choose_paragraph_def choose_selected py_get_def)

theorem choose_paragraph_correct_witness:
  "choose_paragraph [''hi'', ''yo'', ''hey''] (\<lambda>p. hd p = CHR ''h'') 1 = ''hey''
   \<and> choose_paragraph [''hi'', ''yo'', ''hey''] (\<lambda>p. hd p = CHR ''h'') 2 = ''''"
  using choose_paragraph_correct [of 1 "[''hi'', ''yo'', ''hey'']" "\<lambda>p. hd p = CHR ''h''"]
    choose_paragraph_correct [of 2 "[''hi'', ''yo'', ''hey'']" "\<lambda>p. hd p = CHR ''h''"]
  by simp

text \<open>
  C30: the docstring asks for the \<open>k\<close>-th selected paragraph, a non-negative
  index, but the code indexes a Python list, so a negative \<open>k\<close> within range
  counts from the end of the selected paragraphs instead of giving \<open>''''\<close>.
\<close>

theorem choose_paragraph_negative_index:
  assumes "k < 0" and "nat (- k) \<le> length (filter sel ps)"
  shows "choose_paragraph ps sel k = filter sel ps ! (length (filter sel ps) - nat (- k))"
  using assms by (simp add: choose_paragraph_def choose_selected py_get_def Let_def)

theorem choose_paragraph_negative_index_witness:
  "choose_paragraph [''hi'', ''yo'', ''hey''] (\<lambda>p. hd p = CHR ''h'') (-1) = ''hey''"
  using choose_paragraph_negative_index [of "-1" "\<lambda>p. hd p = CHR ''h''" "[''hi'', ''yo'', ''hey'']"]
  by simp

text \<open>
  C31: the predicate built by \<open>about\<close> accepts every paragraph in which a topic word
  (lower-case letters) stands between two spaces, whatever the text around it,
  punctuation and capitals included.
\<close>

theorem about_finds_topic_word:
  assumes "about topic = Inr pred" and "t \<in> set topic" and "t \<noteq> []"
    and "\<forall>c\<in>set t. c \<in> set ''abcdefghijklmnopqrstuvwxyz''"
  shows "pred (a @ '' '' @ t @ '' '' @ b)"
proof -
  let ?np = "\<lambda>c. \<not> py_punctuation c"
  have low: "py_lower (a @ '' '' @ t @ '' '' @ b) = py_lower a @ '' '' @ t @ '' '' @ py_lower b"
    using py_lower_lower_letters [OF assms(4)] by (simp add: py_lower_def)
  have np: "filter ?np t = t" "\<forall>c\<in>set t. \<not> py_whitespace c"
    using assms(4) lower_letter_plain unfolding filter_id_conv by blast+
  have "t \<in> set (py_split (filter ?np (py_lower a) @ CHR '' '' # t @ CHR '' '' # filter ?np (py_lower b)))"
    using assms(3) np(2) by (intro py_split_word) (simp_all add: py_whitespace_def)
  then have "t \<in> set (py_split (remove_punctuation (py_lower (a @ '' '' @ t @ '' '' @ b))))"
    unfolding py_split_remove_punctuation low using np(1) by (simp add: py_punctuation_def)
  then show ?thesis using assms(2) about_Inr [OF assms(1)]
    unfolding about_predicate_def by (auto simp: list_ex_iff)
qed

theorem about_finds_topic_word_witness:
  "about [''dog''] = Inr (about_predicate [''dog''])
   \<and> about_predicate [''dog''] (''A BIG'' @ '' '' @ ''dog'' @ '' '' @ ''barks!'')"
  using about_finds_topic_word [of "[''dog'']" "about_predicate [''dog'']" "''dog''" "''A BIG''" "''barks!''"]
  by (simp add: about_def py_lower_def)

text \<open>
  C32: the predicate built by \<open>about\<close> does not depend on the case of the paragraph:
  lower-casing the paragraph first gives the same answer.
\<close>

theorem about_case_insensitive:
  assumes "about topic = Inr pred"
  shows "pred (py_lower paragraph) = pred paragraph"
  using about_Inr [OF assms] by (simp add: about_predicate_def)

theorem about_case_insensitive_witness:
  "about [''dog''] = Inr (about_predicate [''dog''])
   \<and> about_predicate [''dog''] (py_lower ''DOG!'') = about_predicate [''dog''] ''DOG!''"
  using about_case_insensitive [of "[''dog'']" "about_predicate [''dog'']" "''DOG!''"]
  by (simp add: about_def py_lower_def)

end
