(* ===== verification/TypingTest.thy ===== *)
theory TypingTest
  imports Scoring Select
begin

text \<open>
  The command-line typing test of \<open>cats.py\<close>, \<open>run_typing_test\<close>. Its environment is
  explicit: the paragraphs read from \<open>data/sample_paragraphs.txt\<close> are a parameter
  (\<open>lines_from_file\<close> is in \<open>utils.py\<close>), the lines returned by successive calls of
  \<open>input()\<close> are a stream \<open>inp\<close> (line \<open>j\<close> is the \<open>j\<close>-th answer, so the user may
  answer forever), and the seconds measured by \<open>datetime.now()\<close> around the \<open>i\<close>-th
  paragraph are \<open>clock i\<close>. What the loop prints is a list of \<open>cli_output\<close> events, one
  per group of \<open>print\<close> calls, carrying the printed values. The \<open>while True\<close> loop is
  \<open>typing_loop\<close>, a \<open>function\<close> whose termination proof is the reason the loop ends:
  \<open>choose\<close> returns the empty string once \<open>i\<close> passes the selected paragraphs.
\<close>

subsection \<open>The code\<close>

text \<open>The printed output: the instructions and the paragraph; "No more paragraphs about
  \<open>topics\<close>"; "Goodbye."; "Nice work!" with the speed and the accuracy.\<close>

datatype cli_output =
  Show_paragraph string | No_more "string list" | Goodbye | Scores real real

text \<open>\<open>select = lambda p: True\<close>, replaced by \<open>about(topics)\<close> when topics are given.\<close>

definition test_select :: "string list \<Rightarrow> (string \<Rightarrow> bool) py_result" where
  "test_select topics = (if topics \<noteq> [] then about topics else Inr (\<lambda>p. True))"

text \<open>One iteration of the \<open>while True\<close> loop per call; \<open>j\<close> is the next input line.\<close>

function typing_loop ::
  "string list \<Rightarrow> string list \<Rightarrow> (string \<Rightarrow> bool) \<Rightarrow> (nat \<Rightarrow> string) \<Rightarrow> (nat \<Rightarrow> real)
   \<Rightarrow> nat \<Rightarrow> nat \<Rightarrow> cli_output list \<Rightarrow> cli_output list py_result" where
  "typing_loop topics paragraphs sel inp clock i j out =
     (let reference = choose_paragraph paragraphs sel (int i)
      in if reference = [] then Inr (out @ [No_more topics])
         else
           (let out = out @ [Show_paragraph reference]; typed = inp j
            in if typed = [] then Inr (out @ [Goodbye])
               else
                 (case wpm typed (clock i) of
                    Inl e \<Rightarrow> Inl e
                  | Inr w \<Rightarrow>
                      (let out = out @ [Scores w (accuracy typed reference)]
                       in if py_strip (inp (j + 1)) = ''q'' then Inr out
                          else typing_loop topics paragraphs sel inp clock (i + 1) (j + 2) out))))"
  by pat_completeness auto
termination
  by (relation "measure (\<lambda>(topics, ps, sel, inp, clock, i, j, out). length (filter sel ps) - i)")
     (auto simp: choose_paragraph_nat split: if_splits)

declare typing_loop.simps [simp del]

text \<open>The paragraphs shown, in order.\<close>

fun shown :: "cli_output list \<Rightarrow> string list" where
  "shown [] = []"
| "shown (Show_paragraph p # os) = p # shown os"
| "shown (_ # os) = shown os"

definition run_typing_test ::
  "string list \<Rightarrow> string list \<Rightarrow> (nat \<Rightarrow> string) \<Rightarrow> (nat \<Rightarrow> real) \<Rightarrow> cli_output list py_result" where
  "run_typing_test topics paragraphs inp clock =
     (case test_select topics of
        Inl e \<Rightarrow> Inl e
      | Inr sel \<Rightarrow> typing_loop topics paragraphs sel inp clock 0 0 [])"

text \<open>\<open>run\<close>: the result of \<open>parser.parse_args()\<close> is a parameter; only \<open>-t\<close> starts
  the test, with the positional arguments as topics.\<close>

record cli_args =
  arg_topic :: "string list"
  arg_t :: bool

definition run_cli ::
  "cli_args \<Rightarrow> string list \<Rightarrow> (nat \<Rightarrow> string) \<Rightarrow> (nat \<Rightarrow> real) \<Rightarrow> cli_output list py_result" where
  "run_cli args paragraphs inp clock =
     (if arg_t args then run_typing_test (arg_topic args) paragraphs inp clock else Inr [])"

subsection \<open>Properties\<close>

lemma typing_loop_unfold:
  assumes "i < length (filter sel ps)" and "filter sel ps ! i \<noteq> []"
  shows "typing_loop topics ps sel inp clock i j out =
    (let reference = filter sel ps ! i; out = out @ [Show_paragraph reference]; typed = inp j
     in if typed = [] then Inr (out @ [Goodbye])
        else (case wpm typed (clock i) of
                Inl e \<Rightarrow> Inl e
              | Inr w \<Rightarrow>
                  (let out = out @ [Scores w (accuracy typed reference)]
                   in if py_strip (inp (j + 1)) = ''q'' then Inr out
                      else typing_loop topics ps sel inp clock (i + 1) (j + 2) out)))"
  using assms by (subst typing_loop.simps) (simp add: choose_paragraph_nat Let_def)

lemma typing_loop_stop:
  "\<not> (i < length (filter sel ps) \<and> filter sel ps ! i \<noteq> []) \<Longrightarrow>
   typing_loop topics ps sel inp clock i j out = Inr (out @ [No_more topics])"
  by (subst typing_loop.simps) (auto simp: choose_paragraph_nat)

lemma shown_append [simp]: "shown (xs @ ys) = shown xs @ shown ys"
  by (induction xs rule: shown.induct) auto

lemma typing_loop_shown:
  "typing_loop topics ps sel inp clock i j out = Inr out' \<Longrightarrow>
   \<exists>rest. out' = out @ rest \<and> shown rest = take (length (shown rest)) (drop i (filter sel ps))"
proof (induction topics ps sel inp clock i j out arbitrary: out' rule: typing_loop.induct)
  case (1 topics ps sel inp clock i j out)
  let ?F = "filter sel ps"
  show ?case
  proof (cases "i < length ?F \<and> ?F ! i \<noteq> []")
    case False
    with "1.prems" have "out' = out @ [No_more topics]" by (simp add: typing_loop_stop)
    then show ?thesis by (intro exI [of _ "[No_more topics]"]) simp
  next
    case True
    then have drop: "drop i ?F = ?F ! i # drop (Suc i) ?F" by (simp add: Cons_nth_drop_Suc)
    have ref: "choose_paragraph ps sel (int i) = ?F ! i" using True by (simp add: choose_paragraph_nat)
    show ?thesis
    proof (cases "inp j = [] \<or> isl (wpm (inp j) (clock i))")
      case True
      with "1.prems" \<open>i < length ?F \<and> ?F ! i \<noteq> []\<close>
      have "inp j = [] \<and> out' = out @ [Show_paragraph (?F ! i), Goodbye]"
        by (auto simp: typing_loop_unfold Let_def split: sum.splits if_splits)
      with drop show ?thesis by (intro exI [of _ "[Show_paragraph (?F ! i), Goodbye]"]) simp
    next
      case False
      then obtain w where w: "wpm (inp j) (clock i) = Inr w" and ne: "inp j \<noteq> []"
        by (cases "wpm (inp j) (clock i)") auto
      let ?out = "out @ [Show_paragraph (?F ! i), Scores w (accuracy (inp j) (?F ! i))]"
      show ?thesis
      proof (cases "py_strip (inp (j + 1)) = ''q''")
        case True
        with "1.prems" \<open>i < length ?F \<and> ?F ! i \<noteq> []\<close> w ne drop show ?thesis
          by (auto simp: typing_loop_unfold Let_def)
      next
        case q: False
        with "1.prems" \<open>i < length ?F \<and> ?F ! i \<noteq> []\<close> w ne
        have rec: "typing_loop topics ps sel inp clock (i + 1) (j + 2) ?out = Inr out'"
          by (simp add: typing_loop_unfold Let_def)
        have ne_ref: "?F ! i \<noteq> []" using True by simp
        have outs: "?out = (out @ [Show_paragraph (?F ! i)]) @ [Scores w (accuracy (inp j) (?F ! i))]" by simp
        from "1.IH" [of "?F ! i" "out @ [Show_paragraph (?F ! i)]" "inp j" w ?out,
            OF ref [symmetric] ne_ref refl refl ne w outs q rec]
        obtain rest where "out' = ?out @ rest"
          and "shown rest = take (length (shown rest)) (drop (Suc i) ?F)" by auto
        with drop show ?thesis by (intro exI [of _ "[Show_paragraph (?F ! i), Scores w (accuracy (inp j) (?F ! i))] @ rest"]) simp
      qed
    qed
  qed
qed

lemma typing_loop_endless:
  assumes ne: "\<forall>p\<in>set (filter sel ps). p \<noteq> []"
    and inp: "\<forall>j. inp j \<noteq> [] \<and> py_strip (inp j) \<noteq> ''q''" and clock: "\<forall>i. 0 < clock i"
  shows "\<exists>rounds. typing_loop topics ps sel inp clock i j out = Inr (out @ rounds @ [No_more topics])
                 \<and> shown rounds = drop i (filter sel ps)"
proof (induction "length (filter sel ps) - i" arbitrary: i j out)
  case 0
  then have "\<not> i < length (filter sel ps)" by simp
  then show ?case by (intro exI [of _ "[]"]) (simp add: typing_loop_stop)
next
  case (Suc n)
  let ?F = "filter sel ps"
  have i: "i < length ?F" using Suc.hyps(2) by simp
  then have ref: "?F ! i \<noteq> []" using ne nth_mem by blast
  let ?w = "12 * real (length (inp j)) / clock i"
  let ?sc = "[Show_paragraph (?F ! i), Scores ?w (accuracy (inp j) (?F ! i))]"
  have w: "wpm (inp j) (clock i) = Inr ?w" using clock by (simp add: wpm_def)
  have step: "typing_loop topics ps sel inp clock i j out
              = typing_loop topics ps sel inp clock (i + 1) (j + 2) (out @ ?sc)"
    using inp i ref w by (simp add: typing_loop_unfold Let_def)
  have "n = length ?F - (i + 1)" using Suc.hyps(2) by arith
  from Suc.hyps(1) [OF this, of "j + 2" "out @ ?sc"] obtain rounds where
    "typing_loop topics ps sel inp clock (i + 1) (j + 2) (out @ ?sc) = Inr ((out @ ?sc) @ rounds @ [No_more topics])"
    and "shown rounds = drop (Suc i) ?F" by (auto simp del: append_assoc)
  with step i show ?case by (intro exI [of _ "?sc @ rounds"]) (simp add: Cons_nth_drop_Suc)
qed

lemma typing_loop_quit:
  assumes "i \<le> n" and "n < length (filter sel ps)"
    and "\<forall>k\<le>n. filter sel ps ! k \<noteq> [] \<and> inp (2 * k) \<noteq> [] \<and> 0 < clock k"
    and "\<forall>k<n. py_strip (inp (2 * k + 1)) \<noteq> ''q''" and "py_strip (inp (2 * n + 1)) = ''q''"
  shows "typing_loop topics ps sel inp clock i (2 * i) out =
           Inr (out @ concat (map (\<lambda>k. [Show_paragraph (filter sel ps ! k),
                    Scores (12 * real (length (inp (2 * k))) / clock k) (accuracy (inp (2 * k)) (filter sel ps ! k))])
                  [i..<Suc n]))"
  using assms(1)
proof (induction "n - i" arbitrary: i out)
  case 0
  then have i: "i = n" by simp
  have w: "wpm (inp (2 * n)) (clock n) = Inr (12 * real (length (inp (2 * n))) / clock n)"
    using assms(3) by (simp add: wpm_def)
  show ?case using assms(2,3,5) w unfolding i by (simp add: typing_loop_unfold Let_def)
next
  case (Suc m)
  then have i: "i < n" by simp
  have w: "wpm (inp (2 * i)) (clock i) = Inr (12 * real (length (inp (2 * i))) / clock i)"
    using assms(3) i by (simp add: wpm_def)
  have ne: "filter sel ps ! i \<noteq> []" "inp (2 * i) \<noteq> []" using assms(3) i by auto
  have q: "py_strip (inp (2 * i + 1)) \<noteq> ''q''" using assms(4) i by simp
  have "2 * i + 2 = 2 * (i + 1)" by simp
  then have step: "typing_loop topics ps sel inp clock i (2 * i) out =
      typing_loop topics ps sel inp clock (i + 1) (2 * (i + 1))
        (out @ [Show_paragraph (filter sel ps ! i),
                Scores (12 * real (length (inp (2 * i))) / clock i) (accuracy (inp (2 * i)) (filter sel ps ! i))])"
    using i assms(2) ne w q by (simp add: typing_loop_unfold Let_def)
  have "m = n - (i + 1)" "i + 1 \<le> n" using Suc.hyps(2) i by arith+
  from Suc.hyps(1) [OF this] have "typing_loop topics ps sel inp clock (i + 1) (2 * (i + 1))
        (out @ [Show_paragraph (filter sel ps ! i),
                Scores (12 * real (length (inp (2 * i))) / clock i) (accuracy (inp (2 * i)) (filter sel ps ! i))])
      = Inr ((out @ [Show_paragraph (filter sel ps ! i),
                Scores (12 * real (length (inp (2 * i))) / clock i) (accuracy (inp (2 * i)) (filter sel ps ! i))])
             @ concat (map (\<lambda>k. [Show_paragraph (filter sel ps ! k),
                    Scores (12 * real (length (inp (2 * k))) / clock k) (accuracy (inp (2 * k)) (filter sel ps ! k))])
                  [Suc i..<Suc n]))" by simp
  moreover have "[i..<Suc n] = i # [Suc i..<Suc n]" using i by (simp add: upt_conv_Cons)
  ultimately show ?case using step by simp
qed

text \<open>
  C27: every paragraph the typing test shows is the next selected paragraph: the
  paragraphs shown are the first ones of the selection, in order, without gaps.
\<close>

theorem run_typing_test_shows_selected:
  assumes "test_select topics = Inr sel" and "run_typing_test topics ps inp clock = Inr out"
  shows "shown out = take (length (shown out)) (filter sel ps)"
  using assms typing_loop_shown [of topics ps sel inp clock 0 0 "[]" out]
  by (auto simp: run_typing_test_def)

theorem run_typing_test_shows_selected_witness:
  "test_select [] = Inr (\<lambda>p. True)
   \<and> run_typing_test [] [''a b'', ''c''] (\<lambda>j. if j = 0 then ''a b'' else ''q'') (\<lambda>i. 3)
       = Inr [Show_paragraph ''a b'', Scores 12 100]
   \<and> shown [Show_paragraph ''a b'', Scores 12 100] = take 1 [''a b'', ''c'']"
proof -
  have run: "run_typing_test [] [''a b'', ''c''] (\<lambda>j. if j = 0 then ''a b'' else ''q'') (\<lambda>i. 3)
       = Inr [Show_paragraph ''a b'', Scores 12 100]"
    by (simp add: run_typing_test_def test_select_def typing_loop_unfold wpm_def accuracy_def
        py_split_def py_whitespace_def py_get_def py_strip_def)
  have sel: "test_select [] = Inr (\<lambda>p. True)" by (simp add: test_select_def)
  from run_typing_test_shows_selected [OF sel run] run sel show ?thesis by simp
qed

text \<open>
  C40: the \<open>while True\<close> loop of the typing test ends even if the user never stops:
  when every selected paragraph is non-empty, every input line is a non-empty answer
  other than \<open>q\<close> and the clock always advances, the test shows every selected
  paragraph once, in order, and returns with "No more paragraphs".
\<close>

theorem run_typing_test_endless_input:
  assumes "test_select topics = Inr sel" and "\<forall>p\<in>set (filter sel ps). p \<noteq> []"
    and "\<forall>j. inp j \<noteq> [] \<and> py_strip (inp j) \<noteq> ''q''" and "\<forall>i. 0 < clock i"
  shows "\<exists>rounds. run_typing_test topics ps inp clock = Inr (rounds @ [No_more topics])
                 \<and> shown rounds = filter sel ps"
  using typing_loop_endless [OF assms(2-4), of topics 0 0 "[]"] assms(1)
  by (simp add: run_typing_test_def)

theorem run_typing_test_endless_input_witness:
  "test_select [] = Inr (\<lambda>p. True) \<and> (\<forall>j. ''x'' \<noteq> [] \<and> py_strip ''x'' \<noteq> ''q'')
   \<and> (\<exists>rounds. run_typing_test [] [''a b'', ''c''] (\<lambda>j. ''x'') (\<lambda>i. 1) = Inr (rounds @ [No_more []])
               \<and> shown rounds = [''a b'', ''c''])"
proof -
  have sel: "test_select [] = Inr (\<lambda>p. True)" by (simp add: test_select_def)
  have q: "\<forall>j. ''x'' \<noteq> [] \<and> py_strip ''x'' \<noteq> ''q''" by (simp add: py_strip_def py_whitespace_def)
  from run_typing_test_endless_input [OF sel, of "[''a b'', ''c'']" "\<lambda>j. ''x''" "\<lambda>i. 1"] sel q
  show ?thesis by simp
qed

text \<open>
  C38: when the user answers \<open>q\<close> after the \<open>n\<close>-th paragraph (counting from 0), having
  typed a non-empty line for each paragraph and pressed return without \<open>q\<close> before,
  the test shows exactly the first \<open>n + 1\<close> selected paragraphs, each followed by the
  speed and the accuracy of the line typed for it: input line \<open>2 k\<close> is scored against
  paragraph \<open>k\<close> with the \<open>k\<close>-th measured time, and nothing else is printed.
\<close>

theorem run_typing_test_quit:
  assumes "test_select topics = Inr sel" and "n < length (filter sel ps)"
    and "\<forall>k\<le>n. filter sel ps ! k \<noteq> [] \<and> inp (2 * k) \<noteq> [] \<and> 0 < clock k"
    and "\<forall>k<n. py_strip (inp (2 * k + 1)) \<noteq> ''q''" and "py_strip (inp (2 * n + 1)) = ''q''"
  shows "run_typing_test topics ps inp clock =
           Inr (concat (map (\<lambda>k. [Show_paragraph (filter sel ps ! k),
                    Scores (12 * real (length (inp (2 * k))) / clock k) (accuracy (inp (2 * k)) (filter sel ps ! k))])
                  [0..<Suc n]))"
  using typing_loop_quit [OF _ assms(2-5), of 0 topics "[]"] assms(1)
  by (simp add: run_typing_test_def)

theorem run_typing_test_quit_witness:
  "run_typing_test [] [''a b'', ''c'']
      (\<lambda>j. if j = 0 then ''a b'' else if j = 1 then '''' else if j = 2 then ''c'' else ''q'') (\<lambda>i. 3)
    = Inr [Show_paragraph ''a b'', Scores 12 (accuracy ''a b'' ''a b''),
           Show_paragraph ''c'', Scores 4 (accuracy ''c'' ''c'')]"
proof -
  let ?inp = "\<lambda>j::nat. if j = 0 then ''a b'' else if j = 1 then '''' else if j = 2 then ''c'' else ''q''"
  have sel: "test_select [] = Inr (\<lambda>p. True)" by (simp add: test_select_def)
  have k1: "\<forall>k\<le>1. [''a b'', ''c''] ! k \<noteq> [] \<and> ?inp (2 * k) \<noteq> [] \<and> 0 < (3::real)"
    by (auto simp: le_Suc_eq)
  have q0: "\<forall>k<1. py_strip (?inp (2 * k + 1)) \<noteq> ''q''" by (simp add: py_strip_def)
  have q1: "py_strip (?inp (2 * 1 + 1)) = ''q''" by (simp add: py_strip_def py_whitespace_def)
  from run_typing_test_quit [of "[]" "\<lambda>p. True" 1 "[''a b'', ''c'']" ?inp "\<lambda>i. 3"] sel k1 q0 q1
  show ?thesis by (simp add: upt_conv_Cons)
qed

end
