(* ===== verification/ProgressSession.thy ===== *)
theory ProgressSession
  imports Scoring
begin

text \<open>
  A multiplayer session as the spec describes its network sender: after each word the
  player types, the client calls \<open>report_progress\<close> with all the words typed so far,
  which sends one message. \<open>progress_session\<close> runs the calls for a list of words in
  order, threading the list of sent messages; an exception ends the session.
  \<open>progress_of\<close> is the spec's progress ratio: the fraction of the prompt's words
  typed correctly before the first mismatch.
\<close>

subsection \<open>Sessions of reports\<close>

fun progress_session ::
  "string list \<Rightarrow> 'id \<Rightarrow> string list \<Rightarrow> string list \<Rightarrow> 'id progress_message list
   \<Rightarrow> 'id progress_message list py_result" where
  "progress_session prompt player_id typed [] sent = Inr sent"
| "progress_session prompt player_id typed (w # ws) sent =
     (case report_progress (typed @ [w]) prompt player_id sent of
        Inl e \<Rightarrow> Inl e
      | Inr (ratio, sent') \<Rightarrow> progress_session prompt player_id (typed @ [w]) ws sent')"

definition progress_of :: "string list \<Rightarrow> string list \<Rightarrow> real" where
  "progress_of typed prompt = real (common_prefix_len typed prompt) / real (length prompt)"

subsection \<open>The reported progress never goes back\<close>

lemma common_prefix_len_snoc_mono: "common_prefix_len xs ys \<le> common_prefix_len (xs @ [w]) ys"
  by (induction xs ys rule: common_prefix_len.induct) auto

lemma progress_of_snoc_mono: "progress_of typed prompt \<le> progress_of (typed @ [w]) prompt"
  unfolding progress_of_def by (intro divide_right_mono) (simp_all add: common_prefix_len_snoc_mono)

lemma report_progress_Inr:
  "report_progress typed prompt player_id sent = Inr (ratio, sent') \<Longrightarrow>
   ratio = progress_of typed prompt \<and> sent' = sent @ [\<lparr>msg_id = player_id, msg_progress = ratio\<rparr>]"
  by (auto simp: report_progress_prefix progress_of_def Let_def split: if_splits)

lemma progress_session_msgs:
  "progress_session prompt player_id typed ws sent = Inr sent' \<Longrightarrow>
   sent' = sent @ map (\<lambda>n. \<lparr>msg_id = player_id, msg_progress = progress_of (typed @ take (Suc n) ws) prompt\<rparr>)
                      [0..<length ws]"
proof (induction ws arbitrary: typed sent)
  case (Cons w ws)
  then obtain ratio s1 where r: "report_progress (typed @ [w]) prompt player_id sent = Inr (ratio, s1)"
    and rest: "progress_session prompt player_id (typed @ [w]) ws s1 = Inr sent'"
    by (auto split: sum.splits)
  from report_progress_Inr [OF r] have s1: "s1 = sent @ [\<lparr>msg_id = player_id, msg_progress = progress_of (typed @ [w]) prompt\<rparr>]"
    by simp
  from Cons.IH [OF rest] s1 show ?case
    by (simp add: map_upt_Suc del: upt_Suc)
qed simp

lemma progress_session_sorted:
  "progress_session prompt player_id typed ws sent = Inr sent' \<Longrightarrow>
   sorted (map msg_progress sent) \<Longrightarrow> (\<forall>m\<in>set sent. msg_progress m \<le> progress_of typed prompt) \<Longrightarrow>
   sorted (map msg_progress sent')"
proof (induction ws arbitrary: typed sent)
  case (Cons w ws)
  then obtain ratio s1 where r: "report_progress (typed @ [w]) prompt player_id sent = Inr (ratio, s1)"
    and rest: "progress_session prompt player_id (typed @ [w]) ws s1 = Inr sent'"
    by (auto split: sum.splits)
  from report_progress_Inr [OF r] have ratio: "ratio = progress_of (typed @ [w]) prompt"
    and s1: "s1 = sent @ [\<lparr>msg_id = player_id, msg_progress = ratio\<rparr>]" by simp_all
  have le: "\<forall>m\<in>set sent. msg_progress m \<le> ratio"
    using Cons.prems(3) progress_of_snoc_mono [of typed prompt w] ratio by fastforce
  show ?case
  proof (rule Cons.IH [OF rest])
    show "sorted (map msg_progress s1)" using Cons.prems(2) le by (simp add: s1 sorted_append)
    show "\<forall>m\<in>set s1. msg_progress m \<le> progress_of (typed @ [w]) prompt" using le ratio s1 by simp
  qed
qed simp

text \<open>
  C26: in a session where the player's text only grows word by word, the n-th message
  sent carries the progress of the first n + 1 typed words, and the progress reported
  never decreases.
\<close>

theorem progress_session_monotone:
  assumes "progress_session prompt player_id [] ws [] = Inr sent"
  shows "map msg_progress sent = map (\<lambda>n. progress_of (take (Suc n) ws) prompt) [0..<length ws]
         \<and> sorted (map msg_progress sent)"
  using progress_session_msgs [OF assms] progress_session_sorted [OF assms] by simp

theorem progress_session_monotone_witness:
  "progress_session [''I'', ''have'', ''begun''] (1::nat) [] [''I'', ''have'', ''begun''] []
     = Inr [\<lparr>msg_id = 1, msg_progress = 1 / 3\<rparr>, \<lparr>msg_id = 1, msg_progress = 2 / 3\<rparr>,
            \<lparr>msg_id = 1, msg_progress = 1\<rparr>]
   \<and> sorted [1 / 3, 2 / 3, 1 :: real]"
proof -
  have run: "progress_session [''I'', ''have'', ''begun''] (1::nat) [] [''I'', ''have'', ''begun''] []
     = Inr [\<lparr>msg_id = 1, msg_progress = 1 / 3\<rparr>, \<lparr>msg_id = 1, msg_progress = 2 / 3\<rparr>,
            \<lparr>msg_id = 1, msg_progress = 1\<rparr>]"
    by (simp add: report_progress_prefix)
  from progress_session_monotone [OF run] run show ?thesis by simp
qed

end
