(* ===== verification/Spec2Isabelle.thy ===== *)
theory Spec2Isabelle
  imports DiffMemo MemoRace FastestPrints TypingTest ProgressSession
begin

text \<open>
  \<^bold>\<open>CATS (typing test): a verification development of \<open>src/cats.py\<close>.\<close>

  \<^bold>\<open>The program.\<close> \<open>cats.py\<close> is one Python module of a typing test. Phase 1 chooses
  paragraphs (\<open>choose\<close>, \<open>about\<close>), scores a typed line (\<open>accuracy\<close>, \<open>wpm\<close>) and
  corrects mistyped words: \<open>autocorrect\<close> compares a word with every entry of a
  vocabulary under a diff function (\<open>shifty_shifts\<close>: substitutions plus length
  difference; \<open>meowstake_matches\<close>: edit distance), each of which gives up once a
  \<open>limit\<close> of edits is used and then reports a value above the limit. Phase 3 reports
  multiplayer progress (\<open>report_progress\<close>, which calls a \<open>send\<close> callback), turns
  timestamp traces into a \<open>game\<close> value of per-word durations (\<open>time_per_word\<close>),
  groups the words by the player who typed each fastest (\<open>fastest_words\<close>) and prints
  the groups (\<open>fastest_words_report\<close>). The extra credit part has a memoising wrapper
  \<open>memo\<close> and two unwritten stubs (\<open>key_distance_diff\<close>, \<open>faster_autocorrect\<close>). The
  command line loop (\<open>run_typing_test\<close>, started by \<open>run\<close>) chooses paragraphs
  with \<open>choose\<close> and \<open>about\<close>, reads the typed lines and prints the scores.

  \<^bold>\<open>Theories.\<close>
  \<^item> \<open>Prelude\<close>: the Python exceptions (\<open>py_error\<close>) and the built-ins the module
    relies on, with their exceptions: \<open>xs[i]\<close> (\<open>py_get\<close>, negative indices
    included), \<open>min\<close> (\<open>py_min\<close>, \<open>ValueError\<close> on an empty list),
    \<open>list.index\<close> (\<open>py_index\<close>), a loop that stops at the first exception
    (\<open>py_mapM\<close>), \<open>str(n)\<close> (\<open>py_str_nat\<close>), \<open>','.join\<close> (\<open>py_join\<close>), and
    \<open>utils.split\<close>/\<open>utils.lower\<close> (\<open>py_split\<close>, \<open>py_lower\<close>; \<open>utils.py\<close> is not
    among the sources, so these follow the documented behaviour of \<open>str.split()\<close> and
    \<open>str.lower()\<close> on ASCII), with the lemmas on them the components share.
  \<^item> \<open>Diff\<close>: \<open>shifty_shifts\<close>, \<open>meowstake_matches\<close>, \<open>final_diff\<close>,
    \<open>key_distance_diff\<close>, translated branch by branch (strings as \<open>char list\<close>,
    \<open>start[0]\<close> as \<open>hd\<close>, \<open>start[1:]\<close> as \<open>tl\<close>, Python ints as \<open>int\<close>, so a
    negative limit is modelled as the code runs it). Two unbounded reference distances
    are defined beside them: \<open>subst_dist\<close> (mismatched positions plus length
    difference) and \<open>edit_dist\<close> (the Levenshtein recurrence).
  \<^item> \<open>DiffMemo\<close>: the spec's production design of the edit diff (offsets into the
    original strings and the remaining budget, a memo table keyed on that triple):
    \<open>meow_ix\<close> on offsets, \<open>meow_memo\<close>/\<open>meow_step\<close> threading the table.
  \<^item> \<open>Autocorrect\<close>: \<open>autocorrect\<close> over an arbitrary diff function, \<open>memo\<close> as a
    state-monad computation (\<open>memoized\<close>) whose state is the cache dictionary, a
    session of calls (\<open>memo_session\<close>), and \<open>faster_autocorrect\<close>.
  \<^item> \<open>MemoRace\<close>: concurrent callers of one \<open>memo\<close> wrapper. Each call is split into
    its accesses to the shared cache (test, call of \<open>f\<close>, store, reload:
    \<open>memo_thread_step\<close> on a program counter \<open>memo_pc\<close>), and the inductive relation
    \<open>memo_race\<close> lets any caller take the next step; \<open>run_schedule\<close> runs one given
    interleaving.
  \<^item> \<open>Scoring\<close>: \<open>accuracy\<close>, \<open>wpm\<close> and \<open>report_progress\<close>, whose \<open>while\<close> loop is
    \<open>progress_loop\<close> and whose \<open>send\<close> callback appends to a list of sent messages.
  \<^item> \<open>ProgressSession\<close>: a multiplayer session, one \<open>report_progress\<close> call after each
    typed word (\<open>progress_session\<close>), as the spec's network sender receives them.
  \<^item> \<open>Game\<close>: the \<open>game\<close> record with its constructor and selectors,
    \<open>time_per_word\<close> and \<open>fastest_words\<close>, and the reference notions \<open>durations\<close>
    (consecutive differences of a trace) and \<open>is_fastest\<close> (the lowest-indexed player
    of least duration).
  \<^item> \<open>GameString\<close>: \<open>game_string\<close> with Python's \<open>str\<close> of a list and \<open>repr\<close> of a
    string (\<open>py_list_str\<close>, \<open>py_repr_str\<close>, \<open>py_repr_char\<close>) on the 256 characters of
    HOL's \<open>char\<close>; the numbers' \<open>repr\<close> is a parameter. \<open>unrepr_list\<close> reads the
    printed word list back.
  \<^item> \<open>FastestPrints\<close>: \<open>fastest_words\<close> with its three debug \<open>print\<close> calls
    (\<open>fastest_words_io\<close>, returning the printed text beside the result).
  \<^item> \<open>Select\<close>: \<open>choose\<close> (as \<open>choose_paragraph\<close>) and \<open>about\<close> with its closure
    \<open>about_predicate\<close>, with \<open>utils.remove_punctuation\<close> from its documentation.
  \<^item> \<open>TypingTest\<close>: \<open>run_typing_test\<close> with its environment as parameters (the
    paragraph lines, an endless stream of input lines, the seconds measured per
    paragraph) and its printed lines as \<open>cli_output\<close> events; the \<open>while True\<close>
    loop is \<open>typing_loop\<close>; \<open>run\<close> is \<open>run_cli\<close>.
  \<^item> this theory: \<open>fastest_words_report\<close>'s composition and the properties that join
    the components.

  \<^bold>\<open>What is proved.\<close>
  \<^item> The diff functions are correct against their references (C1, C2): within the
    limit they return the exact distance, beyond it a value above the limit. The proofs
    go by induction along the reference recurrences; the Levenshtein part needs the
    facts that dropping one character changes the distance by at most one
    (\<open>edit_dist_drop_le\<close>) and that a common first character can be skipped
    (\<open>edit_dist_same_hd\<close>). The substitution diff dominates the edit diff (C5), and the
    edit diff stays between 0 and the longer length whatever the limit (C9). The
    reference \<open>edit_dist\<close> is the least cost of an edit script (\<open>edit_dist_least\<close>),
    so the capped edit diff is the capped least number of insertions, deletions and
    substitutions (C35). The spec's memoised design on offsets and budget computes
    \<open>meowstake_matches\<close> of the suffixes from any table of correct entries and keeps
    the table correct (C18), by mutual induction over the lookup and the step. With a
    negative limit neither diff ever prunes and both return the exact distances (C11);
    both are symmetric in their two strings for every limit (C14).
  \<^item> \<open>autocorrect\<close> returns the first vocabulary entry at minimal difference when
    that difference is within the limit, and the word otherwise (C3); correcting a
    corrected word returns it again, whatever the diff function (C6); on an empty
    vocabulary it raises \<open>ValueError\<close> instead of returning the word
    (\<open>autocorrect_empty_vocabulary\<close>).
    Only the differences capped at \<open>limit + 1\<close> matter (\<open>autocorrect_capped\<close>), so
    the pruned searches choose exactly what an unbounded Levenshtein or substitution
    search chooses (C4, C10), and a correction found at one limit is kept at every
    larger limit (C39); the spec's \<open>wrod\<close> scenario is evaluated
    (\<open>autocorrect_wrod_scenario\<close>).
  \<^item> Memoisation: a call on a consistent cache returns the function's own result and
    keeps the cache consistent (C7); a whole session returns what the plain function
    returns and caches exactly the successful calls (C8).
  \<^item> Scoring: \<open>accuracy\<close> is the share of positions where the typed word matches,
    over the typed words (C12), lies in \<open>[0, 100]\<close> (C13) and is exactly 100 when the
    typed words are a non-empty prefix of the reference (C15); \<open>report_progress\<close> returns and sends the fraction of the
    prompt's words matched before the first mismatch, and on its exceptions
    (\<open>IndexError\<close>, \<open>ZeroDivisionError\<close> on an empty prompt) sends nothing (C16).
    In a session where the typed words only grow, the n-th message carries the progress
    of the first n + 1 words and the reported progress never decreases (C26).
  \<^item> Game: \<open>time_per_word\<close> builds the game of consecutive differences (C19),
    truncates longer traces to the first one (C20), raises \<open>IndexError\<close> on a shorter
    one (C21) and \<open>AssertionError\<close> when the first trace does not have one timestamp
    per word plus the start (C22); \<open>fastest_words\<close> gives each
    player the words they typed fastest, ties to the lowest index (C23), the groups
    partition the words (C24), and a game without players raises \<open>ValueError\<close> (C25);
    every successful call also prints exactly \<open>1 + P * (W + 1)\<close> lines starting with
    \<open>Debug:\<close> for \<open>P\<close> players and \<open>W\<close> words, since no \<open>repr\<close> of a word contains
    a newline (C17);
    \<open>time\<close> is characterised on every branch, a negative index counting from the end,
    assertion failures and \<open>IndexError\<close> included (C34). The report is
    proved line by line for every well-formed input (C28). \<open>game_string\<close> prints the
    words unambiguously: the word list is read back from the printed game whatever
    characters the words contain (C33).
  \<^item> Selection: \<open>choose\<close> returns the \<open>k\<close>-th accepted paragraph or \<open>''''\<close> (C29) and
    counts a negative \<open>k\<close> from the end (C30); \<open>about\<close>'s predicate finds a topic word
    between spaces anywhere in a paragraph (C31) and ignores case (C32). The doctests
    of \<open>accuracy\<close>, \<open>about\<close> and \<open>choose\<close> hold (\<open>cats_doctests\<close>).
  \<^item> Concurrent memo callers (C36, C37): in every interleaving each returned caller
    got \<open>f(args)\<close> and the cache stays consistent, by an invariant on the cache and the
    program counters kept by every step (\<open>memo_race_ok\<close>) (C36); two callers can both
    compute \<open>f\<close> for the same arguments, the duplicate computation the spec allows
    (\<open>memo_race_duplicate_compute\<close>), but a caller that tests after its arguments are
    cached never calls \<open>f\<close> (C37), by rule induction over the interleavings.
  \<^item> Typing test: the paragraphs shown are the first selected ones, in order (C27);
    when the user quits after the \<open>n\<close>-th paragraph the output is exactly the first
    \<open>n + 1\<close> paragraphs, each with the speed and accuracy of the line typed for it
    (C38); and with an endless supply of answers other than \<open>q\<close> the loop still ends after
    showing every selected paragraph once (C40).

  \<^bold>\<open>Bounds and fuel.\<close> No fuel is needed: both diff recursions terminate on the
  lengths of the strings (\<open>termination\<close> with a measure), every loop of the module is a
  bounded \<open>for\<close> loop (a list recursion), and \<open>report_progress\<close>'s \<open>while\<close> loop is a
  \<open>function\<close> with the measure \<open>len(typed) - i\<close>, so it runs at most \<open>len(typed)\<close>
  times. The typing test's \<open>while True\<close> loop has no bound of its own: its measure is
  the number of selected paragraphs minus \<open>i\<close>, since \<open>choose\<close> returns the empty
  string past them (\<open>choose_paragraph_nat\<close>), so the input is modelled as an endless
  stream and no fuel is needed. In the concurrent memo model each step of an
  unfinished caller lowers a rank of at most four per caller
  (\<open>memo_race_rank_decreases\<close>).

  \<^bold>\<open>Not modelled.\<close> Floating-point rounding (the scores are real numbers); \<open>utils.count\<close>, which wraps \<open>key_distance_diff\<close> with a call counter
  (\<open>utils.py\<close> is not in the repository);
  \<open>get_key_distances\<close> and \<open>lines_from_file\<close> (in \<open>utils.py\<close>; their results are
  parameters of the model); the parsing of the command line by \<open>argparse\<close> (\<open>run\<close> is modelled
  from the parsed arguments, \<open>run_cli\<close>); the end of the input, where \<open>input()\<close>
  raises \<open>EOFError\<close> (the model's input never ends); the text of the printed lines, which
  are events carrying the printed values (Python's float formatting is not modelled).
  The \<open>repr\<close> of the numbers in \<open>game_string\<close> (a parameter), and Python strings
  beyond code point 255 (HOL's \<open>char\<close> has 256 values).

  \<^bold>\<open>Further work.\<close> \<open>KeyboardDistance\<close> stays partly modelled: \<open>key_distance\<close> and the
  counter of \<open>count\<close> come from \<open>utils.py\<close>, which is not in the repository, and the
  stub \<open>key_distance_diff\<close> never uses them. \<open>Utils\<close> stays partly modelled for the
  same reason: \<open>split\<close>, \<open>lower\<close> and \<open>remove_punctuation\<close> follow their documented
  behaviour, while \<open>lines_from_file\<close>, \<open>count\<close> and \<open>get_key_distances\<close> have no
  source or documentation to translate, so their results stay parameters. The other
  uncovered lines of \<open>cats.py\<close> are imports, comments and the calls into these
  functions.
\<close>

text \<open>
  The doctests of the module: \<open>accuracy\<close> on its six examples, and \<open>about\<close> with
  \<open>choose\<close>: with the topic \<open>dog, dogs, pup, puppy\<close>, \<open>Cute Dog!\<close> is the first paragraph
  about it and \<open>Nice pup.\<close> the second; a topic word with a capital fails the
  assertion of \<open>about\<close>.
\<close>

lemma cats_doctests:
  "accuracy ''Cute Dog!'' ''Cute Dog.'' = 50 \<and> accuracy ''A Cute Dog!'' ''Cute Dog.'' = 0
   \<and> accuracy ''cute Dog.'' ''Cute Dog.'' = 50 \<and> accuracy ''Cute Dog. I say!'' ''Cute Dog.'' = 50
   \<and> accuracy ''Cute'' ''Cute Dog.'' = 100 \<and> accuracy '''' ''Cute Dog.'' = 0
   \<and> choose_paragraph [''Cute Dog!'', ''That is a cat.'', ''Nice pup!'']
      (about_predicate [''dog'', ''dogs'', ''pup'', ''puppy'']) 0 = ''Cute Dog!''
   \<and> choose_paragraph [''Cute Dog!'', ''That is a cat.'', ''Nice pup.'']
      (about_predicate [''dog'', ''dogs'', ''pup'', ''puppy'']) 1 = ''Nice pup.''
   \<and> about [''dog'', ''dogs'', ''pup'', ''puppy''] = Inr (about_predicate [''dog'', ''dogs'', ''pup'', ''puppy''])
   \<and> about [''Dog''] = Inl AssertionError"
  by (simp add: accuracy_def about_def choose_paragraph_def about_predicate_def remove_punctuation_def
      py_strip_def py_whitespace_def py_punctuation_def py_lower_def py_split_def py_get_def)

lemma autocorrect_meowstake_exact:
  assumes "0 \<le> limit"
  shows "autocorrect user_word vw meowstake_matches limit
         = autocorrect user_word vw (\<lambda>s g _. int (edit_dist s g)) limit"
proof (rule autocorrect_capped_eq)
  fix v
  show "min (meowstake_matches user_word v limit) (limit + 1)
        = min (int (edit_dist user_word v)) (limit + 1)"
    using meowstake_matches_le_edit_dist [of user_word v limit]
      meowstake_matches_ge_capped [OF assms, of user_word v] by auto
qed

text \<open>
  C4: for a non-negative limit, \<open>autocorrect\<close> with the pruned \<open>meowstake_matches\<close>
  chooses the same word as \<open>autocorrect\<close> with the exact, unbounded Levenshtein
  distance.
\<close>

theorem autocorrect_meowstake_matches_refines:
  assumes "0 \<le> limit"
  shows "autocorrect user_word vw meowstake_matches limit
         = autocorrect user_word vw (\<lambda>s g _. int (edit_dist s g)) limit"
  using assms by (rule autocorrect_meowstake_exact)

theorem autocorrect_meowstake_matches_refines_witness:
  "autocorrect ''wrod'' [''word'', ''world''] meowstake_matches 2
     = autocorrect ''wrod'' [''word'', ''world''] (\<lambda>s g _. int (edit_dist s g)) 2
   \<and> autocorrect ''wrod'' [''word'', ''world''] (\<lambda>s g _. int (edit_dist s g)) 2 = Inr ''word''"
  using autocorrect_meowstake_matches_refines [of 2 "''wrod''" "[''word'', ''world'']"]
  by (simp add: autocorrect_def)

text \<open>
  C10: for a non-negative limit, \<open>autocorrect\<close> with the pruned \<open>shifty_shifts\<close>
  chooses the same word as \<open>autocorrect\<close> with the exact count of substitutions plus
  length difference.
\<close>

theorem autocorrect_shifty_shifts_refines:
  assumes "0 \<le> limit"
  shows "autocorrect user_word vw shifty_shifts limit
         = autocorrect user_word vw (\<lambda>s g _. int (subst_dist s g)) limit"
proof (rule autocorrect_capped_eq)
  fix v
  show "min (shifty_shifts user_word v limit) (limit + 1)
        = min (int (subst_dist user_word v)) (limit + 1)"
    using shifty_shifts_le_subst_dist [of user_word v limit]
      shifty_shifts_ge_capped [OF assms, of user_word v] by auto
qed

theorem autocorrect_shifty_shifts_refines_witness:
  "autocorrect ''cats'' [''dogs'', ''cuts''] shifty_shifts 1
     = autocorrect ''cats'' [''dogs'', ''cuts''] (\<lambda>s g _. int (subst_dist s g)) 1
   \<and> autocorrect ''cats'' [''dogs'', ''cuts''] (\<lambda>s g _. int (subst_dist s g)) 1 = Inr ''cuts''"
  using autocorrect_shifty_shifts_refines [of 1 "''cats''" "[''dogs'', ''cuts'']"]
  by (simp add: autocorrect_def subst_dist_def)

text \<open>
  The spec's scenario: \<open>wrod\<close> is two edits away from both \<open>word\<close> and
  \<open>world\<close>, so with limit 1 it is returned unchanged, and with limit 2 the first of the
  two, \<open>word\<close>, is chosen.
\<close>

theorem autocorrect_wrod_scenario:
  "autocorrect ''wrod'' [''word'', ''world''] meowstake_matches 1 = Inr ''wrod''
   \<and> autocorrect ''wrod'' [''word'', ''world''] meowstake_matches 2 = Inr ''word''"
  by (simp add: autocorrect_def)

text \<open>
  C28: for well-formed traces and at least one player, \<open>fastest_words_report\<close> joins
  \<open>time_per_word\<close> and \<open>fastest_words\<close>: line \<open>p + 1\<close> lists, comma-separated and in
  order, the words whose fastest player (ties to the lowest index) is \<open>p\<close>, computed on
  the consecutive differences of the traces.
\<close>

theorem fastest_words_report_correct:
  assumes "tpp \<noteq> []" and "\<forall>t\<in>set tpp. length t = length words + 1"
  shows "fastest_words_report tpp words =
    Inr (concat (map (\<lambda>p. ''Player '' @ py_str_nat (p + 1) @ '' typed these fastest: ''
           @ py_join '','' (map (\<lambda>w. words ! w)
               (filter (is_fastest \<lparr>g_words = words, g_times = map durations tpp\<rparr> p) [0..<length words]))
           @ [CHR 0x0A])
         [0..<length tpp]))"
proof -
  let ?g = "\<lparr>g_words = words, g_times = map durations tpp\<rparr>"
  have tpw: "time_per_word tpp words = Inr ?g" using assms(2) by (rule time_per_word_durations)
  have ok: "game_ok ?g" using assms(2) by (simp add: game_ok_def list_all_iff durations_def)
  have fw: "fastest_words ?g = Inr (map (\<lambda>p. map (\<lambda>w. words ! w) (filter (is_fastest ?g p) [0..<length words]))
                                  [0..<length tpp])"
    using fastest_words_groups [OF ok] assms(1) by simp
  show ?thesis
    unfolding fastest_words_report_def tpw fw sum.case foldl_append_concat append_Nil
    by (intro arg_cong [where f = Inr] arg_cong [where f = concat] map_cong) simp_all
qed

theorem fastest_words_report_correct_witness:
  "fastest_words_report [[0, 1, 6], [0, 3, 5]] [''a'', ''b'']
   = Inr (''Player 1 typed these fastest: a'' @ [CHR 0x0A] @ ''Player 2 typed these fastest: b'' @ [CHR 0x0A])"
  using fastest_words_report_correct [of "[[0, 1, 6], [0, 3, 5]]" "[''a'', ''b'']"]
  by (simp add: is_fastest_def durations_def upt_conv_Cons py_str_nat.simps)
text \<open>
  C39: raising the limit never undoes a correction: when \<open>autocorrect\<close> with
  \<open>meowstake_matches\<close> returns a vocabulary word at some non-negative limit, it returns
  the same word at every larger limit, although the pruned differences themselves
  change with the limit.
\<close>

theorem autocorrect_limit_monotone:
  assumes "0 \<le> l" and "l \<le> l'" and "autocorrect w vw meowstake_matches l = Inr r" and "r \<in> set vw"
  shows "autocorrect w vw meowstake_matches l' = Inr r"
proof -
  have "autocorrect w vw (\<lambda>s g _. int (edit_dist s g)) l = Inr r"
    using assms(3) autocorrect_meowstake_exact [OF assms(1)] by simp
  from autocorrect_exact_mono [OF this assms(4,2)] show ?thesis
    using autocorrect_meowstake_exact [of l' w vw] assms(1,2) by simp
qed

theorem autocorrect_limit_monotone_witness:
  "autocorrect ''wrod'' [''word'', ''world''] meowstake_matches 2 = Inr ''word''
   \<and> autocorrect ''wrod'' [''word'', ''world''] meowstake_matches 5 = Inr ''word''"
proof -
  have ac: "autocorrect ''wrod'' [''word'', ''world''] meowstake_matches 2 = Inr ''word''"
    by (simp add: autocorrect_def)
  from autocorrect_limit_monotone [of 2 5, OF _ _ ac] ac show ?thesis by simp
qed

end
